(* ===== verification/Prelude.thy ===== *)
theory Prelude
  imports Main "HOL-Library.Monad_Syntax" "HOL-Library.List_Lexorder" "HOL-Library.Char_ord"
    "HOL-Library.Multiset"
begin

section \<open>Prelude: shared types, hints and lemmas\<close>

text \<open>
  What every component of the development uses: Go's 64-bit integers and durations with the
  wrap-around written out, results as sums (\<open>Inl\<close> the error, \<open>Inr\<close> the value),
  association lists for Go maps, the collections of simplification rules the component
  theories fill, and the generic lemmas their proofs share.
\<close>

named_theorems go_runtime \<open>unfoldings of the model of the Go runtime and standard library\<close>
named_theorems cfg_defs \<open>unfoldings of the ApplyDefaults and Validate methods\<close>
named_theorems step_defs \<open>unfoldings of the operations of a component's state machine\<close>

subsection \<open>Results\<close>

type_synonym ('e, 'a) result = "'e + 'a"

text \<open>Go's \<^verbatim>\<open>if err != nil { return ..., err }\<close> after a call.\<close>

fun and_then :: "('e, 'a) result \<Rightarrow> ('a \<Rightarrow> ('e, 'b) result) \<Rightarrow> ('e, 'b) result" where
  "and_then (Inl e) k = Inl e"
| "and_then (Inr a) k = k a"

fun is_ok :: "('e, 'a) result \<Rightarrow> bool" where
  "is_ok (Inl e) = False"
| "is_ok (Inr a) = True"

lemma and_then_Inr [simp]: "and_then r k = Inr b \<longleftrightarrow> (\<exists>a. r = Inr a \<and> k a = Inr b)"
  by (cases r) auto

lemma and_then_Inl:
  "and_then r k = Inl e \<longleftrightarrow> r = Inl e \<or> (\<exists>a. r = Inr a \<and> k a = Inl e)"
  by (cases r) auto

lemma is_ok_iff: "is_ok r \<longleftrightarrow> (\<exists>a. r = Inr a)"
  by (cases r) auto

subsection \<open>64-bit integers and durations\<close>

text \<open>
  Go's \<^verbatim>\<open>int\<close>, \<^verbatim>\<open>int64\<close> and \<^verbatim>\<open>time.Duration\<close> (nanoseconds) are 64-bit two's
  complement. Comparisons are those of the integers; an arithmetic operation that can
  overflow is written with \<open>wrap64\<close>.
\<close>

type_synonym duration = int
type_synonym time = int

definition wrap64 :: "int \<Rightarrow> int" where
  "wrap64 x = (x + 2 ^ 63) mod 2 ^ 64 - 2 ^ 63"

abbreviation int64_range :: "int \<Rightarrow> bool" where
  "int64_range x \<equiv> - (2 ^ 63) \<le> x \<and> x < 2 ^ 63"

lemma wrap64_id: "int64_range x \<Longrightarrow> wrap64 x = x"
  by (simp add: wrap64_def)

lemma wrap64_range: "int64_range (wrap64 x)"
  using pos_mod_bound [of "2 ^ 64" "x + 2 ^ 63"] pos_mod_sign [of "2 ^ 64" "x + 2 ^ 63"]
  by (simp add: wrap64_def)

lemma wrap64_succ_neq: "wrap64 (x + 1) \<noteq> x"
proof
  define y where "y = x + 2 ^ 63"
  assume "wrap64 (x + 1) = x"
  then have eq: "(y + 1) mod 2 ^ 64 = y" by (simp add: wrap64_def y_def algebra_simps)
  then have y: "0 \<le> y" "y < 2 ^ 64" by (metis pos_mod_sign zero_less_numeral zero_less_power, metis pos_mod_bound zero_less_numeral zero_less_power)
  show False
  proof (cases "y + 1 = 2 ^ 64")
    case True
    then show False using eq by simp
  next
    case False
    with y have "(y + 1) mod 2 ^ 64 = y + 1" by (intro mod_pos_pos_trivial) simp_all
    with eq show False by simp
  qed
qed

abbreviation microsecond :: duration where "microsecond \<equiv> 1000"
abbreviation millisecond :: duration where "millisecond \<equiv> 1000000"
abbreviation second :: duration where "second \<equiv> 1000000000"
abbreviation minute :: duration where "minute \<equiv> 60000000000"
abbreviation hour :: duration where "hour \<equiv> 3600000000000"

text \<open>Go's \<^verbatim>\<open>/\<close> and \<^verbatim>\<open>%\<close> truncate towards zero.\<close>

definition go_quot :: "int \<Rightarrow> int \<Rightarrow> int" where
  "go_quot a b = sgn a * sgn b * (\<bar>a\<bar> div \<bar>b\<bar>)"

definition go_rem :: "int \<Rightarrow> int \<Rightarrow> int" where
  "go_rem a b = a - b * go_quot a b"

lemma go_quot_nonneg: "0 \<le> a \<Longrightarrow> 0 < b \<Longrightarrow> go_quot a b = a div b"
  by (cases "a = 0") (auto simp: go_quot_def)

lemma go_rem_nonneg: "0 \<le> a \<Longrightarrow> 0 < b \<Longrightarrow> go_rem a b = a mod b"
  by (simp add: go_rem_def go_quot_nonneg minus_mult_div_eq_mod)

subsection \<open>Go maps as association lists\<close>

text \<open>
  A Go map is an association list with distinct keys; \<open>map_put\<close> is \<^verbatim>\<open>m[k] = v\<close>. Its
  iteration order is not specified by Go, so results that depend on the order are stated
  for every permutation of the list.
\<close>

type_synonym ('k, 'v) go_map = "('k \<times> 'v) list"

fun map_put :: "'k \<Rightarrow> 'v \<Rightarrow> ('k, 'v) go_map \<Rightarrow> ('k, 'v) go_map" where
  "map_put k v [] = [(k, v)]"
| "map_put k v ((k', v') # m) = (if k = k' then (k, v) # m else (k', v') # map_put k v m)"

abbreviation map_keys :: "('k, 'v) go_map \<Rightarrow> 'k list" where
  "map_keys m \<equiv> map fst m"

lemma map_of_map_put [simp]: "map_of (map_put k v m) = (map_of m)(k \<mapsto> v)"
  by (induction m) auto

lemma set_keys_map_put [simp]: "fst ` set (map_put k v m) = insert k (fst ` set m)"
  by (simp flip: dom_map_of_conv_image_fst)

lemma distinct_keys_map_put [simp]: "distinct (map_keys m) \<Longrightarrow> distinct (map_keys (map_put k v m))"
proof (induction m)
  case (Cons p m)
  obtain k' v' where "p = (k', v')" by (cases p)
  then show ?case using Cons set_keys_map_put [of k v m] by auto
qed simp

lemma set_map_put:
  "distinct (map_keys m) \<Longrightarrow> set (map_put k v m) = insert (k, v) {p \<in> set m. fst p \<noteq> k}"
  by (induction k v m rule: map_put.induct) (auto simp: image_iff split: if_splits)

lemma map_put_not_Nil [simp]: "map_put k v m \<noteq> []"
  by (induction k v m rule: map_put.induct) simp_all

text \<open>The same map seen in another iteration order.\<close>

lemma map_of_permuted:
  assumes "distinct (map_keys m)" and "mset m' = mset m"
  shows "map_of m' = map_of m"
proof -
  have "distinct (map_keys m')"
    using assms by (metis mset_eq_imp_distinct_iff mset_map)
  moreover have "set m' = set m" using assms(2) by (metis set_mset_mset)
  ultimately show ?thesis using assms(1) by (metis map_of_eqI map_of_inject_set)
qed

text \<open>Building a map from a list of pairs, later entries overwriting earlier ones.\<close>

definition map_from :: "('k \<times> 'v) list \<Rightarrow> ('k, 'v) go_map" where
  "map_from ps = fold (\<lambda>(k, v). map_put k v) ps []"

lemma map_of_fold_map_put:
  "map_of (fold (\<lambda>(k, v). map_put k v) ps m) = map_of m ++ map_of (rev ps)"
  by (induction ps arbitrary: m) (auto simp: map_add_def split: option.splits)

lemma map_of_map_from: "map_of (map_from ps) = map_of (rev ps)"
  by (simp add: map_from_def map_of_fold_map_put)

lemma distinct_keys_fold_map_put:
  "distinct (map_keys m) \<Longrightarrow> distinct (map_keys (fold (\<lambda>(k, v). map_put k v) ps m))"
  by (induction ps arbitrary: m) auto

lemma distinct_keys_map_from: "distinct (map_keys (map_from ps))"
  by (simp add: map_from_def distinct_keys_fold_map_put)

subsection \<open>Lists\<close>

text \<open>The first entry of each key of a list, and the function from keys to these entries.\<close>

definition first_by :: "('a \<Rightarrow> 'k) \<Rightarrow> 'a list \<Rightarrow> 'k \<Rightarrow> 'a option" where
  "first_by key xs k = List.find (\<lambda>x. key x = k) xs"

definition firsts :: "('a \<Rightarrow> 'k) \<Rightarrow> 'a list \<Rightarrow> 'a list" where
  "firsts key xs = remdups (map (\<lambda>x. the (first_by key xs (key x))) xs)"

lemma first_by_Some: "first_by key xs k = Some x \<Longrightarrow> key x = k \<and> x \<in> set xs"
  by (auto simp: first_by_def find_Some_iff)

lemma first_by_in: "x \<in> set xs \<Longrightarrow> \<exists>y. first_by key xs (key x) = Some y"
  by (cases "first_by key xs (key x)") (auto simp: first_by_def find_None_iff)

lemma first_by_Cons: "first_by key (x # xs) = (first_by key xs)(key x \<mapsto> x)"
  by (rule ext) (auto simp: first_by_def)

lemma first_by_map:
  "(\<And>x. key (g x) = key x) \<Longrightarrow> first_by key (map g xs) k = map_option g (first_by key xs k)"
  by (induction xs) (auto simp: first_by_def)

lemma first_by_filter: "first_by key (filter (\<lambda>x. key x \<noteq> k) xs) = (first_by key xs)(k := None)"
proof (rule ext)
  fix j show "first_by key (filter (\<lambda>x. key x \<noteq> k) xs) j = ((first_by key xs)(k := None)) j"
    by (cases "j = k"; induction xs) (auto simp: first_by_def)
qed

lemma finite_dom_first_by: "finite (dom (first_by key xs))"
  by (rule finite_subset [of _ "key ` set xs"]) (auto dest: first_by_Some)

lemma distinct_firsts: "distinct (firsts key xs)"
  by (simp add: firsts_def)

lemma set_firsts: "set (firsts key xs) = ran (first_by key xs)"
proof (intro set_eqI iffI)
  fix x assume "x \<in> set (firsts key xs)"
  then obtain y where y: "y \<in> set xs" "x = the (first_by key xs (key y))"
    by (auto simp: firsts_def)
  from first_by_in [OF y(1)] y(2) have "first_by key xs (key y) = Some x" by (metis option.sel)
  then show "x \<in> ran (first_by key xs)" by (rule ranI)
next
  fix x assume "x \<in> ran (first_by key xs)"
  then obtain k where k: "first_by key xs k = Some x" by (auto simp: ran_def)
  from first_by_Some [OF k] k show "x \<in> set (firsts key xs)"
    unfolding firsts_def set_remdups set_map by (intro image_eqI [of _ _ x]) auto
qed

lemma filter_eq_if_all: "(\<And>x. x \<in> set xs \<Longrightarrow> P x) \<Longrightarrow> filter P xs = xs"
  by (induction xs) auto

lemma find_Some_iff_in: "List.find P xs = Some x \<Longrightarrow> x \<in> set xs \<and> P x"
  by (auto simp: find_Some_iff)

end
