(* ===== verification/Go_Runtime.thy ===== *)
theory Go_Runtime
  imports Prelude
begin

section \<open>The Go runtime the code rests on: errors, strings, select, panics\<close>

text \<open>
  The parts of the language and its standard library the repository uses: error values and
  \<^verbatim>\<open>errors.Is\<close>/\<^verbatim>\<open>errors.As\<close>, the functions of package \<^verbatim>\<open>strings\<close> (a Go string is a list
  of bytes), \<^verbatim>\<open>select\<close> with its random choice among ready arms, and panics.
\<close>

subsection \<open>Error values\<close>

text \<open>
  The package-level error variables of the repository and of the standard library, which
  the code compares by identity; \<open>lib_error\<close> names those of third-party libraries.
  \<open>Wrapf pre e post\<close> is \<^verbatim>\<open>fmt.Errorf\<close> with one \<^verbatim>\<open>%w\<close> verb at \<open>e\<close>. An error formatted with
  \<^verbatim>\<open>%v\<close> only leaves its text.
\<close>

datatype sentinel =
    ErrSkipMessage | ErrPermanent
  | ErrEntityNotFound | ErrOptimisticLocking | ErrOutboxEntityNotFound
  | ErrConnExpired
  | ContextCanceled | ContextDeadlineExceeded
  | ECONNREFUSED | ECONNRESET | ENETUNREACH | EPIPE
  | IoEOF | IoErrUnexpectedEOF | NetErrClosed | OsErrNotExist | HttpErrServerClosed

datatype lib_error = MongoErrNoDocuments | MigrateErrNoChange | KerrUnknownTopicOrPartition

datatype connect_code =
    CodeInvalidArgument | CodeDeadlineExceeded | CodePermissionDenied
  | CodeResourceExhausted | CodeInternal | CodeUnavailable | CodeUnauthenticated

datatype go_error =
    Sentinel sentinel
  | New_error string
  | Foreign "lib_error option" string
  | Panic_error string
  | Wrapf string go_error string
  | Join_errors "go_error list"
  | Connect_error connect_code go_error

text \<open>\<^verbatim>\<open>errors.Is(err, target)\<close>: some error of the tree of wrapped errors is the target.\<close>

fun errors_is :: "go_error \<Rightarrow> sentinel \<Rightarrow> bool" where
  "errors_is (Sentinel s) t = (s = t)"
| "errors_is (New_error m) t = False"
| "errors_is (Foreign l m) t = False"
| "errors_is (Panic_error p) t = False"
| "errors_is (Wrapf pre e post) t = errors_is e t"
| "errors_is (Join_errors es) t = list_ex (\<lambda>e. errors_is e t) es"
| "errors_is (Connect_error c e) t = errors_is e t"

text \<open>\<^verbatim>\<open>errors.Is\<close> for the error variables of a library.\<close>

fun errors_is_lib :: "go_error \<Rightarrow> lib_error \<Rightarrow> bool" where
  "errors_is_lib (Sentinel s) t = False"
| "errors_is_lib (New_error m) t = False"
| "errors_is_lib (Foreign l m) t = (l = Some t)"
| "errors_is_lib (Panic_error p) t = False"
| "errors_is_lib (Wrapf pre e post) t = errors_is_lib e t"
| "errors_is_lib (Join_errors es) t = list_ex (\<lambda>e. errors_is_lib e t) es"
| "errors_is_lib (Connect_error c e) t = errors_is_lib e t"

text \<open>\<^verbatim>\<open>errors.As\<close> with a target of type \<^verbatim>\<open>*panicError\<close>: whether one is in the tree.\<close>

fun errors_as_panic :: "go_error \<Rightarrow> bool" where
  "errors_as_panic (Sentinel s) = False"
| "errors_as_panic (New_error m) = False"
| "errors_as_panic (Foreign l m) = False"
| "errors_as_panic (Panic_error p) = True"
| "errors_as_panic (Wrapf pre e post) = errors_as_panic e"
| "errors_as_panic (Join_errors es) = list_ex errors_as_panic es"
| "errors_as_panic (Connect_error c e) = errors_as_panic e"

text \<open>\<^verbatim>\<open>errors.As\<close> with a target of type \<^verbatim>\<open>*connect.Error\<close>: the code of the first one.\<close>

fun errors_as_connect :: "go_error \<Rightarrow> connect_code option" where
  "errors_as_connect (Sentinel s) = None"
| "errors_as_connect (New_error m) = None"
| "errors_as_connect (Foreign l m) = None"
| "errors_as_connect (Panic_error p) = None"
| "errors_as_connect (Wrapf pre e post) = errors_as_connect e"
| "errors_as_connect (Join_errors es) =
     fold (\<lambda>e acc. case acc of Some c \<Rightarrow> Some c | None \<Rightarrow> errors_as_connect e) es None"
| "errors_as_connect (Connect_error c e) = Some c"

text \<open>\<^verbatim>\<open>errors.Join\<close>: nil when there is nothing to join.\<close>

definition errors_join :: "go_error list \<Rightarrow> go_error option" where
  "errors_join es = (if es = [] then None else Some (Join_errors es))"

fun sentinel_text :: "sentinel \<Rightarrow> string" where
  "sentinel_text ErrSkipMessage = ''skip message processing''"
| "sentinel_text ErrPermanent = ''permanent error''"
| "sentinel_text ErrEntityNotFound = ''entity not found''"
| "sentinel_text ErrOptimisticLocking = ''optimistic locking error''"
| "sentinel_text ErrOutboxEntityNotFound = ''entity not found in database''"
| "sentinel_text ErrConnExpired = ''connection expired''"
| "sentinel_text ContextCanceled = ''context canceled''"
| "sentinel_text ContextDeadlineExceeded = ''context deadline exceeded''"
| "sentinel_text ECONNREFUSED = ''connection refused''"
| "sentinel_text ECONNRESET = ''connection reset by peer''"
| "sentinel_text ENETUNREACH = ''network is unreachable''"
| "sentinel_text EPIPE = ''broken pipe''"
| "sentinel_text IoEOF = ''EOF''"
| "sentinel_text IoErrUnexpectedEOF = ''unexpected EOF''"
| "sentinel_text NetErrClosed = ''use of closed network connection''"
| "sentinel_text OsErrNotExist = ''file does not exist''"
| "sentinel_text HttpErrServerClosed = ''http: Server closed''"

fun join_with :: "string \<Rightarrow> string list \<Rightarrow> string" where
  "join_with sep [] = []"
| "join_with sep [x] = x"
| "join_with sep (x # y # xs) = x @ sep @ join_with sep (y # xs)"

text \<open>
  \<^verbatim>\<open>err.Error()\<close>. The text of a Connect error is not modelled beyond its cause: no code of the
  repository reads it.
\<close>

fun error_text :: "go_error \<Rightarrow> string" where
  "error_text (Sentinel s) = sentinel_text s"
| "error_text (New_error m) = m"
| "error_text (Foreign l m) = m"
| "error_text (Panic_error p) = ''panic: '' @ p"
| "error_text (Wrapf pre e post) = pre @ error_text e @ post"
| "error_text (Join_errors es) = join_with [CHR 0x0A] (map error_text es)"
| "error_text (Connect_error c e) = error_text e"

lemma errors_is_wrap [simp]: "errors_is (Wrapf pre (Sentinel s) post) t \<longleftrightarrow> s = t"
  by simp

subsection \<open>Panics\<close>

text \<open>A call that may panic: \<open>Inl\<close> the panic value (as text), \<open>Inr\<close> the result.\<close>

type_synonym 'a may_panic = "(string, 'a) result"

text \<open>\<^verbatim>\<open>*p\<close>; a nil pointer is \<open>None\<close>.\<close>

definition deref :: "'a option \<Rightarrow> 'a may_panic" where
  "deref p = (case p of None \<Rightarrow> Inl ''nil pointer dereference'' | Some x \<Rightarrow> Inr x)"

lemma deref_Some [simp]: "deref (Some x) = Inr x"
  by (simp add: deref_def)

subsection \<open>Channels, sync.Once and select\<close>

text \<open>
  A channel used only to be closed is its closed flag. Closing it twice panics.
\<close>

definition close_chan :: "bool \<Rightarrow> bool may_panic" where
  [go_runtime]: "close_chan closed = (if closed then Inl ''close of closed channel'' else Inr True)"

text \<open>
  \<^verbatim>\<open>select\<close> takes one of the arms that are ready, which one is not determined: \<open>pick\<close> is the
  runtime's choice, and a property holds for every \<open>pick\<close>. With no arm ready it blocks.
\<close>

definition go_select :: "nat \<Rightarrow> (bool \<times> 'a) list \<Rightarrow> 'a option" where
  "go_select pick arms =
     (let ready = filter fst arms
      in if ready = [] then None else Some (snd (ready ! (pick mod length ready))))"

lemma go_select_ready: "go_select pick arms = Some a \<Longrightarrow> (True, a) \<in> set arms"
proof -
  assume sel: "go_select pick arms = Some a"
  let ?r = "filter fst arms"
  have ne: "?r \<noteq> []" and a: "a = snd (?r ! (pick mod length ?r))"
    using sel by (auto simp: go_select_def Let_def split: if_splits)
  have "?r ! (pick mod length ?r) \<in> set ?r"
    using ne by (intro nth_mem) simp
  then have "fst (?r ! (pick mod length ?r))" and "?r ! (pick mod length ?r) \<in> set arms"
    by (simp_all only: set_filter mem_Collect_eq)
  then show ?thesis using a by (metis (full_types) prod.collapse)
qed

lemma go_select_blocks: "go_select pick arms = None \<longleftrightarrow> (\<forall>(r, a) \<in> set arms. \<not> r)"
  by (auto simp: go_select_def Let_def filter_empty_conv)

lemma go_select_only: "filter fst arms = [(True, a)] \<Longrightarrow> go_select pick arms = Some a"
  by (simp add: go_select_def)

subsection \<open>Package strings\<close>

text \<open>
  \<^verbatim>\<open>strings.TrimSpace(s) == ""\<close>: the string is a sequence of white space, in UTF-8. The
  encodings are those of \<^verbatim>\<open>unicode.IsSpace\<close>.
\<close>

fun drop_space :: "string \<Rightarrow> string option" where
  "drop_space [] = None"
| "drop_space (c # cs) =
     (let b = (of_char c :: nat) in
      if b \<in> {9, 10, 11, 12, 13, 32} then Some cs
      else case cs of
        [] \<Rightarrow> None
      | c2 # cs2 \<Rightarrow>
        (let b2 = (of_char c2 :: nat) in
         if b = 0xC2 \<and> b2 \<in> {0x85, 0xA0} then Some cs2
         else case cs2 of
           [] \<Rightarrow> None
         | c3 # cs3 \<Rightarrow>
           (let b3 = (of_char c3 :: nat) in
            if b = 0xE1 \<and> b2 = 0x9A \<and> b3 = 0x80
               \<or> b = 0xE2 \<and> b2 = 0x80 \<and> (0x80 \<le> b3 \<and> b3 \<le> 0x8A \<or> b3 \<in> {0xA8, 0xA9, 0xAF})
               \<or> b = 0xE2 \<and> b2 = 0x81 \<and> b3 = 0x9F
               \<or> b = 0xE3 \<and> b2 = 0x80 \<and> b3 = 0x80
            then Some cs3 else None)))"

lemma drop_space_shorter: "drop_space s = Some r \<Longrightarrow> length r < length s"
  by (cases s rule: drop_space.cases) (auto simp: Let_def split: if_splits list.splits)

function is_blank :: "string \<Rightarrow> bool" where
  "is_blank s = (if s = [] then True
     else case drop_space s of None \<Rightarrow> False | Some r \<Rightarrow> is_blank r)"
  by pat_completeness auto
termination
  by (relation "measure length") (auto dest: drop_space_shorter)

declare is_blank.simps [simp del]

lemma is_blank_Nil [simp]: "is_blank []"
  by (subst is_blank.simps) simp

lemma is_blank_letter:
  "(of_char c :: nat) \<notin> {9, 10, 11, 12, 13, 32} \<Longrightarrow> of_char c < (128 :: nat) \<Longrightarrow> \<not> is_blank (c # cs)"
  by (subst is_blank.simps) (auto simp: Let_def split: list.splits option.splits)

text \<open>\<^verbatim>\<open>strings.ToLower\<close> on ASCII text; other bytes are left as they are.\<close>

definition lower_char :: "char \<Rightarrow> char" where
  "lower_char c = (let b = (of_char c :: nat) in if 65 \<le> b \<and> b \<le> 90 then char_of (b + 32) else c)"

definition to_lower :: "string \<Rightarrow> string" where
  "to_lower s = map lower_char s"

text \<open>\<^verbatim>\<open>strings.ReplaceAll(s, old, new)\<close> for a non-empty \<open>old\<close>: leftmost, not overlapping.\<close>

function replace_all :: "string \<Rightarrow> string \<Rightarrow> string \<Rightarrow> string" where
  "replace_all [] old new = []"
| "replace_all (c # cs) old new =
     (if old \<noteq> [] \<and> take (length old) (c # cs) = old
      then new @ replace_all (drop (length old) (c # cs)) old new
      else c # replace_all cs old new)"
  by pat_completeness auto
termination
proof (relation "measure (\<lambda>(s, old, new). length s)")
  fix c :: char and cs old new :: string
  assume "old \<noteq> [] \<and> take (length old) (c # cs) = old"
  then show "((drop (length old) (c # cs), old, new), (c # cs, old, new))
      \<in> measure (\<lambda>(s, old, new). length s)"
    by (cases old) auto
qed auto

lemma replace_all_char: "replace_all s [a] [b] = map (\<lambda>c. if c = a then b else c) s"
  by (induction s) auto

text \<open>\<^verbatim>\<open>strings.Split(s, sep)\<close> for a one-byte separator: always at least one piece.\<close>

fun split_char :: "char \<Rightarrow> string \<Rightarrow> string list" where
  "split_char d [] = [[]]"
| "split_char d (c # cs) =
     (if c = d then [] # split_char d cs
      else (case split_char d cs of [] \<Rightarrow> [[c]] | w # ws \<Rightarrow> (c # w) # ws))"

lemma split_char_not_Nil [simp]: "split_char d s \<noteq> []"
  by (cases s) (auto split: list.splits)

lemma split_char_hd: "hd (split_char d s) = takeWhile (\<lambda>c. c \<noteq> d) s"
  by (induction s) (auto split: list.splits)

lemma join_split_char: "join_with [d] (split_char d s) = s"
proof (induction s)
  case (Cons c cs)
  obtain w ws where w: "split_char d cs = w # ws"
    by (cases "split_char d cs") auto
  then show ?case using Cons by (cases ws) auto
qed simp

lemma split_char_free: "w \<in> set (split_char d s) \<Longrightarrow> d \<notin> set w"
proof (induction s arbitrary: w)
  case (Cons c cs)
  obtain v vs where v: "split_char d cs = v # vs"
    by (cases "split_char d cs") auto
  then show ?case using Cons by (auto split: if_splits)
qed simp

text \<open>\<^verbatim>\<open>strings.TrimPrefix\<close>.\<close>

definition trim_prefix :: "string \<Rightarrow> string \<Rightarrow> string" where
  "trim_prefix s p = (if take (length p) s = p then drop (length p) s else s)"

lemma trim_prefix_append [simp]: "trim_prefix (p @ s) p = s"
  by (simp add: trim_prefix_def)

lemma trim_prefix_none: "(\<nexists>r. s = p @ r) \<Longrightarrow> trim_prefix s p = s"
  unfolding trim_prefix_def by (metis append_take_drop_id)

text \<open>\<^verbatim>\<open>strconv.Itoa\<close> and \<^verbatim>\<open>%d\<close>.\<close>

fun nat_digits :: "nat \<Rightarrow> string" where
  "nat_digits n = (if n < 10 then [char_of (48 + n)] else nat_digits (n div 10) @ [char_of (48 + n mod 10)])"

declare nat_digits.simps [simp del]

definition int_text :: "int \<Rightarrow> string" where
  "int_text i = (if i < 0 then CHR ''-'' # nat_digits (nat (- i)) else nat_digits (nat i))"

text \<open>
  \<^verbatim>\<open>time.Duration.String\<close>, the \<^verbatim>\<open>%v\<close> and \<^verbatim>\<open>%s\<close> of a duration: one unit below a second, hours, minutes
  and seconds above, with the trailing zeros of a fraction dropped.
\<close>

definition frac_text :: "nat \<Rightarrow> nat \<Rightarrow> string" where
  "frac_text v prec =
     (let r = v mod 10 ^ prec;
          digits = tl (nat_digits (10 ^ prec + r))
      in nat_digits (v div 10 ^ prec)
         @ (if r = 0 then [] else CHR ''.'' # rev (dropWhile (\<lambda>c. c = CHR ''0'') (rev digits))))"

definition duration_text :: "duration \<Rightarrow> string" where
  "duration_text d =
     (let u = nat \<bar>d\<bar>; sign = (if d < 0 then ''-'' else []) in
      if u = 0 then ''0s''
      else if u < 1000 then sign @ nat_digits u @ ''ns''
      else if u < 1000000 then sign @ frac_text u 3 @ [CHR 0xC2, CHR 0xB5, CHR ''s'']
      else if u < 1000000000 then sign @ frac_text u 6 @ ''ms''
      else
        (let mins = u div 60000000000; secs = frac_text (u mod 60000000000) 9 @ ''s'' in
         sign @ (if mins = 0 then secs
                 else if mins < 60 then nat_digits mins @ ''m'' @ secs
                 else nat_digits (mins div 60) @ ''h'' @ nat_digits (mins mod 60) @ ''m'' @ secs)))"

text \<open>\<^verbatim>\<open>%q\<close> on text without quotes, backslashes or control characters.\<close>

definition quoted :: "string \<Rightarrow> string" where
  "quoted s = [CHR 0x22] @ s @ [CHR 0x22]"

subsection \<open>Default values and checks of a configuration\<close>

text \<open>\<^verbatim>\<open>if x == 0 { x = d }\<close> and \<^verbatim>\<open>if s == "" { s = d }\<close>.\<close>

definition if_zero :: "int \<Rightarrow> int \<Rightarrow> int" where
  "if_zero d x = (if x = 0 then d else x)"

definition if_empty :: "string \<Rightarrow> string \<Rightarrow> string" where
  "if_empty d s = (if s = [] then d else s)"

lemma if_zero_simps [simp]:
  "if_zero d (if_zero d x) = if_zero d x"
  "if_zero d x = x \<longleftrightarrow> x \<noteq> 0 \<or> d = 0"
  "if_zero d x = 0 \<longleftrightarrow> x = 0 \<and> d = 0"
  by (auto simp: if_zero_def)

lemma if_empty_simps [simp]:
  "if_empty d (if_empty d s) = if_empty d s"
  "if_empty d s = s \<longleftrightarrow> s \<noteq> [] \<or> d = []"
  "if_empty d s = [] \<longleftrightarrow> s = [] \<and> d = []"
  by (auto simp: if_empty_def)

text \<open>\<^verbatim>\<open>if cond { return err }\<close> repeated: the first failing check is the result.\<close>

definition failing :: "bool \<Rightarrow> string \<Rightarrow> go_error option" where
  "failing cond msg = (if cond then Some (New_error msg) else None)"

fun first_error :: "go_error option list \<Rightarrow> go_error option" where
  "first_error [] = None"
| "first_error (Some e # es) = Some e"
| "first_error (None # es) = first_error es"

lemma failing_None [simp]: "failing cond msg = None \<longleftrightarrow> \<not> cond"
  by (simp add: failing_def)

lemma first_error_None [simp]: "first_error (x # xs) = None \<longleftrightarrow> x = None \<and> first_error xs = None"
  by (cases x) auto

lemma first_error_all: "first_error xs = None \<longleftrightarrow> (\<forall>x \<in> set xs. x = None)"
  by (induction xs) auto

end
