(* ===== verification/Request_Context.thy ===== *)
theory Request_Context
  imports Go_Runtime
begin

section \<open>What travels with a request: contexts, claims, tenant, logger, Kafka records\<close>

text \<open>
  A Go context is a record of the values the repository stores in it under its private keys
  (tenant slug, claims, logger), the values two libraries store (outgoing gRPC metadata, the
  span context), and its \<^verbatim>\<open>Err()\<close>. Models \<^verbatim>\<open>tenant/context.go\<close>, \<^verbatim>\<open>tenant/messaging.go\<close>,
  \<^verbatim>\<open>tenant/collection_provider.go\<close>, \<^verbatim>\<open>mongo/collection_provider.go\<close>,
  \<^verbatim>\<open>validation/claims.go\<close>, \<^verbatim>\<open>validation/context.go\<close> and \<^verbatim>\<open>logger/context.go\<close>.
\<close>

subsection \<open>Claims\<close>

record claims =
  claim_tenant :: string
  claim_role :: string
  claim_permissions :: "string list"

definition cross_tenant_scope :: string where
  "cross_tenant_scope = ''cross-tenant''"

definition has_any_permission :: "claims \<Rightarrow> string list \<Rightarrow> bool" where
  "has_any_permission c perms =
     (if perms = [] then True else list_ex (\<lambda>perm. perm \<in> set (claim_permissions c)) perms)"

definition is_tenant_scoped :: "claims \<Rightarrow> bool" where
  "is_tenant_scoped c = (claim_tenant c \<noteq> [])"

definition can_access_any_tenant :: "claims \<Rightarrow> bool" where
  "can_access_any_tenant c =
     (if claim_tenant c \<noteq> [] then False else cross_tenant_scope \<in> set (claim_permissions c))"

lemma has_any_permission_iff:
  "has_any_permission c perms \<longleftrightarrow> perms = [] \<or> set perms \<inter> set (claim_permissions c) \<noteq> {}"
  by (auto simp: has_any_permission_def list_ex_iff)

subsection \<open>The context\<close>

text \<open>A logger is the list of fields attached to the base logger; a nil logger is \<open>None\<close>.\<close>

type_synonym logger = "(string \<times> string) list"

record go_ctx =
  ctx_tenant :: "string option"
  ctx_claims :: "claims option"
  ctx_logger :: "logger option"
  ctx_metadata :: "(string, string list) go_map option"
  ctx_span :: "(string \<times> string) option"
  ctx_err :: "go_error option"

definition ctx_background :: go_ctx where
  "ctx_background = \<lparr>ctx_tenant = None, ctx_claims = None, ctx_logger = None,
     ctx_metadata = None, ctx_span = None, ctx_err = None\<rparr>"

abbreviation ctx_done :: "go_ctx \<Rightarrow> bool" where
  "ctx_done ctx \<equiv> ctx_err ctx \<noteq> None"

subsection \<open>Tenant slug\<close>

definition context_with_slug :: "go_ctx \<Rightarrow> string \<Rightarrow> go_ctx" where
  "context_with_slug ctx slug = ctx\<lparr>ctx_tenant := Some slug\<rparr>"

definition slug_from_context :: "go_ctx \<Rightarrow> string option" where
  "slug_from_context ctx =
     (case ctx_tenant ctx of None \<Rightarrow> None | Some slug \<Rightarrow> if slug = [] then None else Some slug)"

definition must_slug_from_context :: "go_ctx \<Rightarrow> string may_panic" where
  "must_slug_from_context ctx =
     (case slug_from_context ctx of
        None \<Rightarrow> Inl ''tenant: MustSlugFromContext called without tenant in context''
      | Some slug \<Rightarrow> Inr slug)"

lemma slug_of_with_slug [simp]:
  "slug_from_context (context_with_slug ctx slug) = (if slug = [] then None else Some slug)"
  by (simp add: slug_from_context_def context_with_slug_def)

lemma slug_not_empty: "slug_from_context ctx = Some slug \<Longrightarrow> slug \<noteq> []"
  by (auto simp: slug_from_context_def split: option.splits if_splits)

subsection \<open>Claims and logger in the context\<close>

definition context_with_claims :: "go_ctx \<Rightarrow> claims option \<Rightarrow> go_ctx" where
  "context_with_claims ctx c = ctx\<lparr>ctx_claims := c\<rparr>"

definition claims_from_context :: "go_ctx \<Rightarrow> claims option" where
  "claims_from_context ctx = ctx_claims ctx"

text \<open>\<^verbatim>\<open>logger.Get\<close> and \<^verbatim>\<open>logger.With\<close> accept a nil context (\<open>None\<close>); \<open>dflt\<close> is the package's default logger.\<close>

definition logger_get :: "logger option \<Rightarrow> go_ctx option \<Rightarrow> logger option" where
  "logger_get dflt ctx =
     (case ctx of
        None \<Rightarrow> dflt
      | Some c \<Rightarrow> (case ctx_logger c of Some l \<Rightarrow> Some l | None \<Rightarrow> dflt))"

definition logger_with :: "go_ctx option \<Rightarrow> logger option \<Rightarrow> go_ctx" where
  "logger_with ctx l =
     (let c = (case ctx of None \<Rightarrow> ctx_background | Some c \<Rightarrow> c) in c\<lparr>ctx_logger := l\<rparr>)"

lemma logger_get_with: "logger_get dflt (Some (logger_with ctx (Some l))) = Some l"
  by (simp add: logger_get_def logger_with_def Let_def)

lemma logger_with_frame [simp]:
  "slug_from_context (logger_with (Some ctx) l) = slug_from_context ctx"
  "ctx_tenant (logger_with (Some ctx) l) = ctx_tenant ctx"
  "ctx_claims (logger_with (Some ctx) l) = ctx_claims ctx"
  "ctx_err (logger_with (Some ctx) l) = ctx_err ctx"
  "ctx_metadata (logger_with (Some ctx) l) = ctx_metadata ctx"
  by (simp_all add: logger_with_def slug_from_context_def)

lemma context_frame [simp]:
  "ctx_claims (context_with_slug ctx s) = ctx_claims ctx"
  "ctx_tenant (context_with_claims ctx c) = ctx_tenant ctx"
  "ctx_claims (context_with_claims ctx c) = c"
  "slug_from_context (context_with_claims ctx c) = slug_from_context ctx"
  by (simp_all add: context_with_slug_def context_with_claims_def slug_from_context_def)

subsection \<open>Kafka records and headers\<close>

text \<open>Byte slices are lists of bytes, as strings are; a conversion between them is the identity.\<close>

datatype record_header = RecordHeader (rh_key: string) (rh_value: string)

record kafka_record =
  rec_topic :: string
  rec_key :: string
  rec_value :: string
  rec_partition :: int
  rec_offset :: int
  rec_headers :: "record_header list"

definition header_key :: string where
  "header_key = ''x-tenant-slug''"

text \<open>A nil map is \<open>None\<close>; writing to one would panic, so the code allocates it first.\<close>

definition save_to_headers ::
  "go_ctx \<Rightarrow> (string, string) go_map option \<Rightarrow> (string, string) go_map option" where
  "save_to_headers ctx headers =
     (case slug_from_context ctx of
        None \<Rightarrow> headers
      | Some slug \<Rightarrow>
          (let headers = (case headers of None \<Rightarrow> [] | Some h \<Rightarrow> h)
           in Some (map_put header_key slug headers)))"

fun context_from_kafka_headers :: "go_ctx \<Rightarrow> record_header list \<Rightarrow> go_ctx" where
  "context_from_kafka_headers ctx [] = ctx"
| "context_from_kafka_headers ctx (h # hs) =
     (if rh_key h = header_key then
        (let slug = rh_value h in if slug \<noteq> [] then context_with_slug ctx slug else ctx)
      else context_from_kafka_headers ctx hs)"

text \<open>The slug a record carries is the value of its first tenant header.\<close>

definition record_slug :: "record_header list \<Rightarrow> string option" where
  "record_slug hs = map_of (map (\<lambda>h. (rh_key h, rh_value h)) hs) header_key"

lemma context_from_kafka_headers_eq:
  "context_from_kafka_headers ctx hs =
     (case record_slug hs of
        None \<Rightarrow> ctx
      | Some slug \<Rightarrow> if slug = [] then ctx else context_with_slug ctx slug)"
  by (induction hs) (auto simp: record_slug_def Let_def split: option.splits)

subsection \<open>Collections\<close>

text \<open>A collection handle is the database's name and the collection's name.\<close>

type_synonym collection = "string \<times> string"

definition static_collection :: "collection \<Rightarrow> go_ctx \<Rightarrow> collection may_panic" where
  "static_collection coll ctx = Inr coll"

definition tenant_database :: "string \<Rightarrow> string \<Rightarrow> string" where
  "tenant_database base slug = base @ ''_'' @ slug"

definition multi_tenant_collection :: "string \<Rightarrow> string \<Rightarrow> go_ctx \<Rightarrow> collection may_panic" where
  "multi_tenant_collection base coll ctx =
     and_then (must_slug_from_context ctx) (\<lambda>tenant. Inr (tenant_database base tenant, coll))"

lemma tenant_database_inj: "tenant_database base s = tenant_database base s' \<longleftrightarrow> s = s'"
  by (simp add: tenant_database_def)

lemma multi_tenant_collection_eq:
  "multi_tenant_collection base coll ctx =
     (case slug_from_context ctx of
        None \<Rightarrow> Inl ''tenant: MustSlugFromContext called without tenant in context''
      | Some slug \<Rightarrow> Inr (tenant_database base slug, coll))"
  by (simp add: multi_tenant_collection_def must_slug_from_context_def split: option.splits)

end
