(* ===== verification/Readiness.thy ===== *)
theory Readiness
  imports Request_Context
begin

section \<open>Readiness (pkg/core/health and pkg/http/health)\<close>

text \<open>
  \<^verbatim>\<open>readiness.go\<close>: components register and later mark themselves ready; when all registered
  components are ready a channel is closed once, and in Kubernetes mode the first successful
  probe closes a second one. \<^verbatim>\<open>handler.go\<close>: the two HTTP probes. Every method runs under the
  mutex, so a method is one step of the state, except \<^verbatim>\<open>MarkTrafficReady\<close>, whose check and
  whose \<^verbatim>\<open>Once.Do\<close> are two steps; \<open>now\<close> is what \<^verbatim>\<open>time.Now()\<close> returns. The zero \<^verbatim>\<open>time.Time\<close> is \<open>None\<close>. Logging is left out.
\<close>

subsection \<open>State\<close>

record component =
  comp_name :: string
  comp_ready :: bool
  comp_started :: "time option"
  comp_readyAt :: "time option"

record readiness =
  components :: "(string, component) go_map"
  ready_closed :: bool
  ready_once :: bool
  k8s_closed :: bool
  k8s_once :: bool
  k8s_notifiedAt :: "time option"
  in_kubernetes :: bool

definition new_readiness :: "bool \<Rightarrow> readiness" where
  "new_readiness isKubernetes = \<lparr>components = [], ready_closed = False, ready_once = False,
     k8s_closed = False, k8s_once = False, k8s_notifiedAt = None, in_kubernetes = isKubernetes\<rparr>"

subsection \<open>Operations\<close>

text \<open>
  \<^verbatim>\<open>AddComponent\<close> returns a closure: \<open>Marker name\<close> marks the component ready, \<open>No_marker\<close> does
  nothing (a second registration of a name).
\<close>

datatype marker = Marker string | No_marker

definition add_component :: "time \<Rightarrow> string \<Rightarrow> readiness \<Rightarrow> (marker \<times> readiness) may_panic" where
  [step_defs]: "add_component now name r =
     (if name = [] then Inl ''readiness: component name cannot be empty''
      else if map_of (components r) name \<noteq> None then Inr (No_marker, r)
      else Inr (Marker name, r\<lparr>components := map_put name
             \<lparr>comp_name = name, comp_ready = False, comp_started = Some now, comp_readyAt = None\<rparr>
             (components r)\<rparr>))"

definition all_ready :: "readiness \<Rightarrow> bool" where
  "all_ready r \<longleftrightarrow> components r \<noteq> [] \<and> list_all (\<lambda>(n, c). comp_ready c) (components r)"

text \<open>\<^verbatim>\<open>r.readyOnce.Do(func() { close(r.readyChan); ... })\<close>.\<close>

definition close_ready_once :: "readiness \<Rightarrow> readiness may_panic" where
  [step_defs]: "close_ready_once r =
     (if ready_once r then Inr r
      else and_then (close_chan (ready_closed r))
             (\<lambda>b. Inr (r\<lparr>ready_closed := b, ready_once := True\<rparr>)))"

fun mark_ready :: "time \<Rightarrow> marker \<Rightarrow> readiness \<Rightarrow> readiness may_panic" where
  "mark_ready now No_marker r = Inr r"
| "mark_ready now (Marker name) r =
     (case map_of (components r) name of
        None \<Rightarrow> Inl ''nil pointer dereference''
      | Some cp \<Rightarrow>
          if comp_ready cp then Inr r
          else
            (let cp' = cp\<lparr>comp_ready := True, comp_readyAt := Some now\<rparr>;
                 r' = r\<lparr>components := map_put name cp' (components r)\<rparr>
             in if all_ready r' then close_ready_once r' else Inr r'))"

definition is_ready :: "readiness \<Rightarrow> bool" where
  "is_ready r = ready_closed r"

text \<open>\<^verbatim>\<open>t.After(u)\<close> for a time that may be zero; the zero time is before every clock reading.\<close>

fun time_after :: "time option \<Rightarrow> time option \<Rightarrow> bool" where
  "time_after None u = False"
| "time_after (Some t) None = True"
| "time_after (Some t) (Some u) = (u < t)"

record component_status =
  cs_name :: string
  cs_ready :: bool
  cs_started :: "time option"
  cs_readyAt :: "time option"

record readiness_status =
  st_ready :: bool
  st_components :: "component_status list"
  st_readyAt :: "time option"
  st_k8s_notifiedAt :: "time option"

definition status_of :: "component \<Rightarrow> component_status" where
  "status_of c = \<lparr>cs_name = comp_name c, cs_ready = comp_ready c, cs_started = comp_started c,
     cs_readyAt = comp_readyAt c\<rparr>"

definition later_ready :: "string \<times> component \<Rightarrow> time option \<Rightarrow> time option" where
  "later_ready e acc = (if time_after (comp_readyAt (snd e)) acc then comp_readyAt (snd e) else acc)"

definition get_status :: "readiness \<Rightarrow> readiness_status" where
  "get_status r =
     (let ready = is_ready r;
          readyAt = (if ready \<and> components r \<noteq> []
                     then fold later_ready (components r) None
                     else None)
      in \<lparr>st_ready = ready,
          st_components = sort_key cs_name (map (\<lambda>(n, c). status_of c) (components r)),
          st_readyAt = readyAt,
          st_k8s_notifiedAt = k8s_notifiedAt r\<rparr>)"

text \<open>
  \<^verbatim>\<open>WaitReady\<close> selects on the ready channel and the context: \<open>None\<close> while it blocks,
  \<open>Some None\<close> for a nil error, \<open>Some (Some e)\<close> for \<^verbatim>\<open>ctx.Err()\<close>.
\<close>

definition wait_ready :: "nat \<Rightarrow> go_ctx \<Rightarrow> readiness \<Rightarrow> go_error option option" where
  "wait_ready pick ctx r = go_select pick [(ready_closed r, None), (ctx_done ctx, ctx_err ctx)]"

text \<open>
  \<^verbatim>\<open>WaitForTrafficReady\<close> waits twice; \<open>r\<^sub>1, ctx\<^sub>1\<close> is what the first wait sees when it returns and
  \<open>r\<^sub>2, ctx\<^sub>2\<close> what the second sees.
\<close>

definition wait_for_traffic_ready ::
  "nat \<Rightarrow> go_ctx \<Rightarrow> readiness \<Rightarrow> nat \<Rightarrow> go_ctx \<Rightarrow> readiness \<Rightarrow> go_error option option" where
  "wait_for_traffic_ready pick\<^sub>1 ctx\<^sub>1 r\<^sub>1 pick\<^sub>2 ctx\<^sub>2 r\<^sub>2 =
     (case wait_ready pick\<^sub>1 ctx\<^sub>1 r\<^sub>1 of
        None \<Rightarrow> None
      | Some (Some e) \<Rightarrow> Some (Some e)
      | Some None \<Rightarrow>
          if \<not> in_kubernetes r\<^sub>1 then Some None
          else go_select pick\<^sub>2 [(k8s_closed r\<^sub>2, None), (ctx_done ctx\<^sub>2, ctx_err ctx\<^sub>2)])"

text \<open>
  \<^verbatim>\<open>MarkTrafficReady\<close> holds no lock across its two checks and the \<^verbatim>\<open>Once.Do\<close>, so several
  goroutines may pass the checks before one of them closes the channel.
\<close>

definition traffic_check :: "readiness \<Rightarrow> bool" where
  "traffic_check r = (if \<not> is_ready r then False else if k8s_closed r then False else True)"

definition traffic_commit :: "time \<Rightarrow> readiness \<Rightarrow> readiness may_panic" where
  [step_defs]: "traffic_commit now r =
     (if k8s_once r then Inr r
      else and_then (close_chan (k8s_closed r))
             (\<lambda>b. Inr (r\<lparr>k8s_notifiedAt := Some now, k8s_closed := b, k8s_once := True\<rparr>)))"

definition mark_traffic_ready :: "time \<Rightarrow> readiness \<Rightarrow> readiness may_panic" where
  [step_defs]: "mark_traffic_ready now r = (if traffic_check r then traffic_commit now r else Inr r)"

subsection \<open>The HTTP probes\<close>

record probe_request =
  query_format :: string
  header_accept :: string

datatype probe_body = Status_json readiness_status | Plain_text string

record probe_response =
  resp_status :: nat
  resp_content_type :: "string option"
  resp_body :: probe_body

definition probe_is_ready :: "time \<Rightarrow> probe_request \<Rightarrow> readiness \<Rightarrow> (probe_response \<times> readiness) may_panic" where
  [step_defs]: "probe_is_ready now req r =
     (if query_format req = ''json'' \<or> header_accept req = ''application/json'' then
        (let status = get_status r
         in Inr (\<lparr>resp_status = (if st_ready status then 200 else 503),
                  resp_content_type = Some ''application/json'',
                  resp_body = Status_json status\<rparr>, r))
      else if is_ready r then
        and_then (mark_traffic_ready now r)
          (\<lambda>r'. Inr (\<lparr>resp_status = 200, resp_content_type = None, resp_body = Plain_text ''ready''\<rparr>, r'))
      else Inr (\<lparr>resp_status = 503, resp_content_type = None, resp_body = Plain_text ''not ready''\<rparr>, r))"

definition probe_is_live :: "readiness \<Rightarrow> probe_response \<times> readiness" where
  "probe_is_live r =
     (\<lparr>resp_status = 200, resp_content_type = None, resp_body = Plain_text ''alive''\<rparr>, r)"

subsection \<open>Reachable states\<close>

text \<open>
  Any number of goroutines register components, call the returned closures (\<open>ms\<close>: those handed
  out so far), and mark traffic ready (\<open>k\<close>: how many are past the checks and about to enter
  \<^verbatim>\<open>Once.Do\<close>).
\<close>

inductive readiness_reach :: "bool \<Rightarrow> readiness \<Rightarrow> marker list \<Rightarrow> nat \<Rightarrow> bool" for kube where
  start: "readiness_reach kube (new_readiness kube) [] 0"
| add: "readiness_reach kube r ms k \<Longrightarrow> add_component now name r = Inr (m, r') \<Longrightarrow>
    readiness_reach kube r' (m # ms) k"
| mark: "readiness_reach kube r ms k \<Longrightarrow> m \<in> set ms \<Longrightarrow> mark_ready now m r = Inr r' \<Longrightarrow>
    readiness_reach kube r' ms k"
| check: "readiness_reach kube r ms k \<Longrightarrow> traffic_check r \<Longrightarrow> readiness_reach kube r ms (Suc k)"
| commit: "readiness_reach kube r ms (Suc k) \<Longrightarrow> traffic_commit now r = Inr r' \<Longrightarrow>
    readiness_reach kube r' ms k"

definition readiness_inv :: "readiness \<Rightarrow> bool" where
  "readiness_inv r \<longleftrightarrow>
     distinct (map_keys (components r)) \<and>
     (\<forall>(n, c) \<in> set (components r). comp_name c = n \<and> n \<noteq> []
        \<and> (comp_ready c \<longleftrightarrow> comp_readyAt c \<noteq> None)) \<and>
     (ready_once r \<longleftrightarrow> ready_closed r) \<and> (k8s_once r \<longleftrightarrow> k8s_closed r) \<and>
     (k8s_closed r \<longleftrightarrow> k8s_notifiedAt r \<noteq> None) \<and> (k8s_closed r \<longrightarrow> ready_closed r) \<and>
     (all_ready r \<longrightarrow> ready_closed r)"

definition markers_known :: "readiness \<Rightarrow> marker list \<Rightarrow> bool" where
  "markers_known r ms \<longleftrightarrow> (\<forall>n. Marker n \<in> set ms \<longrightarrow> n \<in> fst ` set (components r))"

lemma markers_knownD:
  "markers_known r ms \<Longrightarrow> Marker n \<in> set ms \<Longrightarrow> \<exists>c. map_of (components r) n = Some c"
  by (metis markers_known_def map_of_eq_None_iff not_None_eq)

lemma readiness_inv_new: "readiness_inv (new_readiness kube)"
  by (simp add: readiness_inv_def new_readiness_def all_ready_def)

lemma all_ready_put:
  assumes "distinct (map_keys m)"
  shows "list_all (\<lambda>(n, c). comp_ready c) (map_put k v m)
    \<longleftrightarrow> comp_ready v \<and> (\<forall>(n, c) \<in> set m. n \<noteq> k \<longrightarrow> comp_ready c)"
  using assms by (auto simp: list_all_iff set_map_put)

lemma add_component_cases:
  assumes "add_component now name r = Inr (m, r')"
  obtains "r' = r" and "m = No_marker"
  | "name \<noteq> []" and "map_of (components r) name = None" and "m = Marker name"
    and "r' = r\<lparr>components := map_put name \<lparr>comp_name = name, comp_ready = False,
           comp_started = Some now, comp_readyAt = None\<rparr> (components r)\<rparr>"
  using assms unfolding add_component_def
  by (cases "name = []"; cases "map_of (components r) name") auto

lemma add_component_inv:
  assumes inv: "readiness_inv r" and add: "add_component now name r = Inr (m, r')"
  shows "readiness_inv r'"
  using add
proof (cases rule: add_component_cases)
  case 2
  have dist: "distinct (map_keys (components r))" using inv by (simp add: readiness_inv_def)
  have "\<not> all_ready r'" using 2 by (simp add: all_ready_def all_ready_put [OF dist])
  with inv dist 2(1,4) show ?thesis
    by (simp add: readiness_inv_def set_map_put)
qed (use inv in simp)

lemma close_ready_once_eq:
  "readiness_inv r \<or> (ready_once r \<longleftrightarrow> ready_closed r) \<Longrightarrow>
   close_ready_once r = Inr (r\<lparr>ready_closed := True, ready_once := True\<rparr>)"
  by (cases r) (auto simp: close_ready_once_def close_chan_def readiness_inv_def)

text \<open>The whole effect of a marker on a reachable state: it never panics, and it closes the channel
  exactly when the last component becomes ready.\<close>

lemma mark_ready_total:
  assumes inv: "readiness_inv r" and known: "map_of (components r) name = Some c"
  shows "\<exists>r'. mark_ready now (Marker name) r = Inr r' \<and> readiness_inv r' \<and>
    (ready_closed r' \<longleftrightarrow> ready_closed r \<or> all_ready r') \<and>
    fst ` set (components r') = fst ` set (components r) \<and>
    (\<forall>n. n \<noteq> name \<longrightarrow> map_of (components r') n = map_of (components r) n) \<and>
    k8s_closed r' = k8s_closed r \<and> in_kubernetes r' = in_kubernetes r"
proof (cases "comp_ready c")
  case True
  then show ?thesis using assms by (auto simp: readiness_inv_def)
next
  case False
  let ?c = "c\<lparr>comp_ready := True, comp_readyAt := Some now\<rparr>"
  let ?r = "r\<lparr>components := map_put name ?c (components r)\<rparr>"
  have dist: "distinct (map_keys (components r))" using inv by (simp add: readiness_inv_def)
  have mem: "(name, c) \<in> set (components r)" using known by (rule map_of_SomeD)
  then have keys: "insert name (fst ` set (components r)) = fst ` set (components r)" by force
  have entries: "\<forall>(n, d) \<in> set (components ?r). comp_name d = n \<and> n \<noteq> []
      \<and> (comp_ready d \<longleftrightarrow> comp_readyAt d \<noteq> None)"
    using inv mem by (auto simp: readiness_inv_def set_map_put [OF dist])
  show ?thesis
  proof (cases "all_ready ?r")
    case True
    let ?r' = "?r\<lparr>ready_closed := True, ready_once := True\<rparr>"
    have "mark_ready now (Marker name) r = Inr ?r'"
      using known False True inv by (simp add: close_ready_once_eq readiness_inv_def)
    moreover have "readiness_inv ?r'" using inv entries dist
      by (auto simp: readiness_inv_def all_ready_def)
    moreover have "all_ready ?r'" using True by (simp add: all_ready_def)
    ultimately show ?thesis using keys by auto
  next
    case nr: False
    have "mark_ready now (Marker name) r = Inr ?r" using known False nr by simp
    moreover have "readiness_inv ?r" using inv entries dist nr by (auto simp: readiness_inv_def)
    ultimately show ?thesis using keys nr by auto
  qed
qed

lemma traffic_commit_eq:
  "readiness_inv r \<Longrightarrow> traffic_commit now r =
     Inr (if k8s_closed r then r else r\<lparr>k8s_notifiedAt := Some now, k8s_closed := True, k8s_once := True\<rparr>)"
  by (auto simp: traffic_commit_def close_chan_def readiness_inv_def)

lemma traffic_commit_inv:
  "readiness_inv r \<Longrightarrow> is_ready r \<Longrightarrow> traffic_commit now r = Inr r' \<Longrightarrow> readiness_inv r' \<and> is_ready r'"
  by (auto simp: traffic_commit_eq readiness_inv_def is_ready_def all_ready_def split: if_splits)

lemma readiness_reach_inv:
  "readiness_reach kube r ms k \<Longrightarrow>
     readiness_inv r \<and> markers_known r ms \<and> (0 < k \<longrightarrow> is_ready r) \<and> in_kubernetes r = kube"
proof (induction rule: readiness_reach.induct)
  case start
  show ?case using readiness_inv_new [of kube] by (simp add: markers_known_def) (simp add: new_readiness_def)
next
  case (add r ms k now name m r')
  then have "readiness_inv r'" by (blast intro: add_component_inv)
  moreover have "markers_known r' (m # ms) \<and> is_ready r' = is_ready r \<and> in_kubernetes r' = in_kubernetes r"
    using add(2) add.IH by (cases rule: add_component_cases) (auto simp: markers_known_def is_ready_def)
  ultimately show ?case using add.IH by simp
next
  case (mark r ms k m now r')
  show ?case
  proof (cases m)
    case (Marker name)
    then obtain c where c: "map_of (components r) name = Some c"
      using mark.hyps(2) mark.IH markers_knownD by blast
    have "readiness_inv r' \<and> fst ` set (components r') = fst ` set (components r)
        \<and> (is_ready r \<longrightarrow> is_ready r') \<and> in_kubernetes r' = in_kubernetes r"
      using mark_ready_total [of r name c now] mark.IH c mark.hyps(3) Marker
      unfolding is_ready_def by force
    with mark.IH show ?thesis by (simp add: markers_known_def)
  qed (use mark in simp)
next
  case (check r ms k)
  then show ?case by (auto simp: traffic_check_def split: if_splits)
next
  case (commit r ms k now r')
  then show ?case
    using traffic_commit_inv [of r now r']
    by (auto simp: traffic_commit_eq markers_known_def split: if_splits)
qed

lemma readiness_monotone:
  assumes "readiness_inv r"
  shows "add_component now name r = Inr (m, r') \<Longrightarrow> is_ready r \<Longrightarrow> is_ready r'"
    and "mark_ready now m r = Inr r' \<Longrightarrow> is_ready r \<Longrightarrow> is_ready r'"
    and "traffic_commit now r = Inr r' \<Longrightarrow> is_ready r \<Longrightarrow> is_ready r'"
proof -
  show "add_component now name r = Inr (m, r') \<Longrightarrow> is_ready r \<Longrightarrow> is_ready r'"
    by (auto simp: add_component_def is_ready_def split: if_splits)
  show "traffic_commit now r = Inr r' \<Longrightarrow> is_ready r \<Longrightarrow> is_ready r'"
    using assms by (auto simp: traffic_commit_eq is_ready_def split: if_splits)
  show "is_ready r'" if mk: "mark_ready now m r = Inr r'" and rdy: "is_ready r"
  proof (cases m)
    case (Marker name)
    with mk obtain c where "map_of (components r) name = Some c"
      by (cases "map_of (components r) name") auto
    from mark_ready_total [OF assms this, of now] show ?thesis
      using mk rdy Marker by (auto simp: is_ready_def)
  qed (use mk rdy in auto)
qed

subsection \<open>Status reports\<close>

lemma later_ready_commute: "later_ready d \<circ> later_ready e = later_ready e \<circ> later_ready d"
proof
  fix acc
  show "(later_ready d \<circ> later_ready e) acc = (later_ready e \<circ> later_ready d) acc"
    by (cases "comp_readyAt (snd d)"; cases "comp_readyAt (snd e)"; cases acc) (auto simp: later_ready_def)
qed

lemma status_names:
  assumes "readiness_inv r"
  shows "map cs_name (map (\<lambda>(n, c). status_of c) (components r)) = map_keys (components r)"
  using assms by (auto simp: readiness_inv_def status_of_def)

lemma status_names_inj:
  assumes "readiness_inv r"
  shows "inj_on cs_name (set (map (\<lambda>(n, c). status_of c) (components r)))"
proof -
  have "distinct (map cs_name (map (\<lambda>(n, c). status_of c) (components r)))"
    unfolding status_names [OF assms] using assms by (simp add: readiness_inv_def)
  then show ?thesis by (simp only: distinct_map)
qed

subsection \<open>Properties\<close>

text \<open>
  C14. In every reachable state, whatever the interleaving of registrations, markers and probes, no
  call of \<^verbatim>\<open>readiness.go\<close> panics: no closure handed out by \<^verbatim>\<open>AddComponent\<close> meets a missing component,
  and no channel is closed twice, even with several goroutines inside \<^verbatim>\<open>MarkTrafficReady\<close>.
\<close>

theorem readiness_never_panics:
  assumes "readiness_reach kube r ms k"
  shows "(m \<in> set ms \<longrightarrow> is_ok (mark_ready now m r)) \<and> (0 < k \<longrightarrow> is_ok (traffic_commit now r))
    \<and> is_ok (mark_traffic_ready now r) \<and> is_ok (probe_is_ready now req r)"
proof -
  from assms have inv: "readiness_inv r" and known: "markers_known r ms"
    by (simp_all add: readiness_reach_inv)
  have commit: "is_ok (traffic_commit now r)" using inv by (simp add: traffic_commit_eq)
  have "is_ok (mark_ready now m r)" if "m \<in> set ms"
  proof (cases m)
    case (Marker name)
    with that known obtain c where "map_of (components r) name = Some c"
      by (blast dest: markers_knownD)
    from mark_ready_total [OF inv this, of now] show ?thesis by (auto simp: is_ok_iff Marker)
  qed simp
  moreover from commit have "is_ok (mark_traffic_ready now r)" by (simp add: mark_traffic_ready_def)
  moreover from this have "is_ok (probe_is_ready now req r)"
    by (cases "mark_traffic_ready now r") (auto simp: probe_is_ready_def Let_def)
  ultimately show ?thesis using commit by simp
qed

definition demo_ready :: readiness where
  "demo_ready = (new_readiness True)\<lparr>components := [(''db'', \<lparr>comp_name = ''db'', comp_ready = False,
     comp_started = Some 1, comp_readyAt = None\<rparr>)]\<rparr>"

lemma demo_ready_reach: "readiness_reach True demo_ready [Marker ''db''] 0"
  by (rule readiness_reach.add [OF readiness_reach.start, of 1 "''db''"])
    (simp add: add_component_def demo_ready_def new_readiness_def)

theorem readiness_never_panics_witness: "is_ok (mark_ready 2 (Marker ''db'') demo_ready)"
  using readiness_never_panics [OF demo_ready_reach, of "Marker ''db''" 2 "\<lparr>query_format = [], header_accept = []\<rparr>"]
  by simp

text \<open>
  Readiness is a latch that agrees with the components. In every reachable state, if all
  registered components are ready then \<^verbatim>\<open>IsReady\<close> holds; the Kubernetes channel is closed only when
  \<^verbatim>\<open>IsReady\<close> holds; a marker's call makes \<^verbatim>\<open>IsReady\<close> true exactly when it held before or its component
  was the last one missing; and no operation makes it false again.
\<close>

theorem readiness_latch:
  assumes "readiness_reach kube r ms k"
  shows "(all_ready r \<longrightarrow> is_ready r) \<and> (k8s_closed r \<longrightarrow> is_ready r)
    \<and> (Marker n \<in> set ms \<longrightarrow> mark_ready now (Marker n) r = Inr r1 \<longrightarrow>
         (is_ready r1 \<longleftrightarrow> is_ready r \<or> all_ready r1))
    \<and> (is_ready r \<longrightarrow> add_component now name r = Inr (m, r2) \<longrightarrow> is_ready r2)
    \<and> (is_ready r \<longrightarrow> traffic_commit now r = Inr r3 \<longrightarrow> is_ready r3)"
proof -
  from assms have inv: "readiness_inv r" and known: "markers_known r ms"
    by (simp_all add: readiness_reach_inv)
  have "is_ready r1 \<longleftrightarrow> is_ready r \<or> all_ready r1"
    if "Marker n \<in> set ms" and mk: "mark_ready now (Marker n) r = Inr r1"
  proof -
    from markers_knownD [OF known that(1)] obtain c where "map_of (components r) n = Some c" by blast
    from mark_ready_total [OF inv this, of now] mk show ?thesis unfolding is_ready_def by force
  qed
  moreover have "all_ready r \<longrightarrow> is_ready r" "k8s_closed r \<longrightarrow> is_ready r"
    using inv by (simp_all add: readiness_inv_def is_ready_def)
  ultimately show ?thesis using readiness_monotone [OF inv] by blast
qed

theorem readiness_latch_witness:
  "\<exists>r1. mark_ready 2 (Marker ''db'') demo_ready = Inr r1 \<and> all_ready r1 \<and> is_ready r1"
proof -
  obtain r1 where r1: "mark_ready 2 (Marker ''db'') demo_ready = Inr r1" and all: "all_ready r1"
    by (simp add: demo_ready_def new_readiness_def Let_def all_ready_def close_ready_once_def close_chan_def)
  moreover have "is_ready r1"
    using readiness_latch [OF demo_ready_reach, of "''db''" 2 r1 "[]" No_marker r1 r1] r1 all by simp
  ultimately show ?thesis by blast
qed

text \<open>
  The status report does not depend on the iteration order of the component map: for every
  other order of the entries of a reachable state it is the same report, with the components sorted
  by name and each listed once.
\<close>

theorem get_status_order_independent:
  assumes "readiness_reach kube r ms k" and "mset cs = mset (components r)"
  shows "get_status (r\<lparr>components := cs\<rparr>) = get_status r
    \<and> sorted (map cs_name (st_components (get_status r)))
    \<and> mset (map cs_name (st_components (get_status r))) = mset (map_keys (components r))"
proof -
  from assms(1) have inv: "readiness_inv r" by (simp add: readiness_reach_inv)
  have latest: "fold later_ready cs = fold later_ready (components r)"
    using assms(2) by (intro fold_multiset_equiv) (auto simp: later_ready_commute)
  have sorted: "sort_key cs_name (map (\<lambda>(n, c). status_of c) (components r))
      = sort_key cs_name (map (\<lambda>(n, c). status_of c) cs)"
    using assms(2) by (intro sort_key_eq_sort_key status_names_inj [OF inv]) simp
  have "cs = [] \<longleftrightarrow> components r = []"
    using assms(2) by (metis mset_zero_iff)
  with latest sorted have same: "get_status (r\<lparr>components := cs\<rparr>) = get_status r"
    by (simp add: get_status_def Let_def is_ready_def)
  have "mset (map cs_name (st_components (get_status r))) =
      image_mset cs_name (mset (map (\<lambda>(n, c). status_of c) (components r)))"
    by (simp add: get_status_def Let_def)
  also have "\<dots> = mset (map_keys (components r))"
    by (simp only: mset_map [symmetric] status_names [OF inv])
  finally have names: "mset (map cs_name (st_components (get_status r))) = mset (map_keys (components r))" .
  have "sorted (map cs_name (st_components (get_status r)))"
    by (simp add: get_status_def Let_def)
  with same names show ?thesis by simp
qed

theorem get_status_order_independent_witness:
  "get_status (demo_ready\<lparr>components := rev (components demo_ready)\<rparr>) = get_status demo_ready"
  using get_status_order_independent [OF demo_ready_reach, of "rev (components demo_ready)"] by simp

text \<open>
  \<^verbatim>\<open>WaitForTrafficReady\<close> is correct under every choice of the runtime's selects: it returns nil only
  after the ready channel closed and, in Kubernetes mode, the probe's channel closed; it returns a
  non-nil error only if its context was done; and with the context done it does not block.
\<close>

theorem wait_for_traffic_ready_correct:
  "(wait_for_traffic_ready p1 ctx1 r1 p2 ctx2 r2 = Some None \<longrightarrow>
      is_ready r1 \<and> (in_kubernetes r1 \<longrightarrow> k8s_closed r2))
   \<and> (wait_for_traffic_ready p1 ctx1 r1 p2 ctx2 r2 = Some (Some e) \<longrightarrow>
        ctx_err ctx1 = Some e \<or> ctx_err ctx2 = Some e)
   \<and> (ctx_done ctx1 \<longrightarrow> ctx_done ctx2 \<longrightarrow> wait_for_traffic_ready p1 ctx1 r1 p2 ctx2 r2 \<noteq> None)"
proof -
  have first: "wait_ready p1 ctx1 r1 = Some x \<Longrightarrow> (ready_closed r1 \<and> x = None) \<or> (ctx_done ctx1 \<and> x = ctx_err ctx1)" for x
    unfolding wait_ready_def by (drule go_select_ready) auto
  have second: "go_select p2 [(k8s_closed r2, None), (ctx_done ctx2, ctx_err ctx2)] = Some x \<Longrightarrow>
      (k8s_closed r2 \<and> x = None) \<or> (ctx_done ctx2 \<and> x = ctx_err ctx2)" for x
    by (drule go_select_ready) auto
  have "ctx_done ctx1 \<longrightarrow> wait_ready p1 ctx1 r1 \<noteq> None"
    and "ctx_done ctx2 \<longrightarrow> go_select p2 [(k8s_closed r2, None), (ctx_done ctx2, ctx_err ctx2)] \<noteq> None"
    by (simp_all add: wait_ready_def go_select_blocks)
  with first second show ?thesis
    by (auto simp: wait_for_traffic_ready_def is_ready_def split: option.splits if_splits)
qed

theorem wait_for_traffic_ready_witness:
  "wait_for_traffic_ready 0 ctx_background (demo_ready\<lparr>ready_closed := True\<rparr>) 0
     (ctx_background\<lparr>ctx_err := Some (Sentinel ContextCanceled)\<rparr>) demo_ready
   = Some (Some (Sentinel ContextCanceled))
   \<and> ctx_err (ctx_background\<lparr>ctx_err := Some (Sentinel ContextCanceled)\<rparr>) = Some (Sentinel ContextCanceled)"
proof -
  let ?c = "ctx_background\<lparr>ctx_err := Some (Sentinel ContextCanceled)\<rparr>"
  have "wait_for_traffic_ready 0 ctx_background (demo_ready\<lparr>ready_closed := True\<rparr>) 0 ?c demo_ready
      = Some (Some (Sentinel ContextCanceled))"
    by (simp add: wait_for_traffic_ready_def wait_ready_def go_select_def ctx_background_def
        demo_ready_def new_readiness_def)
  with wait_for_traffic_ready_correct
    [of 0 ctx_background "demo_ready\<lparr>ready_closed := True\<rparr>" 0 ?c demo_ready "Sentinel ContextCanceled"]
  show ?thesis by (simp add: ctx_background_def)
qed

text \<open>
  The probes. The plain probe answers 200 exactly when all components have become ready, and once it
  has answered 200 the Kubernetes channel is closed, so a worker waiting for traffic is released; the
  detailed JSON probe reports the same status code and changes nothing; repeating the plain probe
  changes nothing more.
\<close>

theorem probe_is_ready_correct:
  assumes "readiness_reach kube r ms k" and "probe_is_ready now req r = Inr (resp, r')"
  shows "(resp_status resp = 200 \<longleftrightarrow> is_ready r) \<and> is_ready r' = is_ready r
    \<and> (if query_format req = ''json'' \<or> header_accept req = ''application/json'' then r' = r
       else (is_ready r \<longrightarrow> k8s_closed r')
         \<and> (\<forall>now2. probe_is_ready now2 req r' = Inr (resp, r')))"
proof -
  from assms(1) have inv: "readiness_inv r" by (simp add: readiness_reach_inv)
  show ?thesis using assms(2) inv
    by (auto simp: probe_is_ready_def Let_def get_status_def mark_traffic_ready_def traffic_commit_eq
        traffic_check_def is_ready_def split: if_splits)
qed

theorem probe_is_ready_correct_witness:
  "\<exists>resp. probe_is_ready 5 \<lparr>query_format = [], header_accept = []\<rparr> demo_ready = Inr (resp, demo_ready)
     \<and> resp_status resp \<noteq> 200"
proof -
  let ?req = "\<lparr>query_format = [], header_accept = []\<rparr>"
  let ?resp = "\<lparr>resp_status = 503, resp_content_type = None, resp_body = Plain_text ''not ready''\<rparr>"
  have p: "probe_is_ready 5 ?req demo_ready = Inr (?resp, demo_ready)"
    by (simp add: probe_is_ready_def is_ready_def demo_ready_def new_readiness_def)
  show ?thesis using p probe_is_ready_correct [OF demo_ready_reach p]
    by (auto simp: is_ready_def demo_ready_def new_readiness_def)
qed

text \<open>
  A component registered after the others became ready is not waited for: \<^verbatim>\<open>IsReady\<close> stays true while it
  is not ready.
\<close>

theorem late_component_not_awaited:
  "\<exists>r ms. readiness_reach True r ms 0 \<and> is_ready r \<and> \<not> all_ready r"
proof -
  have "\<exists>r1. mark_ready 2 (Marker ''db'') demo_ready = Inr r1 \<and> is_ready r1 \<and>
      map_of (components r1) ''late'' = None"
    by (simp add: demo_ready_def new_readiness_def Let_def all_ready_def close_ready_once_def
        close_chan_def is_ready_def)
  then obtain r1 where r1: "mark_ready 2 (Marker ''db'') demo_ready = Inr r1" "is_ready r1"
      "map_of (components r1) ''late'' = None" by blast
  have reach1: "readiness_reach True r1 [Marker ''db''] 0"
    by (rule readiness_reach.mark [OF demo_ready_reach _ r1(1)]) simp
  then have inv1: "readiness_inv r1" by (simp add: readiness_reach_inv)
  obtain m r2 where add: "add_component 3 ''late'' r1 = Inr (m, r2)"
    using r1(3) by (simp add: add_component_def)
  have dist: "distinct (map_keys (components r1))" using inv1 by (simp add: readiness_inv_def)
  from add have "is_ready r2 \<and> \<not> all_ready r2"
  proof (cases rule: add_component_cases)
    case 1
    then show ?thesis using add r1(3) by (simp add: add_component_def)
  qed (use r1(2) in \<open>simp add: is_ready_def all_ready_def all_ready_put [OF dist]\<close>)
  moreover from reach1 add have "readiness_reach True r2 [m, Marker ''db''] 0"
    by (rule readiness_reach.add)
  ultimately show ?thesis by blast
qed

end
