(* ===== verification/Worker.thy ===== *)
theory Worker
  imports Readiness
begin

section \<open>Background workers (pkg/core/worker)\<close>

text \<open>
  \<^verbatim>\<open>worker.go\<close>: a worker waits for readiness and then for traffic readiness (each if its option
  asks for it), runs its function once, and on an error asks the application to shut down with
  exit code 1 if configured. \<open>worker_run\<close> is the goroutine's body as a function of what its calls
  return; \<open>worker_step\<close> is the worker with \<^verbatim>\<open>Start\<close>, \<^verbatim>\<open>Stop\<close> and the goroutine interleaved, and is
  proved to produce exactly the traces of \<open>worker_run\<close>. Logging is left out.
\<close>

subsection \<open>Options\<close>

record worker_options =
  wait_for_traffic :: bool
  wait_for_ready :: bool
  shutdown_on_error :: bool

definition with_traffic_ready :: "worker_options \<Rightarrow> worker_options" where
  "with_traffic_ready o1 = o1\<lparr>wait_for_traffic := True\<rparr>"

definition with_ready :: "worker_options \<Rightarrow> worker_options" where
  "with_ready o1 = o1\<lparr>wait_for_ready := True\<rparr>"

definition with_shutdown :: "worker_options \<Rightarrow> worker_options" where
  "with_shutdown o1 = o1\<lparr>shutdown_on_error := True\<rparr>"

text \<open>\<^verbatim>\<open>RunWorker\<close> applies its options in order to the zero value.\<close>

definition run_worker_options :: "(worker_options \<Rightarrow> worker_options) list \<Rightarrow> worker_options" where
  "run_worker_options opts = fold (\<lambda>opt o1. opt o1) opts
     \<lparr>wait_for_traffic = False, wait_for_ready = False, shutdown_on_error = False\<rparr>"

subsection \<open>The goroutine\<close>

text \<open>
  The observable calls, with their results. \<^verbatim>\<open>Shutdown\<close>'s own error is only logged.
\<close>

datatype worker_event =
    Waited_ready "go_error option"
  | Waited_traffic "go_error option"
  | Ran "go_error option"
  | Shutdown_app int

text \<open>
  \<open>ready\<close>, \<open>traffic\<close> and \<open>work\<close> are what \<^verbatim>\<open>WaitReady\<close>, \<^verbatim>\<open>WaitForTrafficReady\<close> and \<^verbatim>\<open>runFunc\<close> return
  (\<open>None\<close>: never). The result is the trace and whether \<^verbatim>\<open>run\<close> returned.
\<close>

definition worker_on_error :: "worker_options \<Rightarrow> worker_event list" where
  "worker_on_error opts = (if shutdown_on_error opts then [Shutdown_app 1] else [])"

definition worker_work :: "worker_options \<Rightarrow> go_error option option \<Rightarrow> worker_event list \<times> bool" where
  [step_defs]: "worker_work opts work =
     (case work of
        None \<Rightarrow> ([], False)
      | Some None \<Rightarrow> ([Ran None], True)
      | Some (Some e) \<Rightarrow> (Ran (Some e) # worker_on_error opts, True))"

definition worker_traffic ::
  "worker_options \<Rightarrow> go_error option option \<Rightarrow> go_error option option \<Rightarrow> worker_event list \<times> bool" where
  [step_defs]: "worker_traffic opts traffic work =
     (if wait_for_traffic opts then
        (case traffic of
           None \<Rightarrow> ([], False)
         | Some (Some e) \<Rightarrow> ([Waited_traffic (Some e)], True)
         | Some None \<Rightarrow> apfst (Cons (Waited_traffic None)) (worker_work opts work))
      else worker_work opts work)"

definition worker_run ::
  "worker_options \<Rightarrow> go_error option option \<Rightarrow> go_error option option \<Rightarrow> go_error option option
   \<Rightarrow> worker_event list \<times> bool" where
  [step_defs]: "worker_run opts ready traffic work =
     (if wait_for_ready opts then
        (case ready of
           None \<Rightarrow> ([], False)
         | Some (Some e) \<Rightarrow> ([Waited_ready (Some e)], True)
         | Some None \<Rightarrow> apfst (Cons (Waited_ready None)) (worker_traffic opts traffic work))
      else worker_traffic opts traffic work)"

subsection \<open>Start, Stop and the goroutine interleaved\<close>

datatype worker_pc = Not_started | At_ready | At_traffic | At_work | At_error | Finished

datatype stop_state = Not_stopping | Stopping | Stopped_gracefully | Stop_timed_out

text \<open>
  \<open>w_cancel\<close> is \<^verbatim>\<open>cancelFunc\<close> (\<open>None\<close> when nil, else whether it was called); \<open>w_wg\<close> the wait group's
  counter; \<open>w_pc\<close> and \<open>w_trace\<close> where the goroutine is and what it has called.
\<close>

record worker =
  w_options :: worker_options
  w_cancel :: "bool option"
  w_wg :: nat
  w_pc :: worker_pc
  w_trace :: "worker_event list"
  w_stop :: stop_state

definition new_worker :: "worker_options \<Rightarrow> worker" where
  "new_worker opts = \<lparr>w_options = opts, w_cancel = None, w_wg = 0, w_pc = Not_started,
     w_trace = [], w_stop = Not_stopping\<rparr>"

definition next_pc_traffic :: "worker_options \<Rightarrow> worker_pc" where
  [step_defs]: "next_pc_traffic opts = (if wait_for_traffic opts then At_traffic else At_work)"

definition next_pc_ready :: "worker_options \<Rightarrow> worker_pc" where
  [step_defs]: "next_pc_ready opts = (if wait_for_ready opts then At_ready else next_pc_traffic opts)"

text \<open>\<^verbatim>\<open>Start\<close>: the context, \<^verbatim>\<open>wg.Add(1)\<close> and the goroutine. \<^verbatim>\<open>fx\<close> calls it once.\<close>

definition worker_start :: "worker \<Rightarrow> worker" where
  [step_defs]: "worker_start w =
     w\<lparr>w_cancel := Some False, w_wg := w_wg w + 1, w_pc := next_pc_ready (w_options w)\<rparr>"

text \<open>The goroutine moves to \<open>pc\<close> after the event; leaving \<^verbatim>\<open>run\<close> calls \<^verbatim>\<open>wg.Done\<close>.\<close>

definition worker_goto :: "worker_event list \<Rightarrow> worker_pc \<Rightarrow> worker \<Rightarrow> worker" where
  [step_defs]: "worker_goto evs pc w =
     (let w = w\<lparr>w_trace := w_trace w @ evs, w_pc := pc\<rparr>
      in if pc = Finished then w\<lparr>w_wg := w_wg w - 1\<rparr> else w)"

inductive worker_step :: "worker \<Rightarrow> worker \<Rightarrow> bool" where
  start: "w_pc w = Not_started \<Longrightarrow> w_stop w = Not_stopping \<Longrightarrow> worker_step w (worker_start w)"
| ready_ok: "w_pc w = At_ready \<Longrightarrow>
    worker_step w (worker_goto [Waited_ready None] (next_pc_traffic (w_options w)) w)"
| ready_err: "w_pc w = At_ready \<Longrightarrow> w_cancel w = Some True \<Longrightarrow>
    worker_step w (worker_goto [Waited_ready (Some e)] Finished w)"
| traffic_ok: "w_pc w = At_traffic \<Longrightarrow> worker_step w (worker_goto [Waited_traffic None] At_work w)"
| traffic_err: "w_pc w = At_traffic \<Longrightarrow> w_cancel w = Some True \<Longrightarrow>
    worker_step w (worker_goto [Waited_traffic (Some e)] Finished w)"
| work_ok: "w_pc w = At_work \<Longrightarrow> worker_step w (worker_goto [Ran None] Finished w)"
| work_err: "w_pc w = At_work \<Longrightarrow> worker_step w (worker_goto [Ran (Some e)] At_error w)"
| error: "w_pc w = At_error \<Longrightarrow> worker_step w (worker_goto (worker_on_error (w_options w)) Finished w)"
| stop: "w_stop w = Not_stopping \<Longrightarrow>
    worker_step w (w\<lparr>w_cancel := map_option (\<lambda>_. True) (w_cancel w), w_stop := Stopping\<rparr>)"
| stop_done: "w_stop w = Stopping \<Longrightarrow> w_wg w = 0 \<Longrightarrow> worker_step w (w\<lparr>w_stop := Stopped_gracefully\<rparr>)"
| stop_timeout: "w_stop w = Stopping \<Longrightarrow> worker_step w (w\<lparr>w_stop := Stop_timed_out\<rparr>)"

inductive_cases worker_stepE: "worker_step w w'"

inductive worker_reach :: "worker_options \<Rightarrow> worker \<Rightarrow> bool" for opts where
  init: "worker_reach opts (new_worker opts)"
| step: "worker_reach opts w \<Longrightarrow> worker_step w w' \<Longrightarrow> worker_reach opts w'"

subsection \<open>The invariant\<close>

text \<open>
  The events before each program point, and the wait group's counter: 1 exactly while the
  goroutine lives.
\<close>

definition ready_prefix :: "worker_options \<Rightarrow> worker_event list" where
  "ready_prefix opts = (if wait_for_ready opts then [Waited_ready None] else [])"

definition traffic_prefix :: "worker_options \<Rightarrow> worker_event list" where
  "traffic_prefix opts = (if wait_for_traffic opts then [Waited_traffic None] else [])"

lemmas prefix_defs = ready_prefix_def traffic_prefix_def

fun pc_inv :: "worker_pc \<Rightarrow> worker_options \<Rightarrow> worker_event list \<Rightarrow> bool" where
  "pc_inv Not_started opts t = (t = [])"
| "pc_inv At_ready opts t = (t = [] \<and> wait_for_ready opts)"
| "pc_inv At_traffic opts t = (t = ready_prefix opts \<and> wait_for_traffic opts)"
| "pc_inv At_work opts t = (t = ready_prefix opts @ traffic_prefix opts)"
| "pc_inv At_error opts t = (\<exists>e. t = ready_prefix opts @ traffic_prefix opts @ [Ran (Some e)])"
| "pc_inv Finished opts t = (\<exists>ready traffic work. worker_run opts ready traffic work = (t, True))"

definition worker_inv :: "worker_options \<Rightarrow> worker \<Rightarrow> bool" where
  "worker_inv opts w \<longleftrightarrow> w_options w = opts
     \<and> pc_inv (w_pc w) opts (w_trace w)
     \<and> w_wg w = (if w_pc w \<in> {Not_started, Finished} then 0 else 1)
     \<and> (w_cancel w = None \<longleftrightarrow> w_pc w = Not_started)
     \<and> (w_stop w = Stopped_gracefully \<longrightarrow> w_pc w \<in> {Not_started, Finished})"

text \<open>What the function returns at the end of each path of the goroutine.\<close>

lemma run_to_work:
  "worker_run opts (Some None) (Some None) (Some r) =
     (ready_prefix opts @ traffic_prefix opts @ Ran r # (if r = None then [] else worker_on_error opts), True)"
  by (cases r) (simp_all add: step_defs prefix_defs)

lemma run_ready_fails:
  "wait_for_ready opts \<Longrightarrow> worker_run opts (Some (Some e)) traffic work = ([Waited_ready (Some e)], True)"
  by (simp add: worker_run_def)

lemma run_traffic_fails:
  "wait_for_traffic opts \<Longrightarrow>
     worker_run opts (Some None) (Some (Some e)) work = (ready_prefix opts @ [Waited_traffic (Some e)], True)"
  by (simp add: step_defs prefix_defs)

lemma pc_inv_next:
  "pc_inv (next_pc_ready opts) opts []"
  "pc_inv (next_pc_traffic opts) opts (ready_prefix opts)"
  by (simp_all add: step_defs prefix_defs)

lemma next_pc_live:
  "next_pc_traffic opts \<noteq> Not_started" "next_pc_traffic opts \<noteq> Finished"
  "next_pc_ready opts \<noteq> Not_started" "next_pc_ready opts \<noteq> Finished"
  by (simp_all add: step_defs)

lemma worker_inv_step:
  assumes inv: "worker_inv opts w" and step: "worker_step w w'"
  shows "worker_inv opts w'"
proof -
  note goto = worker_inv_def worker_goto_def Let_def
  from step show ?thesis
  proof cases
    case start
    with inv pc_inv_next(1) [of opts] next_pc_live [of opts] show ?thesis
      by (simp add: worker_inv_def worker_start_def)
  next
    case ready_ok
    with inv pc_inv_next(2) [of opts] next_pc_live [of opts] show ?thesis
      by (auto simp: goto ready_prefix_def)
  next
    case (ready_err e)
    with inv run_ready_fails [of opts e] show ?thesis by (simp add: goto) blast
  next
    case traffic_ok
    with inv show ?thesis by (simp add: goto traffic_prefix_def)
  next
    case (traffic_err e)
    with inv run_traffic_fails [of opts e] show ?thesis by (simp add: goto) blast
  next
    case work_ok
    with inv run_to_work [of opts None] show ?thesis by (simp add: goto) metis
  next
    case (work_err e)
    with inv show ?thesis by (simp add: goto)
  next
    case error
    with inv obtain e where "w_trace w = ready_prefix opts @ traffic_prefix opts @ [Ran (Some e)]"
      by (auto simp: worker_inv_def)
    with error inv run_to_work [of opts "Some e"] show ?thesis by (simp add: goto) metis
  qed (use inv in \<open>auto simp: worker_inv_def split: if_splits\<close>)
qed

lemma worker_reach_inv: "worker_reach opts w \<Longrightarrow> worker_inv opts w"
proof (induction rule: worker_reach.induct)
  case init
  show ?case by (simp add: worker_inv_def new_worker_def)
qed (rule worker_inv_step)

subsection \<open>The contract of the readiness waits\<close>

text \<open>
  What a worker relies on of \<^verbatim>\<open>health.ReadinessWaiter\<close>: a wait is a function of the moment it
  returns in; a nil error means the condition was reached, an error is the context's, and a
  cancelled context ends the wait.
\<close>

locale readiness_wait =
  fixes wait :: "'m \<Rightarrow> go_error option option"
    and reached :: "'m \<Rightarrow> bool"
    and failed :: "'m \<Rightarrow> go_error \<Rightarrow> bool"
    and cancelled :: "'m \<Rightarrow> bool"
  assumes wait_nil: "wait m = Some None \<Longrightarrow> reached m"
    and wait_error: "wait m = Some (Some e) \<Longrightarrow> failed m e"
    and wait_cancelled: "cancelled m \<Longrightarrow> wait m \<noteq> None"

locale worker_waits =
  ready: readiness_wait wait\<^sub>1 reached\<^sub>1 failed\<^sub>1 cancelled\<^sub>1
  + traffic: readiness_wait wait\<^sub>2 reached\<^sub>2 failed\<^sub>2 cancelled\<^sub>2
  for wait\<^sub>1 :: "'m \<Rightarrow> go_error option option" and reached\<^sub>1 failed\<^sub>1 cancelled\<^sub>1
    and wait\<^sub>2 :: "'n \<Rightarrow> go_error option option" and reached\<^sub>2 failed\<^sub>2 cancelled\<^sub>2
begin

lemma runs_after_waits:
  assumes "worker_run opts (wait\<^sub>1 m) (wait\<^sub>2 n) work = (t, fin)" and "Ran res \<in> set t"
  shows "(wait_for_ready opts \<longrightarrow> reached\<^sub>1 m) \<and> (wait_for_traffic opts \<longrightarrow> reached\<^sub>2 n)"
  using assms ready.wait_nil [of m] traffic.wait_nil [of n]
  by (auto simp: step_defs split: if_splits option.splits)

text \<open>A cancelled worker always returns, if its function does.\<close>

lemma cancelled_returns:
  assumes "cancelled\<^sub>1 m" and "cancelled\<^sub>2 n" and "work \<noteq> None"
  shows "snd (worker_run opts (wait\<^sub>1 m) (wait\<^sub>2 n) work)"
  using ready.wait_cancelled [OF assms(1)] traffic.wait_cancelled [OF assms(2)] assms(3)
  by (auto simp: step_defs split: option.splits)

end

text \<open>The moments of the two waits of the readiness component.\<close>

definition ready_moment :: "nat \<times> go_ctx \<times> readiness \<Rightarrow> go_error option option" where
  "ready_moment = (\<lambda>(p, ctx, r). wait_ready p ctx r)"

definition traffic_moment ::
  "(nat \<times> go_ctx \<times> readiness) \<times> (nat \<times> go_ctx \<times> readiness) \<Rightarrow> go_error option option" where
  "traffic_moment = (\<lambda>((p\<^sub>1, ctx\<^sub>1, r\<^sub>1), (p\<^sub>2, ctx\<^sub>2, r\<^sub>2)). wait_for_traffic_ready p\<^sub>1 ctx\<^sub>1 r\<^sub>1 p\<^sub>2 ctx\<^sub>2 r\<^sub>2)"

lemma select_two:
  "go_select p [(a, None), (ctx_done ctx, ctx_err ctx)] = Some x \<Longrightarrow> a \<and> x = None \<or> ctx_done ctx \<and> x = ctx_err ctx"
  by (drule go_select_ready) auto

lemmas select_arms = select_two [simplified not_None_eq]

lemma select_with_ready: "\<exists>x. go_select p [(a, u), (True, v)] = Some x"
  by (simp add: go_select_def Let_def)

interpretation readiness_waits: worker_waits
  ready_moment "\<lambda>(p, ctx, r). is_ready r" "\<lambda>(p, ctx, r) e. ctx_err ctx = Some e" "\<lambda>(p, ctx, r). ctx_done ctx"
  traffic_moment "\<lambda>((p\<^sub>1, ctx\<^sub>1, r\<^sub>1), (p\<^sub>2, ctx\<^sub>2, r\<^sub>2)). is_ready r\<^sub>1 \<and> (in_kubernetes r\<^sub>1 \<longrightarrow> k8s_closed r\<^sub>2)"
  "\<lambda>((p\<^sub>1, ctx\<^sub>1, r\<^sub>1), (p\<^sub>2, ctx\<^sub>2, r\<^sub>2)) e. ctx_err ctx\<^sub>1 = Some e \<or> ctx_err ctx\<^sub>2 = Some e"
  "\<lambda>((p\<^sub>1, ctx\<^sub>1, r\<^sub>1), (p\<^sub>2, ctx\<^sub>2, r\<^sub>2)). ctx_done ctx\<^sub>1 \<and> ctx_done ctx\<^sub>2"
proof (unfold_locales, goal_cases)
  case (1 m)
  then show ?case by (auto simp: ready_moment_def wait_ready_def is_ready_def dest!: select_arms split: prod.splits)
next
  case (2 m e)
  then show ?case by (auto simp: ready_moment_def wait_ready_def dest!: select_arms split: prod.splits)
next
  case (3 m)
  then show ?case by (auto simp: ready_moment_def wait_ready_def select_with_ready)
next
  case (4 n)
  then show ?case
    by (auto simp: traffic_moment_def wait_for_traffic_ready_def wait_ready_def is_ready_def
        dest!: select_arms split: prod.splits option.splits if_splits)
next
  case (5 n e)
  then show ?case
    by (auto simp: traffic_moment_def wait_for_traffic_ready_def wait_ready_def
        dest!: select_arms split: prod.splits option.splits if_splits)
next
  case (6 n)
  then show ?case
    using select_with_ready
    by (auto simp: traffic_moment_def wait_for_traffic_ready_def wait_ready_def split: option.splits)
qed

subsection \<open>Properties\<close>

lemma finished_trace:
  assumes "pc_inv Finished opts t"
  shows "\<exists>e. t = [Waited_ready (Some e)] \<and> wait_for_ready opts
    \<or> t = ready_prefix opts @ [Waited_traffic (Some e)] \<and> wait_for_traffic opts
    \<or> t = ready_prefix opts @ traffic_prefix opts @ [Ran None]
    \<or> t = ready_prefix opts @ traffic_prefix opts @ Ran (Some e) # (if shutdown_on_error opts then [Shutdown_app 1] else [])"
proof -
  from assms obtain ready traffic work where "worker_run opts ready traffic work = (t, True)" by auto
  then show ?thesis
    by (auto simp: step_defs prefix_defs worker_on_error_def split: if_splits option.splits)
qed

text \<open>A wait fails only after \<^verbatim>\<open>Stop\<close> cancelled it.\<close>

lemma failed_wait_cancelled:
  assumes "worker_reach opts w"
  shows "\<forall>e. Waited_ready (Some e) \<in> set (w_trace w) \<or> Waited_traffic (Some e) \<in> set (w_trace w) \<longrightarrow> w_cancel w = Some True"
  using assms
proof (induction rule: worker_reach.induct)
  case init
  show ?case by (simp add: new_worker_def)
next
  case (step w w')
  from worker_reach_inv [OF step(1)] have fresh: "w_pc w = Not_started \<longrightarrow> w_trace w = []" by (auto simp: worker_inv_def)
  from step(2,3) fresh show ?case
    by cases (auto simp: worker_goto_def worker_start_def worker_on_error_def Let_def)
qed

text \<open>
  C13. A worker goroutine that has finished, under any interleaving with \<^verbatim>\<open>Start\<close> and \<^verbatim>\<open>Stop\<close>, has either left
  after a wait that its options ask for and that failed; or it has waited for what its options ask for, in this order, and run its
  function once, and then, if and only if that failed and \<^verbatim>\<open>WithShutdown\<close> is set, has asked for a shutdown with exit code 1. At no
  moment has it run its function twice or before its waits, or asked for a shutdown otherwise; a wait fails only after
  \<^verbatim>\<open>Stop\<close>. Its calls are those of the sequential \<open>worker_run\<close> for some results.
\<close>

theorem worker_refines_run:
  assumes "worker_reach opts w"
  shows "(w_pc w = Finished \<longrightarrow>
            (\<exists>ready traffic work. worker_run opts ready traffic work = (w_trace w, True))
          \<and> (\<exists>e. w_trace w = [Waited_ready (Some e)] \<and> wait_for_ready opts
               \<or> w_trace w = (if wait_for_ready opts then [Waited_ready None] else []) @ [Waited_traffic (Some e)]
                   \<and> wait_for_traffic opts
               \<or> w_trace w = (if wait_for_ready opts then [Waited_ready None] else [])
                   @ (if wait_for_traffic opts then [Waited_traffic None] else []) @ [Ran None]
               \<or> w_trace w = (if wait_for_ready opts then [Waited_ready None] else [])
                   @ (if wait_for_traffic opts then [Waited_traffic None] else [])
                   @ Ran (Some e) # (if shutdown_on_error opts then [Shutdown_app 1] else [])))
    \<and> (\<forall>a b e\<^sub>1 e\<^sub>2 c. w_trace w \<noteq> a @ Ran e\<^sub>1 # b @ Ran e\<^sub>2 # c)
    \<and> (\<forall>r. Ran r \<in> set (w_trace w) \<longrightarrow> (wait_for_ready opts \<longrightarrow> Waited_ready None \<in> set (w_trace w))
         \<and> (wait_for_traffic opts \<longrightarrow> Waited_traffic None \<in> set (w_trace w)))
    \<and> (\<forall>n. Shutdown_app n \<in> set (w_trace w) \<longrightarrow>
         n = 1 \<and> shutdown_on_error opts \<and> (\<exists>e. Ran (Some e) \<in> set (w_trace w)))
    \<and> (\<forall>e. Waited_ready (Some e) \<in> set (w_trace w) \<or> Waited_traffic (Some e) \<in> set (w_trace w) \<longrightarrow> w_cancel w = Some True)"
proof -
  from worker_reach_inv [OF assms] have pc: "pc_inv (w_pc w) opts (w_trace w)"
    by (simp add: worker_inv_def)
  let ?n = "\<lambda>t. length (filter (\<lambda>ev. case ev of Ran _ \<Rightarrow> True | _ \<Rightarrow> False) t)"
  have fin: "?n t \<le> 1
      \<and> (\<forall>r. Ran r \<in> set t \<longrightarrow> (wait_for_ready opts \<longrightarrow> Waited_ready None \<in> set t) \<and> (wait_for_traffic opts \<longrightarrow> Waited_traffic None \<in> set t))
      \<and> (\<forall>n. Shutdown_app n \<in> set t \<longrightarrow> n = 1 \<and> shutdown_on_error opts \<and> (\<exists>e. Ran (Some e) \<in> set t))"
    if "pc_inv Finished opts t" for t
    using finished_trace [OF that] by (auto simp: prefix_defs split: if_splits)
  have rest: "?n (w_trace w) \<le> 1
      \<and> (\<forall>r. Ran r \<in> set (w_trace w) \<longrightarrow> (wait_for_ready opts \<longrightarrow> Waited_ready None \<in> set (w_trace w))
           \<and> (wait_for_traffic opts \<longrightarrow> Waited_traffic None \<in> set (w_trace w)))
      \<and> (\<forall>n. Shutdown_app n \<in> set (w_trace w) \<longrightarrow>
           n = 1 \<and> shutdown_on_error opts \<and> (\<exists>e. Ran (Some e) \<in> set (w_trace w)))"
    using pc fin by (cases "w_pc w") (auto simp: prefix_defs simp del: pc_inv.simps(6))
  then have "w_trace w \<noteq> a @ Ran e\<^sub>1 # b @ Ran e\<^sub>2 # c" for a b e\<^sub>1 e\<^sub>2 c by auto
  moreover have "\<exists>ready traffic work. worker_run opts ready traffic work = (w_trace w, True)" if "w_pc w = Finished"
    using pc that by simp
  moreover have "w_pc w = Finished \<Longrightarrow> pc_inv Finished opts (w_trace w)" using pc by simp
  note finished_trace [OF this, unfolded prefix_defs]
  ultimately show ?thesis using rest failed_wait_cancelled [OF assms] by blast
qed

definition demo_worker :: worker where
  "demo_worker = worker_goto [Ran None] Finished (worker_start (new_worker (run_worker_options [])))"

lemma demo_worker_reach: "worker_reach (run_worker_options []) demo_worker"
  unfolding demo_worker_def
  by (rule worker_reach.step [OF worker_reach.step [OF worker_reach.init worker_step.start] worker_step.work_ok])
    (simp_all add: new_worker_def step_defs run_worker_options_def)

definition failing_worker :: worker where
  "failing_worker = worker_goto (worker_on_error (run_worker_options [with_shutdown])) Finished
     (worker_goto [Ran (Some (New_error ''boom''))] At_error (worker_start (new_worker (run_worker_options [with_shutdown]))))"

lemma failing_worker_reach: "worker_reach (run_worker_options [with_shutdown]) failing_worker"
proof -
  let ?o = "run_worker_options [with_shutdown]"
  let ?started = "worker_start (new_worker ?o)" and ?failed = "worker_goto [Ran (Some (New_error ''boom''))] At_error (worker_start (new_worker ?o))"
  have pc: "w_pc ?started = At_work" "w_pc ?failed = At_error" "w_options ?failed = ?o"
    by (simp_all add: new_worker_def step_defs run_worker_options_def with_shutdown_def)
  have "worker_step (new_worker ?o) ?started" by (rule worker_step.start) (simp_all add: new_worker_def)
  note worker_reach.step [OF worker_reach.init this]
  note worker_reach.step [OF this worker_step.work_err [OF pc(1)]]
  note worker_reach.step [OF this worker_step.error [OF pc(2)]]
  then show ?thesis by (simp add: failing_worker_def pc(3))
qed

theorem worker_refines_run_witness:
  "w_trace failing_worker = [Ran (Some (New_error ''boom'')), Shutdown_app 1]"
proof -
  have fin: "w_pc failing_worker = Finished" and ran: "Ran (Some (New_error ''boom'')) \<in> set (w_trace failing_worker)"
    by (simp_all add: failing_worker_def worker_goto_def worker_start_def new_worker_def Let_def)
  from worker_refines_run [OF failing_worker_reach] fin ran show ?thesis
    by (auto simp: run_worker_options_def with_shutdown_def)
qed

text \<open>
  When \<^verbatim>\<open>Stop\<close> reports a graceful stop, the goroutine was never started or has returned, and
  nothing it does can be seen afterwards: every later step leaves the trace as it is, unless the
  worker was never started.
\<close>

theorem graceful_stop_is_final:
  assumes "worker_reach opts w" and "w_stop w = Stopped_gracefully"
  shows "w_wg w = 0 \<and> w_pc w \<in> {Not_started, Finished}
    \<and> (\<forall>w'. worker_step w w' \<longrightarrow> w_trace w' = w_trace w \<and> w_pc w' = w_pc w)"
proof -
  from worker_reach_inv [OF assms(1)] assms(2)
  have pc: "w_pc w \<in> {Not_started, Finished}" and wg: "w_wg w = 0"
    by (auto simp: worker_inv_def)
  moreover have "w_trace w' = w_trace w \<and> w_pc w' = w_pc w" if "worker_step w w'" for w'
    using that pc assms(2) by (cases rule: worker_step.cases) auto
  ultimately show ?thesis by blast
qed

theorem graceful_stop_is_final_witness:
  "w_pc (demo_worker\<lparr>w_cancel := Some True, w_stop := Stopped_gracefully\<rparr>) \<in> {Not_started, Finished}"
proof -
  have "worker_reach (run_worker_options []) (demo_worker\<lparr>w_cancel := Some True, w_stop := Stopping\<rparr>)"
    using worker_reach.step [OF demo_worker_reach worker_step.stop]
    by (simp add: demo_worker_def step_defs new_worker_def)
  from worker_reach.step [OF this worker_step.stop_done]
  have "worker_reach (run_worker_options []) (demo_worker\<lparr>w_cancel := Some True, w_stop := Stopped_gracefully\<rparr>)"
    by (simp add: demo_worker_def step_defs new_worker_def)
  from graceful_stop_is_final [OF this] show ?thesis by simp
qed

text \<open>
  A worker runs its function only after the waits its options ask for have reached their
  condition, asks for a shutdown only with exit code 1 and only after its function failed with
  \<^verbatim>\<open>WithShutdown\<close> set, and once cancelled returns if its function does.
\<close>

theorem worker_run_guarded:
  assumes "worker_run opts (ready_moment (p, ctx, r))
      (traffic_moment ((p\<^sub>1, ctx\<^sub>1, r\<^sub>1), (p\<^sub>2, ctx\<^sub>2, r\<^sub>2))) work = (t, fin)"
  shows "(Ran res \<in> set t \<longrightarrow> (wait_for_ready opts \<longrightarrow> is_ready r)
       \<and> (wait_for_traffic opts \<longrightarrow> is_ready r\<^sub>1 \<and> (in_kubernetes r\<^sub>1 \<longrightarrow> k8s_closed r\<^sub>2)))
    \<and> (Shutdown_app n \<in> set t \<longrightarrow> n = 1 \<and> shutdown_on_error opts \<and> (\<exists>e. work = Some (Some e) \<and> Ran (Some e) \<in> set t))
    \<and> (ctx_done ctx \<longrightarrow> ctx_done ctx\<^sub>1 \<longrightarrow> ctx_done ctx\<^sub>2 \<longrightarrow> work \<noteq> None \<longrightarrow> fin)"
proof -
  have "Shutdown_app n \<in> set t \<Longrightarrow> n = 1 \<and> shutdown_on_error opts \<and> (\<exists>e. work = Some (Some e) \<and> Ran (Some e) \<in> set t)"
    using assms by (auto simp: step_defs worker_on_error_def split: option.splits if_splits)
  moreover have "ctx_done ctx \<Longrightarrow> ctx_done ctx\<^sub>1 \<Longrightarrow> ctx_done ctx\<^sub>2 \<Longrightarrow> work \<noteq> None \<Longrightarrow> fin"
    using readiness_waits.cancelled_returns [of "(p, ctx, r)" "((p\<^sub>1, ctx\<^sub>1, r\<^sub>1), (p\<^sub>2, ctx\<^sub>2, r\<^sub>2))" work opts] assms
    by simp
  ultimately show ?thesis
    using readiness_waits.runs_after_waits [OF assms, of res] by auto
qed

theorem worker_run_guarded_witness:
  "wait_for_ready (run_worker_options [with_ready, with_shutdown])
   \<and> is_ready ((new_readiness False)\<lparr>ready_closed := True\<rparr>)"
proof -
  let ?o = "run_worker_options [with_ready, with_shutdown]"
  let ?r = "(new_readiness False)\<lparr>ready_closed := True\<rparr>"
  have "worker_run ?o (ready_moment (0, ctx_background, ?r))
      (traffic_moment ((0, ctx_background, ?r), (0, ctx_background, ?r))) (Some None)
      = ([Waited_ready None, Ran None], True)"
    by (simp add: step_defs run_worker_options_def with_ready_def with_shutdown_def ready_moment_def
        wait_ready_def go_select_def ctx_background_def)
  from worker_run_guarded [OF this, of None] show ?thesis
    by (simp add: run_worker_options_def with_ready_def with_shutdown_def)
qed

end
