(* ===== verification/Core_Config.thy ===== *)
theory Core_Config
  imports Go_Runtime
begin

section \<open>Configuration loading (pkg/core/config)\<close>

text \<open>
  \<^verbatim>\<open>config.go\<close>, \<^verbatim>\<open>koanf.go\<close> and \<^verbatim>\<open>loader.go\<close>: the application metadata, the translation of
  environment variable names into configuration keys, and the generic \<^verbatim>\<open>Load\<close>. The interface
  \<^verbatim>\<open>Configurable\<close> (\<^verbatim>\<open>ApplyDefaults\<close>, \<^verbatim>\<open>Validate\<close>) is the locale \<open>configurable\<close>; every
  configuration of the repository is an interpretation of it, in the theory of its component.
\<close>

subsection \<open>The Configurable interface and Load\<close>

text \<open>
  \<^verbatim>\<open>Source\<close>: \<^verbatim>\<open>Exists(key)\<close> and \<^verbatim>\<open>Unmarshal(key, target)\<close>, implemented by the library koanf;
  both are parameters. \<open>unmarshal k key c\<close> is the target after decoding into \<open>c\<close>, or the error.
\<close>

record 'c source =
  exists_key :: "string \<Rightarrow> bool"
  unmarshal :: "string \<Rightarrow> 'c \<Rightarrow> (go_error, 'c) result"

text \<open>
  \<^verbatim>\<open>Validate\<close> has a pointer receiver and may write to the configuration (the logger's does), so
  it returns the configuration; a method that only checks is lifted by \<open>validating\<close>.
\<close>

definition validating :: "('c \<Rightarrow> go_error option) \<Rightarrow> 'c \<Rightarrow> (go_error, 'c) result" where
  "validating check c = (case check c of None \<Rightarrow> Inr c | Some e \<Rightarrow> Inl e)"

lemma validating_Inr [simp]: "validating check c = Inr c' \<longleftrightarrow> c' = c \<and> check c = None"
  by (auto simp: validating_def split: option.splits)

lemma validating_Inl [simp]: "validating check c = Inl e \<longleftrightarrow> check c = Some e"
  by (auto simp: validating_def split: option.splits)

text \<open>
  \<^verbatim>\<open>Load\<close>: the override, or the decoded value when the key is empty or present, or the zero
  value; then the defaults, then the validation. The configuration Go returns next to a
  non-nil error is left out: no caller reads it.
\<close>

definition load_config ::
  "('c \<Rightarrow> 'c) \<Rightarrow> ('c \<Rightarrow> (go_error, 'c) result) \<Rightarrow> 'c \<Rightarrow> 'c source \<Rightarrow> string \<Rightarrow> 'c option \<Rightarrow>
   (go_error, 'c) result" where
  "load_config apply_defaults validate zero k key override =
     and_then
       (case override of
          Some c \<Rightarrow> Inr c
        | None \<Rightarrow>
            if key = [] \<or> exists_key k key then
              (case unmarshal k key zero of
                 Inl e \<Rightarrow> Inl (Wrapf (''failed to load '' @ key @ '' config: '') e [])
               | Inr c \<Rightarrow> Inr c)
            else Inr zero)
       (\<lambda>cfg. case validate (apply_defaults cfg) of
          Inl e \<Rightarrow> Inl (Wrapf (''invalid '' @ key @ '' config: '') e [])
        | Inr c \<Rightarrow> Inr c)"

lemma load_config_validated:
  assumes "load_config d v z k key ov = Inr c"
  shows "\<exists>c0. v (d c0) = Inr c"
proof -
  from assms obtain c0 where
    "(case v (d c0) of Inl e \<Rightarrow> Inl (Wrapf (''invalid '' @ key @ '' config: '') e []) | Inr c \<Rightarrow> Inr c) = Inr c"
    unfolding load_config_def and_then_Inr by blast
  then show ?thesis by (cases "v (d c0)") auto
qed

lemma load_config_override:
  "load_config d v z k key (Some c) =
     (case v (d c) of Inl e \<Rightarrow> Inl (Wrapf (''invalid '' @ key @ '' config: '') e []) | Inr c' \<Rightarrow> Inr c')"
  by (simp add: load_config_def)

lemma load_config_absent:
  "key \<noteq> [] \<Longrightarrow> \<not> exists_key k key \<Longrightarrow> load_config d v z k key None = load_config d v z k key (Some z)"
  by (simp add: load_config_def)

lemma load_valid:
  "check (d c) = None \<Longrightarrow> load_config d (validating check) z k key (Some c) = Inr (d c)"
  by (simp add: load_config_override validating_def)

text \<open>
  What the loader relies on: the defaults are idempotent, and a validated configuration keeps
  its defaults and validates again to itself.
\<close>

locale configurable =
  fixes apply_defaults :: "'c \<Rightarrow> 'c"
    and validate :: "'c \<Rightarrow> (go_error, 'c) result"
  assumes defaults_idem: "apply_defaults (apply_defaults c) = apply_defaults c"
    and validate_keeps_defaults:
      "validate c = Inr c' \<Longrightarrow> apply_defaults c = c \<Longrightarrow> apply_defaults c' = c'"
    and validate_stable: "validate c = Inr c' \<Longrightarrow> validate c' = Inr c'"
begin

text \<open>A loaded configuration is complete (applying the defaults changes nothing) and valid.\<close>

lemma loaded_complete:
  assumes "load_config apply_defaults validate z k key ov = Inr c"
  shows "apply_defaults c = c" and "validate c = Inr c"
proof -
  from assms obtain c0 where v: "validate (apply_defaults c0) = Inr c"
    by (blast dest: load_config_validated)
  show "apply_defaults c = c" by (rule validate_keeps_defaults [OF v defaults_idem])
  show "validate c = Inr c" by (rule validate_stable [OF v])
qed

text \<open>Loading is idempotent: a loaded configuration passed back as an override is unchanged.\<close>

lemma reload_fixpoint:
  assumes "load_config apply_defaults validate z k key ov = Inr c"
  shows "load_config apply_defaults validate z' k' key' (Some c) = Inr c"
  using loaded_complete [OF assms] by (simp add: load_config_override)

end

text \<open>A configuration whose validation only checks needs idempotent defaults alone.\<close>

lemma configurable_checked:
  "(\<And>c. d (d c) = d c) \<Longrightarrow> configurable d (validating check)"
  by unfold_locales auto

subsection \<open>AppConfig\<close>

record app_config =
  service_name :: string
  service_version :: string
  environment :: string
  kubernetes_service_host :: string
  is_kubernetes :: bool

definition app_config_zero :: app_config where
  "app_config_zero = \<lparr>service_name = [], service_version = [], environment = [],
     kubernetes_service_host = [], is_kubernetes = False\<rparr>"

definition app_apply_defaults :: "app_config \<Rightarrow> app_config" where
  [cfg_defs]: "app_apply_defaults c =
     (if kubernetes_service_host c \<noteq> [] then c\<lparr>is_kubernetes := True\<rparr> else c)"

definition app_validate :: "app_config \<Rightarrow> go_error option" where
  [cfg_defs]: "app_validate c = errors_join
     ((if service_name c = [] then [New_error ''app-service-name is required''] else [])
      @ (if service_version c = [] then [New_error ''app-service-version is required''] else [])
      @ (if environment c = [] then [New_error ''app-env is required''] else []))"

interpretation app_cfg: configurable app_apply_defaults "validating app_validate"
  by (rule configurable_checked) (simp add: cfg_defs)

lemma app_validate_ok:
  "app_validate c = None \<longleftrightarrow> service_name c \<noteq> [] \<and> service_version c \<noteq> [] \<and> environment c \<noteq> []"
  by (auto simp: app_validate_def errors_join_def)

text \<open>
  The field \<^verbatim>\<open>kubernetesServiceHost\<close> is not exported. A decoder sets exported fields only
  (package reflect cannot set the others), which is the hypothesis on koanf's \<^verbatim>\<open>Unmarshal\<close>.
\<close>

definition decodes_exported_only :: "app_config source \<Rightarrow> bool" where
  "decodes_exported_only k \<longleftrightarrow>
     (\<forall>key c c'. unmarshal k key c = Inr c' \<longrightarrow>
        kubernetes_service_host c' = kubernetes_service_host c)"

subsection \<open>Environment variable names\<close>

text \<open>
  \<^verbatim>\<open>transformEnvKey\<close>: lower case, then \<^verbatim>\<open>__\<close> to NUL, \<^verbatim>\<open>_\<close> to \<^verbatim>\<open>-\<close> and NUL to \<^verbatim>\<open>.\<close>. The value is passed
  through.
\<close>

definition transform_env_key :: "string \<Rightarrow> 'v \<Rightarrow> string \<times> 'v" where
  "transform_env_key key value =
     (let key = to_lower key;
          key = replace_all key ''__'' [CHR 0x00];
          key = replace_all key ''_'' ''-'';
          key = replace_all key [CHR 0x00] ''.''
      in (key, value))"

text \<open>
  An environment name is a list of levels, each a list of words; words are joined with one
  underscore and levels with two.
\<close>

definition plain_word :: "string \<Rightarrow> bool" where
  "plain_word w \<longleftrightarrow> w \<noteq> [] \<and> CHR ''_'' \<notin> set w \<and> CHR 0x00 \<notin> set w"

definition env_name :: "string list list \<Rightarrow> string" where
  "env_name levels = join_with ''__'' (map (join_with ''_'') levels)"

definition key_path :: "string list list \<Rightarrow> string" where
  "key_path levels = join_with ''.'' (map (join_with ''-'') levels)"

lemma replace_double_plain:
  "CHR ''_'' \<notin> set w \<Longrightarrow> replace_all (w @ r) ''__'' n = w @ replace_all r ''__'' n"
  by (induction w) auto

lemma replace_double_single:
  "c \<noteq> CHR ''_'' \<Longrightarrow> replace_all (CHR ''_'' # c # cs) ''__'' n = CHR ''_'' # replace_all (c # cs) ''__'' n"
  by simp

lemma replace_double_words:
  assumes "list_all plain_word ws"
  shows "replace_all (join_with ''_'' ws @ r) ''__'' n
    = (if ws = [] then replace_all r ''__'' n
       else join_with ''_'' ws @ replace_all r ''__'' n)"
  using assms
proof (induction ws rule: induct_list012)
  case (2 w)
  then show ?case by (simp add: plain_word_def replace_double_plain)
next
  case (3 w v ws)
  obtain c cs where v: "v = c # cs" and c: "c \<noteq> CHR ''_''"
    using 3(3) by (cases v) (auto simp: plain_word_def)
  obtain t where t: "join_with ''_'' (v # ws) = c # t"
    using v by (cases ws) auto
  have "replace_all (join_with ''_'' (w # v # ws) @ r) ''__'' n
      = w @ replace_all (CHR ''_'' # c # (t @ r)) ''__'' n"
    using 3(3) t by (simp add: plain_word_def replace_double_plain)
  also have "\<dots> = w @ CHR ''_'' # replace_all (join_with ''_'' (v # ws) @ r) ''__'' n"
    by (subst replace_double_single [OF c]) (simp add: t)
  finally show ?case using 3(2,3) by simp
qed simp

lemma replace_double_levels:
  assumes "list_all (\<lambda>ws. ws \<noteq> [] \<and> list_all plain_word ws) levels"
  shows "replace_all (env_name levels) ''__'' n = join_with n (map (join_with ''_'') levels)"
  using assms
proof (induction levels rule: induct_list012)
  case (2 ws)
  then show ?case using replace_double_words [of ws "[]" n] by (simp add: env_name_def)
next
  case (3 ws vs levels)
  have "replace_all (join_with ''_'' ws @ ''__'' @ env_name (vs # levels)) ''__'' n
      = join_with ''_'' ws @ n @ replace_all (env_name (vs # levels)) ''__'' n"
    using 3(3) by (subst replace_double_words) auto
  then show ?case using 3(2,3) by (simp add: env_name_def)
qed (simp add: env_name_def)

lemma map_join_with: "map f (join_with sep ws) = join_with (map f sep) (map (map f) ws)"
  by (induction sep ws rule: join_with.induct) auto

lemma map_id_on: "(\<And>c. c \<in> set w \<Longrightarrow> f c = c) \<Longrightarrow> map f w = w"
  by (simp add: map_idI)

lemma join_levels_map:
  assumes "list_all (list_all plain_word) levels" and "\<And>w. plain_word w \<Longrightarrow> map f w = w"
  shows "map (map f) (map (join_with sep) levels) = map (join_with (map f sep)) levels"
  using assms by (induction levels) (auto simp: map_join_with list_all_iff cong: map_cong)

lemma lower_char_fixed [simp]: "lower_char (CHR ''_'') = CHR ''_''" "lower_char (CHR 0x00) = CHR 0x00"
  by (simp_all add: lower_char_def)

lemma lower_char_eq:
  assumes "lower_char c = d" and "of_char d < (65 :: nat) \<or> 90 < (of_char d :: nat) \<and> (of_char d :: nat) < 97"
  shows "c = d"
proof (cases "65 \<le> (of_char c :: nat) \<and> (of_char c :: nat) \<le> 90")
  case True
  then have "(of_char d :: nat) = of_char c + 32"
    using assms(1) by (auto simp: lower_char_def)
  then show ?thesis using True assms(2) by simp
qed (use assms(1) in \<open>auto simp: lower_char_def\<close>)

lemma lower_char_special [simp]:
  "lower_char c = CHR ''_'' \<longleftrightarrow> c = CHR ''_''" "CHR ''_'' = lower_char c \<longleftrightarrow> c = CHR ''_''"
  "lower_char c = CHR 0x00 \<longleftrightarrow> c = CHR 0x00" "CHR 0x00 = lower_char c \<longleftrightarrow> c = CHR 0x00"
  using lower_char_eq [of c "CHR ''_''"] lower_char_eq [of c "CHR 0x00"]
  by (auto simp: lower_char_def)

lemma plain_word_lower: "plain_word w \<Longrightarrow> plain_word (to_lower w)"
  by (auto simp: plain_word_def to_lower_def)

lemma to_lower_env_name: "to_lower (env_name levels) = env_name (map (map to_lower) levels)"
  by (simp add: env_name_def to_lower_def [abs_def] map_join_with comp_def)

theorem transform_env_key_levels:
  assumes "list_all (\<lambda>ws. ws \<noteq> [] \<and> list_all plain_word ws) levels"
  shows "transform_env_key (env_name levels) v = (key_path (map (map to_lower) levels), v)"
proof -
  let ?L = "map (map to_lower) levels"
  have L: "list_all (\<lambda>ws. ws \<noteq> [] \<and> list_all plain_word ws) ?L"
    using assms by (auto simp: list_all_iff plain_word_lower)
  then have P: "list_all (list_all plain_word) ?L" by (auto simp: list_all_iff)
  have us: "\<And>w. plain_word w \<Longrightarrow> map (\<lambda>c. if c = CHR ''_'' then CHR ''-'' else c) w = w"
    and nul: "\<And>w. plain_word w \<Longrightarrow> map (\<lambda>c. if c = CHR 0x00 then CHR ''.'' else c) w = w"
    by (auto simp: plain_word_def intro!: map_id_on)
  let ?dash = "\<lambda>c. if c = CHR ''_'' then CHR ''-'' else c"
  let ?dot = "\<lambda>c. if c = CHR 0x00 then CHR ''.'' else c"
  have "map ?dash (join_with [CHR 0x00] (map (join_with ''_'') ?L)) = join_with [CHR 0x00] (map (join_with ''-'') ?L)"
    using join_levels_map [OF P us, of "''_''"] by (simp only: map_join_with) simp
  moreover have "map ?dot (join_with [CHR 0x00] (map (join_with ''-'') ?L)) = key_path ?L"
    using join_levels_map [OF P nul, of "''-''"] by (simp only: map_join_with key_path_def) simp
  ultimately have "replace_all (replace_all (replace_all (env_name ?L) ''__'' [CHR 0x00]) ''_'' ''-'') [CHR 0x00] ''.''
      = key_path ?L"
    by (simp only: replace_double_levels [OF L] replace_all_char)
  then show ?thesis by (simp add: transform_env_key_def Let_def to_lower_env_name)
qed

end
