(* ===== verification/Kafka_Config.thy ===== *)
theory Kafka_Config
  imports Core_Config
begin

section \<open>The Kafka configuration (pkg/kafka/config)\<close>

text \<open>
  \<^verbatim>\<open>types.go\<close>, \<^verbatim>\<open>constants.go\<close>, \<^verbatim>\<open>defaults.go\<close> and \<^verbatim>\<open>validation.go\<close>. A \<^verbatim>\<open>*uint\<close> is a natural number
  option; an \<^verbatim>\<open>int\<close> and a duration are integers.
\<close>

subsection \<open>Constants\<close>

abbreviation defaultMaxRetries :: nat where "defaultMaxRetries \<equiv> 2"
abbreviation defaultInitialBackoff :: duration where "defaultInitialBackoff \<equiv> 1 * second"
abbreviation defaultMaxBackoff :: duration where "defaultMaxBackoff \<equiv> 30 * second"
abbreviation defaultProcessingTimeout :: duration where "defaultProcessingTimeout \<equiv> 30 * second"
abbreviation defaultChannelBufferSize :: int where "defaultChannelBufferSize \<equiv> 100"
abbreviation defaultMaxPollRecords :: int where "defaultMaxPollRecords \<equiv> 500"
abbreviation defaultConsumerReadinessTimeout :: int where "defaultConsumerReadinessTimeout \<equiv> 60"
abbreviation defaultProducerReadinessTimeout :: int where "defaultProducerReadinessTimeout \<equiv> 30"
abbreviation defaultProducerLinger :: duration where "defaultProducerLinger \<equiv> 5 * millisecond"
abbreviation defaultProducerCompression :: string where "defaultProducerCompression \<equiv> ''none''"
abbreviation defaultProducerDeliveryTimeout :: duration where "defaultProducerDeliveryTimeout \<equiv> 30 * second"
abbreviation defaultProducerMaxBufferedRecords :: int where "defaultProducerMaxBufferedRecords \<equiv> 10000"
abbreviation minMaxRetries :: nat where "minMaxRetries \<equiv> 0"
abbreviation maxMaxRetries :: nat where "maxMaxRetries \<equiv> 99"
abbreviation minInitialBackoff :: duration where "minInitialBackoff \<equiv> 100 * millisecond"
abbreviation maxInitialBackoff :: duration where "maxInitialBackoff \<equiv> 30 * second"
abbreviation minMaxBackoff :: duration where "minMaxBackoff \<equiv> 1 * second"
abbreviation maxMaxBackoffDuration :: duration where "maxMaxBackoffDuration \<equiv> 5 * minute"
abbreviation minProcessingTimeout :: duration where "minProcessingTimeout \<equiv> 1 * second"
abbreviation maxProcessingTimeout :: duration where "maxProcessingTimeout \<equiv> 10 * minute"
abbreviation minChannelBufferSize :: int where "minChannelBufferSize \<equiv> 10"
abbreviation maxChannelBufferSize :: int where "maxChannelBufferSize \<equiv> 10000"
abbreviation minMaxPollRecords :: int where "minMaxPollRecords \<equiv> 1"
abbreviation maxMaxPollRecords :: int where "maxMaxPollRecords \<equiv> 10000"
abbreviation maxReadinessTimeout :: int where "maxReadinessTimeout \<equiv> 600"
abbreviation maxProducerLinger :: duration where "maxProducerLinger \<equiv> 1 * second"
abbreviation minProducerDeliveryTimeout :: duration where "minProducerDeliveryTimeout \<equiv> 1 * second"
abbreviation maxProducerDeliveryTimeout :: duration where "maxProducerDeliveryTimeout \<equiv> 5 * minute"
abbreviation minProducerMaxBufferedRecords :: int where "minProducerMaxBufferedRecords \<equiv> 100"
abbreviation maxProducerMaxBufferedRecords :: int where "maxProducerMaxBufferedRecords \<equiv> 1000000"

subsection \<open>Types\<close>

record consumer_config =
  cc_name :: string
  cc_topic :: string
  cc_group_id :: string
  cc_auto_offset_reset :: string
  cc_enable_dlq :: bool
  cc_dlq_topic :: string
  cc_readiness_timeout :: int
  cc_fail_on_topic_error :: bool
  cc_max_retries :: "nat option"
  cc_initial_backoff :: duration
  cc_max_backoff :: duration
  cc_processing_timeout :: duration
  cc_channel_buffer :: int
  cc_max_poll_records :: int

record consumers_config =
  cs_group_id :: string
  cs_auto_offset_reset :: string
  cs_max_retries :: "nat option"
  cs_initial_backoff :: duration
  cs_max_backoff :: duration
  cs_processing_timeout :: duration
  cs_channel_buffer :: int
  cs_max_poll_records :: int
  cs_consumers :: "consumer_config list"

record producer_config =
  pc_readiness_timeout :: int
  pc_fail_on_broker_error :: bool
  pc_linger :: duration
  pc_compression :: string
  pc_delivery_timeout :: duration
  pc_max_buffered :: int

record kafka_config =
  kc_brokers :: string
  kc_consumers :: consumers_config
  kc_producer :: producer_config

definition kafka_zero :: kafka_config where
  "kafka_zero = \<lparr>kc_brokers = [],
     kc_consumers = \<lparr>cs_group_id = [], cs_auto_offset_reset = [], cs_max_retries = None,
       cs_initial_backoff = 0, cs_max_backoff = 0, cs_processing_timeout = 0,
       cs_channel_buffer = 0, cs_max_poll_records = 0, cs_consumers = []\<rparr>,
     kc_producer = \<lparr>pc_readiness_timeout = 0, pc_fail_on_broker_error = False, pc_linger = 0,
       pc_compression = [], pc_delivery_timeout = 0, pc_max_buffered = 0\<rparr>\<rparr>"

subsection \<open>Defaults\<close>

definition apply_consumer_defaults :: "consumers_config \<Rightarrow> consumer_config \<Rightarrow> consumer_config" where
  [cfg_defs]: "apply_consumer_defaults g c = c\<lparr>
     cc_group_id := if_empty (cs_group_id g) (cc_group_id c),
     cc_auto_offset_reset := if_empty (cs_auto_offset_reset g) (cc_auto_offset_reset c),
     cc_dlq_topic := (if cc_enable_dlq c \<and> cc_dlq_topic c = [] then cc_topic c @ ''.dlq'' else cc_dlq_topic c),
     cc_readiness_timeout := if_zero defaultConsumerReadinessTimeout (cc_readiness_timeout c),
     cc_max_retries := (if cc_max_retries c = None then cs_max_retries g else cc_max_retries c),
     cc_initial_backoff := if_zero (cs_initial_backoff g) (cc_initial_backoff c),
     cc_max_backoff := if_zero (cs_max_backoff g) (cc_max_backoff c),
     cc_processing_timeout := if_zero (cs_processing_timeout g) (cc_processing_timeout c),
     cc_channel_buffer := if_zero (cs_channel_buffer g) (cc_channel_buffer c),
     cc_max_poll_records := if_zero (cs_max_poll_records g) (cc_max_poll_records c)\<rparr>"

definition global_consumer_defaults :: "consumers_config \<Rightarrow> consumers_config" where
  [cfg_defs]: "global_consumer_defaults g = g\<lparr>
     cs_max_retries := (if cs_max_retries g = None then Some defaultMaxRetries else cs_max_retries g),
     cs_initial_backoff := if_zero defaultInitialBackoff (cs_initial_backoff g),
     cs_max_backoff := if_zero defaultMaxBackoff (cs_max_backoff g),
     cs_processing_timeout := if_zero defaultProcessingTimeout (cs_processing_timeout g),
     cs_channel_buffer := if_zero defaultChannelBufferSize (cs_channel_buffer g),
     cs_max_poll_records := if_zero defaultMaxPollRecords (cs_max_poll_records g)\<rparr>"

definition producer_defaults :: "producer_config \<Rightarrow> producer_config" where
  [cfg_defs]: "producer_defaults p = p\<lparr>
     pc_readiness_timeout := if_zero defaultProducerReadinessTimeout (pc_readiness_timeout p),
     pc_linger := if_zero defaultProducerLinger (pc_linger p),
     pc_compression := if_empty defaultProducerCompression (pc_compression p),
     pc_delivery_timeout := if_zero defaultProducerDeliveryTimeout (pc_delivery_timeout p),
     pc_max_buffered := if_zero defaultProducerMaxBufferedRecords (pc_max_buffered p)\<rparr>"

definition kafka_apply_defaults :: "kafka_config \<Rightarrow> kafka_config" where
  [cfg_defs]: "kafka_apply_defaults cfg =
     (let g = global_consumer_defaults (kc_consumers cfg);
          g = g\<lparr>cs_consumers := map (apply_consumer_defaults g) (cs_consumers g)\<rparr>
      in cfg\<lparr>kc_consumers := g, kc_producer := producer_defaults (kc_producer cfg)\<rparr>)"

subsection \<open>Validation\<close>

definition validate_brokers :: "kafka_config \<Rightarrow> go_error option" where
  [cfg_defs]: "validate_brokers cfg = failing (is_blank (kc_brokers cfg)) ''kafka brokers cannot be empty''"

text \<open>The shape of the texts: a subject, its bounds and the offending value.\<close>

definition between_text :: "string \<Rightarrow> string \<Rightarrow> string \<Rightarrow> string \<Rightarrow> string" where
  "between_text subject lo hi got =
     subject @ '' must be between '' @ lo @ '' and '' @ hi @ '', got: '' @ got"

definition between_durations :: "string \<Rightarrow> duration \<Rightarrow> duration \<Rightarrow> duration \<Rightarrow> string" where
  "between_durations subject lo hi got =
     between_text subject (duration_text lo) (duration_text hi) (duration_text got)"

definition between_ints :: "string \<Rightarrow> int \<Rightarrow> int \<Rightarrow> int \<Rightarrow> string" where
  "between_ints subject lo hi got = between_text subject (int_text lo) (int_text hi) (int_text got)"

text \<open>\<^verbatim>\<open>x > 0 && (x < lo || x > hi)\<close>: the checks skip zero and negative values.\<close>

definition positive_outside :: "int \<Rightarrow> int \<Rightarrow> int \<Rightarrow> bool" where
  [cfg_defs]: "positive_outside lo hi x \<longleftrightarrow> x > 0 \<and> (x < lo \<or> x > hi)"

definition retries_outside :: "nat option \<Rightarrow> bool" where
  [cfg_defs]: "retries_outside n = (case n of None \<Rightarrow> False | Some n \<Rightarrow> n > maxMaxRetries)"

definition retries_got :: "nat option \<Rightarrow> int" where
  "retries_got n = (case n of None \<Rightarrow> 0 | Some n \<Rightarrow> int n)"

definition validate_global_consumer_config :: "consumers_config \<Rightarrow> go_error option" where
  [cfg_defs]: "validate_global_consumer_config g = first_error [
     failing (retries_outside (cs_max_retries g))
       (between_ints ''default max retries'' (int minMaxRetries) (int maxMaxRetries) (retries_got (cs_max_retries g))),
     failing (positive_outside minInitialBackoff maxInitialBackoff (cs_initial_backoff g))
       (between_durations ''default initial backoff'' minInitialBackoff maxInitialBackoff (cs_initial_backoff g)),
     failing (positive_outside minMaxBackoff maxMaxBackoffDuration (cs_max_backoff g))
       (between_durations ''default max backoff'' minMaxBackoff maxMaxBackoffDuration (cs_max_backoff g)),
     failing (cs_max_backoff g > 0 \<and> cs_initial_backoff g > cs_max_backoff g)
       (''default initial backoff ('' @ duration_text (cs_initial_backoff g)
        @ '') cannot be greater than max backoff ('' @ duration_text (cs_max_backoff g) @ '')''),
     failing (positive_outside minProcessingTimeout maxProcessingTimeout (cs_processing_timeout g))
       (between_durations ''default processing timeout'' minProcessingTimeout maxProcessingTimeout (cs_processing_timeout g)),
     failing (positive_outside minChannelBufferSize maxChannelBufferSize (cs_channel_buffer g))
       (between_ints ''default channel buffer size'' minChannelBufferSize maxChannelBufferSize (cs_channel_buffer g)),
     failing (positive_outside minMaxPollRecords maxMaxPollRecords (cs_max_poll_records g))
       (between_ints ''default max poll records'' minMaxPollRecords maxMaxPollRecords (cs_max_poll_records g))]"

definition validate_consumer :: "nat \<Rightarrow> consumer_config \<Rightarrow> go_error option" where
  [cfg_defs]: "validate_consumer index c =
     (let who = ''consumer['' @ int_text (int index) @ '']'';
          named = who @ '' ('' @ cc_name c @ ''): ''
      in first_error [
     failing (is_blank (cc_name c)) (who @ '': name cannot be empty''),
     failing (is_blank (cc_topic c)) (named @ ''topic cannot be empty''),
     failing (cc_auto_offset_reset c \<noteq> [] \<and> cc_auto_offset_reset c \<noteq> ''earliest'' \<and> cc_auto_offset_reset c \<noteq> ''latest'')
       (named @ ''auto offset reset must be 'earliest' or 'latest', got: '' @ cc_auto_offset_reset c),
     failing (cc_readiness_timeout c > maxReadinessTimeout)
       (named @ ''readiness timeout cannot exceed '' @ int_text maxReadinessTimeout @ '' seconds, got: '' @ int_text (cc_readiness_timeout c)),
     failing (retries_outside (cc_max_retries c))
       (between_ints (named @ ''max retries'') (int minMaxRetries) (int maxMaxRetries) (retries_got (cc_max_retries c))),
     failing (positive_outside minInitialBackoff maxInitialBackoff (cc_initial_backoff c))
       (between_durations (named @ ''initial backoff'') minInitialBackoff maxInitialBackoff (cc_initial_backoff c)),
     failing (positive_outside minMaxBackoff maxMaxBackoffDuration (cc_max_backoff c))
       (between_durations (named @ ''max backoff'') minMaxBackoff maxMaxBackoffDuration (cc_max_backoff c)),
     failing (cc_max_backoff c > 0 \<and> cc_initial_backoff c > cc_max_backoff c)
       (named @ ''initial backoff ('' @ duration_text (cc_initial_backoff c)
        @ '') cannot be greater than max backoff ('' @ duration_text (cc_max_backoff c) @ '')''),
     failing (positive_outside minProcessingTimeout maxProcessingTimeout (cc_processing_timeout c))
       (between_durations (named @ ''processing timeout'') minProcessingTimeout maxProcessingTimeout (cc_processing_timeout c)),
     failing (positive_outside minChannelBufferSize maxChannelBufferSize (cc_channel_buffer c))
       (between_ints (named @ ''channel buffer size'') minChannelBufferSize maxChannelBufferSize (cc_channel_buffer c)),
     failing (positive_outside minMaxPollRecords maxMaxPollRecords (cc_max_poll_records c))
       (between_ints (named @ ''max poll records'') minMaxPollRecords maxMaxPollRecords (cc_max_poll_records c)),
     failing (cc_enable_dlq c \<and> \<not> is_blank (cc_dlq_topic c) \<and> cc_dlq_topic c = cc_topic c)
       (named @ ''DLQ topic cannot be the same as main topic'')])"

definition validate_individual_consumers :: "consumer_config list \<Rightarrow> go_error option" where
  [cfg_defs]: "validate_individual_consumers cs =
     first_error (map (\<lambda>(i, c). validate_consumer i c) (enumerate 0 cs))"

definition validate_producer_config :: "producer_config \<Rightarrow> go_error option" where
  [cfg_defs]: "validate_producer_config p = first_error [
     failing (pc_readiness_timeout p > maxReadinessTimeout)
       (''producer readiness timeout cannot exceed '' @ int_text maxReadinessTimeout @ '' seconds, got: '' @ int_text (pc_readiness_timeout p)),
     failing (pc_linger p > maxProducerLinger)
       (''producer linger cannot exceed '' @ duration_text maxProducerLinger @ '', got: '' @ duration_text (pc_linger p)),
     failing (pc_compression p \<notin> {''none'', ''snappy'', ''lz4'', ''zstd'', []})
       (''producer compression must be one of: none, snappy, lz4, zstd, got: '' @ pc_compression p),
     failing (pc_delivery_timeout p \<noteq> 0 \<and> (pc_delivery_timeout p < minProducerDeliveryTimeout \<or> pc_delivery_timeout p > maxProducerDeliveryTimeout))
       (between_durations ''producer delivery timeout'' minProducerDeliveryTimeout maxProducerDeliveryTimeout (pc_delivery_timeout p)),
     failing (pc_max_buffered p \<noteq> 0 \<and> (pc_max_buffered p < minProducerMaxBufferedRecords \<or> pc_max_buffered p > maxProducerMaxBufferedRecords))
       (between_ints ''producer max buffered records'' minProducerMaxBufferedRecords maxProducerMaxBufferedRecords (pc_max_buffered p))]"

definition kafka_validate :: "kafka_config \<Rightarrow> go_error option" where
  [cfg_defs]: "kafka_validate cfg = first_error [
     validate_brokers cfg,
     validate_global_consumer_config (kc_consumers cfg),
     validate_individual_consumers (cs_consumers (kc_consumers cfg)),
     validate_producer_config (kc_producer cfg)]"

subsection \<open>The Configurable interface\<close>

lemma apply_consumer_defaults_idem:
  "cs_max_retries g \<noteq> None \<Longrightarrow> apply_consumer_defaults g (apply_consumer_defaults g c) = apply_consumer_defaults g c"
  by (simp add: cfg_defs)

lemma global_consumer_defaults_idem:
  "global_consumer_defaults (g\<lparr>cs_consumers := cs\<rparr>) = (global_consumer_defaults g)\<lparr>cs_consumers := cs\<rparr>"
  "global_consumer_defaults (global_consumer_defaults g) = global_consumer_defaults g"
  by (simp_all add: cfg_defs)

lemma producer_defaults_idem: "producer_defaults (producer_defaults p) = producer_defaults p"
  by (simp add: cfg_defs)

lemma apply_consumer_defaults_cong:
  "apply_consumer_defaults (g\<lparr>cs_consumers := cs\<rparr>) = apply_consumer_defaults g"
  by (simp add: cfg_defs fun_eq_iff)

lemma global_defaults_set:
  "cs_max_retries (global_consumer_defaults g) \<noteq> None" "cs_initial_backoff (global_consumer_defaults g) \<noteq> 0"
  "cs_max_backoff (global_consumer_defaults g) \<noteq> 0" "cs_processing_timeout (global_consumer_defaults g) \<noteq> 0"
  "cs_channel_buffer (global_consumer_defaults g) \<noteq> 0" "cs_max_poll_records (global_consumer_defaults g) \<noteq> 0"
  by (simp_all add: cfg_defs)

lemma kafka_apply_defaults_idem: "kafka_apply_defaults (kafka_apply_defaults cfg) = kafka_apply_defaults cfg"
proof -
  let ?g = "global_consumer_defaults (kc_consumers cfg)"
  have "map (apply_consumer_defaults ?g) (map (apply_consumer_defaults ?g) cs) = map (apply_consumer_defaults ?g) cs" for cs
    by (simp add: apply_consumer_defaults_idem [OF global_defaults_set(1)])
  then show ?thesis
    unfolding kafka_apply_defaults_def Let_def
    by (simp add: global_consumer_defaults_idem producer_defaults_idem apply_consumer_defaults_cong)
qed

interpretation kafka_cfg: configurable kafka_apply_defaults "validating kafka_validate"
  by (rule configurable_checked) (rule kafka_apply_defaults_idem)

subsection \<open>What a loaded configuration guarantees\<close>

text \<open>A consumer that has its defaults and is valid.\<close>

definition sound_consumer :: "consumer_config \<Rightarrow> bool" where
  "sound_consumer c \<longleftrightarrow>
     \<not> is_blank (cc_name c) \<and> \<not> is_blank (cc_topic c)
     \<and> cc_auto_offset_reset c \<in> {[], ''earliest'', ''latest''}
     \<and> (\<exists>n \<le> 99. cc_max_retries c = Some n)
     \<and> cc_readiness_timeout c \<noteq> 0 \<and> cc_readiness_timeout c \<le> 600
     \<and> cc_initial_backoff c \<noteq> 0 \<and> cc_max_backoff c \<noteq> 0
     \<and> (cc_max_backoff c > 0 \<longrightarrow> cc_initial_backoff c \<le> cc_max_backoff c \<and> cc_max_backoff c \<le> 5 * minute)
     \<and> cc_processing_timeout c \<noteq> 0 \<and> cc_processing_timeout c \<le> 10 * minute
     \<and> cc_channel_buffer c \<noteq> 0 \<and> cc_channel_buffer c \<le> 10000
     \<and> cc_max_poll_records c \<noteq> 0 \<and> cc_max_poll_records c \<le> 10000
     \<and> (cc_enable_dlq c \<longrightarrow> cc_dlq_topic c \<noteq> [] \<and> cc_dlq_topic c \<noteq> cc_topic c)"

lemma not_outside_le: "\<not> positive_outside lo hi x \<Longrightarrow> 0 \<le> hi \<Longrightarrow> x \<le> hi"
  by (auto simp: positive_outside_def)

lemma defaults_sound_consumer:
  assumes c: "c = apply_consumer_defaults (global_consumer_defaults g) c0" and v: "validate_consumer i c = None"
  shows "sound_consumer c"
proof -
  have set: "cc_max_retries c \<noteq> None" "cc_readiness_timeout c \<noteq> 0" "cc_initial_backoff c \<noteq> 0"
    "cc_max_backoff c \<noteq> 0" "cc_processing_timeout c \<noteq> 0" "cc_channel_buffer c \<noteq> 0" "cc_max_poll_records c \<noteq> 0"
    "cc_enable_dlq c \<longrightarrow> cc_dlq_topic c \<noteq> []"
    using global_defaults_set [of g] unfolding c by (simp_all add: apply_consumer_defaults_def)
  have "\<exists>n\<le>99. cc_max_retries c = Some n"
    using v set(1) by (auto simp: validate_consumer_def Let_def retries_outside_def)
  moreover have "\<not> is_blank (cc_name c)" "\<not> is_blank (cc_topic c)"
    "cc_auto_offset_reset c \<in> {[], ''earliest'', ''latest''}" "cc_readiness_timeout c \<le> 600"
    using v by (simp_all add: validate_consumer_def Let_def)
  moreover have "cc_max_backoff c > 0 \<longrightarrow> cc_initial_backoff c \<le> cc_max_backoff c"
    using v unfolding validate_consumer_def Let_def first_error_None failing_None not_less [symmetric] by blast
  moreover have "cc_enable_dlq c \<longrightarrow> cc_dlq_topic c \<noteq> cc_topic c"
    using v unfolding validate_consumer_def Let_def first_error_None failing_None by metis
  moreover have "\<not> positive_outside (1 * second) (5 * minute) (cc_max_backoff c)
      \<and> \<not> positive_outside (1 * second) (10 * minute) (cc_processing_timeout c)
      \<and> \<not> positive_outside 10 10000 (cc_channel_buffer c) \<and> \<not> positive_outside 1 10000 (cc_max_poll_records c)"
    using v unfolding validate_consumer_def Let_def first_error_None failing_None by blast
  ultimately show ?thesis
    using set unfolding sound_consumer_def by (auto dest: not_outside_le)
qed

lemma enumerate_all: "(\<forall>x \<in> set (map (\<lambda>(i, c). f i c) (enumerate n cs)). x = None) \<longleftrightarrow>
   (\<forall>i < length cs. f (n + i) (cs ! i) = None)"
  by (auto simp: in_set_enumerate_eq set_conv_nth nth_enumerate_eq)

lemma loaded_consumers_sound:
  assumes "load_config kafka_apply_defaults (validating kafka_validate) kafka_zero k key ov = Inr cfg"
  shows "list_all sound_consumer (cs_consumers (kc_consumers cfg))"
proof (unfold list_all_length, intro allI impI)
  note complete = kafka_cfg.loaded_complete [OF assms]
  from complete(2) have v: "kafka_validate cfg = None" by simp
  let ?g = "global_consumer_defaults (kc_consumers cfg)" and ?cs = "cs_consumers (kc_consumers cfg)"
  fix i assume i: "i < length ?cs"
  have "map (apply_consumer_defaults ?g) ?cs = ?cs"
    using arg_cong [OF complete(1), of "\<lambda>x. cs_consumers (kc_consumers x)"]
    by (simp add: kafka_apply_defaults_def Let_def global_consumer_defaults_def)
  then have "?cs ! i = apply_consumer_defaults ?g (?cs ! i)"
    using i by (metis nth_map)
  moreover have "validate_consumer i (?cs ! i) = None"
    using v i enumerate_all [of validate_consumer 0 ?cs]
    by (simp add: kafka_validate_def validate_individual_consumers_def first_error_all)
  ultimately show "sound_consumer (?cs ! i)" by (rule defaults_sound_consumer)
qed

text \<open>
  A Kafka configuration that \<^verbatim>\<open>Load\<close> returns has a broker, is a fixed point of the defaults and
  of loading, and every consumer in it is sound: named, with a topic, at most 99 retries set, no
  zero timeout or size and none above its bound, an initial backoff no longer than the maximal
  one, and a DLQ topic that is set and differs from its topic when the DLQ is enabled; the
  producer's settings are in their ranges.
\<close>

theorem kafka_loaded_config_sound:
  assumes "load_config kafka_apply_defaults (validating kafka_validate) kafka_zero k key ov = Inr cfg"
  shows "\<not> is_blank (kc_brokers cfg)
    \<and> load_config kafka_apply_defaults (validating kafka_validate) kafka_zero k key (Some cfg) = Inr cfg
    \<and> list_all sound_consumer (cs_consumers (kc_consumers cfg))
    \<and> pc_compression (kc_producer cfg) \<in> {''none'', ''snappy'', ''lz4'', ''zstd''}
    \<and> pc_linger (kc_producer cfg) \<noteq> 0 \<and> pc_linger (kc_producer cfg) \<le> second
    \<and> second \<le> pc_delivery_timeout (kc_producer cfg) \<and> pc_delivery_timeout (kc_producer cfg) \<le> 5 * minute
    \<and> 100 \<le> pc_max_buffered (kc_producer cfg) \<and> pc_max_buffered (kc_producer cfg) \<le> 1000000"
proof -
  note complete = kafka_cfg.loaded_complete [OF assms]
  from complete(2) have v: "kafka_validate cfg = None" by simp
  note sound = loaded_consumers_sound [OF assms]
  have p: "kc_producer cfg = producer_defaults (kc_producer cfg)"
    using arg_cong [OF complete(1), of kc_producer] by (simp add: kafka_apply_defaults_def Let_def)
  have "pc_linger (kc_producer cfg) \<noteq> 0 \<and> pc_compression (kc_producer cfg) \<noteq> [] \<and>
      pc_delivery_timeout (kc_producer cfg) \<noteq> 0 \<and> pc_max_buffered (kc_producer cfg) \<noteq> 0"
    by (subst p, subst p, subst p, subst p) (simp add: producer_defaults_def)
  moreover have "validate_producer_config (kc_producer cfg) = None" and "validate_brokers cfg = None"
    using v by (simp_all add: kafka_validate_def)
  ultimately show ?thesis
    using sound kafka_cfg.reload_fixpoint [OF assms]
    by (simp add: validate_producer_config_def validate_brokers_def)
qed

definition demo_consumer :: consumer_config where
  "demo_consumer = \<lparr>cc_name = ''orders'', cc_topic = ''orders'', cc_group_id = [],
     cc_auto_offset_reset = [], cc_enable_dlq = True, cc_dlq_topic = [], cc_readiness_timeout = 0,
     cc_fail_on_topic_error = False, cc_max_retries = None, cc_initial_backoff = 0,
     cc_max_backoff = 0, cc_processing_timeout = 0, cc_channel_buffer = -1, cc_max_poll_records = 0\<rparr>"

definition demo_kafka :: kafka_config where
  "demo_kafka = kafka_zero\<lparr>kc_brokers := ''b:9092'',
     kc_consumers := (kc_consumers kafka_zero)\<lparr>cs_consumers := [demo_consumer]\<rparr>\<rparr>"

lemma demo_letters [simp]: "\<not> is_blank (CHR ''o'' # cs)" "\<not> is_blank (CHR ''b'' # cs)"
  by (simp_all add: is_blank_letter)

lemma demo_kafka_loads:
  "load_config kafka_apply_defaults (validating kafka_validate) kafka_zero k key (Some demo_kafka)
     = Inr (kafka_apply_defaults demo_kafka)"
proof -
  have "kafka_validate (kafka_apply_defaults demo_kafka) = None"
    by (simp add: kafka_validate_def validate_brokers_def validate_global_consumer_config_def
        validate_individual_consumers_def validate_producer_config_def validate_consumer_def Let_def
        kafka_apply_defaults_def global_consumer_defaults_def producer_defaults_def apply_consumer_defaults_def
        demo_kafka_def demo_consumer_def kafka_zero_def if_zero_def if_empty_def
        positive_outside_def retries_outside_def)
  then show ?thesis by (simp add: load_config_override validating_def)
qed

theorem kafka_loaded_config_sound_witness:
  "list_all sound_consumer (cs_consumers (kc_consumers (kafka_apply_defaults demo_kafka)))"
  using kafka_loaded_config_sound [OF demo_kafka_loads] by simp

text \<open>
  A consumer whose channel buffer size is negative passes \<^verbatim>\<open>Load\<close> unchanged, because the bounds
  are checked for positive values only.
\<close>

theorem kafka_negative_buffer_accepted:
  "\<exists>cfg. load_config kafka_apply_defaults (validating kafka_validate) kafka_zero k key (Some demo_kafka) = Inr cfg
     \<and> map cc_channel_buffer (cs_consumers (kc_consumers cfg)) = [-1]"
  unfolding demo_kafka_loads
  by (simp add: kafka_apply_defaults_def global_consumer_defaults_def apply_consumer_defaults_def
      demo_kafka_def demo_consumer_def kafka_zero_def if_zero_def Let_def)

end
