(* ===== verification/Startup.thy ===== *)
theory Startup
  imports Readiness Kafka_Config
begin

section \<open>Starting the application's components\<close>

text \<open>
  The start hooks the modules append (\<^verbatim>\<open>kafka/consumer/fxconfig\<close>, \<^verbatim>\<open>kafka/producer/fxconfig\<close>,
  \<^verbatim>\<open>kafka/outbox/fxconfig\<close>, \<^verbatim>\<open>mongo/fxconfig\<close>): each module registers a component when it is built,
  and its hook marks it ready when its check succeeds. The container runs the hooks in order and stops
  at the first error. The clients' answers are parameters.
\<close>

subsection \<open>Checks of the Kafka clients\<close>

definition get_consumer_config :: "kafka_config \<Rightarrow> string \<Rightarrow> (go_error, consumer_config) result" where
  "get_consumer_config conf consumerName =
     (case List.find (\<lambda>c. cc_name c = consumerName) (cs_consumers (kc_consumers conf)) of
        Some c \<Rightarrow> Inr c
      | None \<Rightarrow> Inl (New_error (''no consumer config found for consumer name: '' @ consumerName)))"

record topic_detail =
  td_err :: "go_error option"
  td_partitions :: nat

text \<open>\<open>topics\<close> is the answer of \<^verbatim>\<open>ListTopics\<close>.\<close>

definition verify_topic_available :: "(go_error, (string, topic_detail) go_map) result \<Rightarrow> string \<Rightarrow> go_error option" where
  "verify_topic_available topics topic =
     (case topics of
        Inl err \<Rightarrow> Some (Wrapf ''failed to get topic metadata: '' err [])
      | Inr topics \<Rightarrow>
          (case map_of topics topic of
             None \<Rightarrow> Some (New_error (''topic '' @ topic @ '' not found in metadata''))
           | Some topicDetail \<Rightarrow>
               (case td_err topicDetail of
                  Some err \<Rightarrow> Some (Wrapf (''topic '' @ topic @ '' has error: '') err [])
                | None \<Rightarrow> if td_partitions topicDetail = 0 then Some (New_error (''topic '' @ topic @ '' has no partitions''))
                          else None)))"

datatype compression = Snappy | Lz4 | Zstd | No_compression

definition compression_codec :: "string \<Rightarrow> compression" where
  "compression_codec name =
     (if name = ''snappy'' then Snappy else if name = ''lz4'' then Lz4 else if name = ''zstd'' then Zstd
      else if name = ''none'' then No_compression else No_compression)"

text \<open>
  The polling loop, with fuel, from the moment \<open>now\<close>: \<open>ctx\<close> is the error of the context at a moment, \<open>list_brokers ctx t\<close> what
  \<^verbatim>\<open>ListBrokers\<close> called at \<open>t\<close> returns and when, and \<open>sleep d t\<close> when a \<^verbatim>\<open>time.Sleep\<close> of \<open>d\<close> that begins at \<open>t\<close> ends. The result is the error
  and the moment of the return.
\<close>

type_synonym broker_lister = "(time \<Rightarrow> go_error option) \<Rightarrow> time \<Rightarrow> (go_error, nat) result \<times> time"

fun poll_brokers :: "nat \<Rightarrow> (time \<Rightarrow> go_error option) \<Rightarrow> broker_lister \<Rightarrow> (duration \<Rightarrow> time \<Rightarrow> time) \<Rightarrow> time
    \<Rightarrow> (go_error option \<times> time) option" where
  "poll_brokers 0 ctx list_brokers sleep now = None"
| "poll_brokers (Suc fuel) ctx list_brokers sleep now =
     (case ctx now of
        Some err \<Rightarrow> Some (Some err, now)
      | None \<Rightarrow>
          (case list_brokers ctx now of
             (Inr brokers, now') \<Rightarrow>
               if brokers > 0 then Some (None, now')
               else poll_brokers fuel ctx list_brokers sleep (sleep (500 * millisecond) now')
           | (Inl err, now') \<Rightarrow> poll_brokers fuel ctx list_brokers sleep (sleep (500 * millisecond) now')))"

text \<open>\<open>with_limit\<close> is \<^verbatim>\<open>context.WithTimeout\<close> called now, or the given context; the multiplication of durations wraps.\<close>

definition wait_for_brokers :: "nat \<Rightarrow> (duration option \<Rightarrow> time \<Rightarrow> go_error option) \<Rightarrow> broker_lister \<Rightarrow> (duration \<Rightarrow> time \<Rightarrow> time)
    \<Rightarrow> int \<Rightarrow> bool \<Rightarrow> time \<Rightarrow> (go_error option \<times> time) option" where
  "wait_for_brokers fuel with_limit list_brokers sleep timeoutSec failOnError now =
     (let limit = (if timeoutSec > 0 then Some (wrap64 (timeoutSec * second)) else None)
      in map_option (\<lambda>(r, now'). (case r of Some err \<Rightarrow> if failOnError then Some err else None | None \<Rightarrow> None, now'))
           (poll_brokers fuel (with_limit limit) list_brokers sleep now))"

text \<open>The moments at which the iterations begin, while no broker answers.\<close>

fun poll_time :: "(time \<Rightarrow> go_error option) \<Rightarrow> broker_lister \<Rightarrow> (duration \<Rightarrow> time \<Rightarrow> time) \<Rightarrow> time \<Rightarrow> nat \<Rightarrow> time" where
  "poll_time ctx list_brokers sleep now 0 = now"
| "poll_time ctx list_brokers sleep now (Suc n) =
     sleep (500 * millisecond) (snd (list_brokers ctx (poll_time ctx list_brokers sleep now n)))"

definition broker_answers :: "(time \<Rightarrow> go_error option) \<Rightarrow> broker_lister \<Rightarrow> time \<Rightarrow> bool" where
  "broker_answers ctx list_brokers t = (case fst (list_brokers ctx t) of Inr brokers \<Rightarrow> brokers > 0 | Inl _ \<Rightarrow> False)"

lemma poll_brokers_step:
  "poll_brokers (Suc fuel) ctx lb sleep t =
     (if ctx t \<noteq> None then Some (ctx t, t)
      else if broker_answers ctx lb t then Some (None, snd (lb ctx t))
      else poll_brokers fuel ctx lb sleep (sleep (500 * millisecond) (snd (lb ctx t))))"
  by (cases "lb ctx t") (auto simp: broker_answers_def split: option.splits sum.splits)

lemma poll_brokers_returns:
  assumes "ctx (poll_time ctx lb sleep now n) \<noteq> None" and "k \<le> n"
  shows "\<exists>r. poll_brokers (Suc (n - k)) ctx lb sleep (poll_time ctx lb sleep now k) = Some r"
  using assms(2)
proof (induction "n - k" arbitrary: k)
  case 0
  then have "k = n" by simp
  with assms(1) show ?case by (simp add: poll_brokers_step del: poll_brokers.simps)
next
  case (Suc m)
  then have IH: "\<exists>r. poll_brokers (Suc (n - Suc k)) ctx lb sleep (poll_time ctx lb sleep now (Suc k)) = Some r"
    by (intro Suc(1)) auto
  have "n - k = Suc (n - Suc k)" using Suc by simp
  with IH show ?case
    by (subst poll_brokers_step) (simp del: poll_brokers.simps)
qed

lemma poll_brokers_result:
  "poll_brokers fuel ctx lb sleep (poll_time ctx lb sleep now k) = Some (r, finished) \<Longrightarrow>
     \<exists>n \<ge> k. (\<forall>j. k \<le> j \<longrightarrow> j < n \<longrightarrow> ctx (poll_time ctx lb sleep now j) = None
         \<and> \<not> broker_answers ctx lb (poll_time ctx lb sleep now j))
       \<and> (case r of
            Some err \<Rightarrow> finished = poll_time ctx lb sleep now n \<and> ctx finished = Some err
          | None \<Rightarrow> ctx (poll_time ctx lb sleep now n) = None \<and> broker_answers ctx lb (poll_time ctx lb sleep now n)
              \<and> finished = snd (lb ctx (poll_time ctx lb sleep now n)))"
proof (induction fuel arbitrary: k)
  case (Suc fuel)
  let ?t = "poll_time ctx lb sleep now"
  show ?case
  proof (cases "ctx (?t k) = None \<and> \<not> broker_answers ctx lb (?t k)")
    case True
    with Suc.prems have "poll_brokers fuel ctx lb sleep (?t (Suc k)) = Some (r, finished)"
      by (simp add: poll_brokers_step del: poll_brokers.simps)
    from Suc.IH [OF this] obtain n where n: "n \<ge> Suc k"
      "\<forall>j. Suc k \<le> j \<longrightarrow> j < n \<longrightarrow> ctx (?t j) = None \<and> \<not> broker_answers ctx lb (?t j)"
      "case r of Some err \<Rightarrow> finished = ?t n \<and> ctx finished = Some err
        | None \<Rightarrow> ctx (?t n) = None \<and> broker_answers ctx lb (?t n) \<and> finished = snd (lb ctx (?t n))" by blast
    have "ctx (?t j) = None \<and> \<not> broker_answers ctx lb (?t j)" if "k \<le> j" "j < n" for j
      using that True n(2) [rule_format, of j] by (cases "j = k") (auto simp: Suc_le_eq)
    with n(1,3) show ?thesis by (intro exI [of _ n]) auto
  next
    case False
    with Suc.prems show ?thesis
      by (intro exI [of _ k]) (auto simp: poll_brokers_step simp del: poll_brokers.simps split: if_splits option.splits)
  qed
qed simp

text \<open>
  C39. Waiting for the brokers with a timeout of \<open>T\<close> seconds ends, after at most \<open>2 T + 1\<close> iterations; but it may exceed its timeout, by the
  time a \<^verbatim>\<open>ListBrokers\<close> takes to return after its context finished (\<open>slack\<close>) and one sleep of half a second with the time it wakes
  up late (\<open>late\<close>). It returns an error only if it must fail on errors, then the context's, and no broker had answered in any
  iteration; if it must fail on errors, it returns nil only when a broker answered.
\<close>

theorem wait_for_brokers_returns:
  assumes T: "0 < timeoutSec" "timeoutSec \<le> 9223372036"
    and ctx: "ctx = with_limit (Some (timeoutSec * second))"
    and deadline: "\<And>t. now + timeoutSec * second \<le> t \<Longrightarrow> ctx t \<noteq> None"
    and lists: "\<And>t. t \<le> snd (list_brokers ctx t) \<and> snd (list_brokers ctx t) \<le> max t (now + timeoutSec * second) + slack"
    and sleeps: "\<And>d t. t + d \<le> sleep d t \<and> sleep d t \<le> t + d + late"
  shows "\<exists>r finished. wait_for_brokers (Suc (2 * nat timeoutSec)) with_limit list_brokers sleep timeoutSec failOnError now = Some (r, finished)
    \<and> now \<le> finished \<and> finished \<le> now + timeoutSec * second + slack + 500 * millisecond + late
    \<and> (r \<noteq> None \<longrightarrow> failOnError \<and> ctx finished = r \<and> (\<exists>n. finished = poll_time ctx list_brokers sleep now n
         \<and> (\<forall>j < n. \<not> broker_answers ctx list_brokers (poll_time ctx list_brokers sleep now j))))
    \<and> (r = None \<and> failOnError \<longrightarrow> (\<exists>n. broker_answers ctx list_brokers (poll_time ctx list_brokers sleep now n)))"
proof -
  let ?t = "poll_time ctx list_brokers sleep now" and ?D = "now + timeoutSec * second"
  have w: "wrap64 (timeoutSec * second) = timeoutSec * second" using T by (intro wrap64_id) simp
  have wait: "0 \<le> slack" "0 \<le> late" using lists [of ?D] sleeps [of ?D 0] by auto
  have later: "now + int n * (500 * millisecond) \<le> ?t n" for n
  proof (induction n)
    case (Suc n)
    with lists [of "?t n"] sleeps [of "snd (list_brokers ctx (?t n))" "500 * millisecond"] show ?case
      by (simp add: algebra_simps)
  qed simp
  have "?D \<le> ?t (2 * nat timeoutSec)" using later [of "2 * nat timeoutSec"] T(1) by simp
  from poll_brokers_returns [where k = 0 and n = "2 * nat timeoutSec" and ctx = ctx and lb = list_brokers and sleep = sleep and now = now,
      OF deadline [OF this]] obtain r finished where
    run: "poll_brokers (Suc (2 * nat timeoutSec)) ctx list_brokers sleep now = Some (r, finished)" by auto
  from poll_brokers_result [where k = 0 and now = now, simplified poll_time.simps, OF run] obtain n where
    n: "\<forall>j < n. ctx (?t j) = None \<and> \<not> broker_answers ctx list_brokers (?t j)"
      "case r of Some err \<Rightarrow> finished = ?t n \<and> ctx finished = Some err
        | None \<Rightarrow> ctx (?t n) = None \<and> broker_answers ctx list_brokers (?t n) \<and> finished = snd (list_brokers ctx (?t n))" by auto
  have early: "ctx (?t j) = None \<Longrightarrow> snd (list_brokers ctx (?t j)) \<le> ?D + slack" for j
    using deadline [of "?t j"] lists [of "?t j"] by (cases "?D \<le> ?t j") auto
  have start: "?t n \<le> ?D + slack + 500 * millisecond + late"
  proof (cases n)
    case 0
    then show ?thesis using T wait by simp
  next
    case (Suc m)
    with n(1) early [of m] sleeps [of "snd (list_brokers ctx (?t m))" "500 * millisecond"] show ?thesis by simp
  qed
  have bound: "now \<le> finished \<and> finished \<le> ?D + slack + 500 * millisecond + late"
  proof (cases r)
    case None
    with n(2) have "finished = snd (list_brokers ctx (?t n))" "ctx (?t n) = None" by auto
    with early [of n] lists [of "?t n"] later [of n] wait(2) show ?thesis by simp
  next
    case (Some err)
    with n(2) start later [of n] show ?thesis by simp
  qed
  let ?out = "case r of Some err \<Rightarrow> if failOnError then Some err else None | None \<Rightarrow> None"
  have "wait_for_brokers (Suc (2 * nat timeoutSec)) with_limit list_brokers sleep timeoutSec failOnError now = Some (?out, finished)"
    using T(1) run by (simp add: wait_for_brokers_def w ctx del: poll_brokers.simps)
  moreover have "?out \<noteq> None \<Longrightarrow> failOnError \<and> ctx finished = ?out \<and> (\<exists>n. finished = ?t n \<and> (\<forall>j < n. \<not> broker_answers ctx list_brokers (?t j)))"
    using n by (cases r) (auto split: if_splits)
  moreover have "?out = None \<Longrightarrow> failOnError \<Longrightarrow> \<exists>n. broker_answers ctx list_brokers (?t n)"
    using n(2) by (cases r) auto
  ultimately show ?thesis using bound by (intro exI [of _ ?out] exI [of _ finished] conjI) auto
qed

text \<open>A cluster whose broker answers from the second second on, after a tenth of a second; sleeps are exact.\<close>

definition slow_cluster :: broker_lister where
  "slow_cluster ctx t = (Inr (if 2 * second \<le> t then 1 else 0), t + 100 * millisecond)"

definition limited :: "duration option \<Rightarrow> time \<Rightarrow> go_error option" where
  "limited limit t = (case limit of None \<Rightarrow> None | Some d \<Rightarrow> if d \<le> t then Some (Sentinel ContextDeadlineExceeded) else None)"

lemma wait_for_brokers_returns_witness:
  "\<exists>r finished. wait_for_brokers (Suc (2 * nat 1)) limited slow_cluster (\<lambda>d t. t + d) 1 True 0 = Some (r, finished)
     \<and> finished \<le> 1600 * millisecond"
proof -
  have deadline: "\<And>t. 0 + 1 * second \<le> t \<Longrightarrow> limited (Some (1 * second)) t \<noteq> None" by (simp add: limited_def)
  have lists: "\<And>t. t \<le> snd (slow_cluster (limited (Some (1 * second))) t)
      \<and> snd (slow_cluster (limited (Some (1 * second))) t) \<le> max t (0 + 1 * second) + 100 * millisecond"
    by (simp add: slow_cluster_def)
  from wait_for_brokers_returns [where timeoutSec = 1 and now = 0 and late = 0 and sleep = "\<lambda>d t. t + d" and failOnError = True
      and with_limit = limited and list_brokers = slow_cluster and slack = "100 * millisecond" and ctx = "limited (Some (1 * second))",
      OF _ _ refl deadline lists] show ?thesis by auto
qed

subsection \<open>The start hooks\<close>

text \<open>
  A hook ends by marking its component ready, or returns its check's error. A consumer's check may be
  configured not to fail.
\<close>

definition finish_hook :: "time \<Rightarrow> marker \<Rightarrow> go_error option \<Rightarrow> readiness \<Rightarrow> (go_error option \<times> readiness) may_panic" where
  "finish_hook now markReady err r =
     (case err of
        Some e \<Rightarrow> Inr (Some e, r)
      | None \<Rightarrow> and_then (mark_ready now markReady r) (\<lambda>r'. Inr (None, r')))"

definition consumer_check :: "consumer_config \<Rightarrow> (go_error, (string, topic_detail) go_map) result \<Rightarrow> go_error option" where
  "consumer_check conf topics =
     (case verify_topic_available topics (cc_topic conf) of
        Some err \<Rightarrow> if cc_fail_on_topic_error conf then Some err else None
      | None \<Rightarrow> None)"

definition consumer_component :: "consumer_config \<Rightarrow> string" where
  "consumer_component conf = ''kafka-consumer-'' @ cc_name conf"

definition mongo_check :: "go_error option \<Rightarrow> go_error option" where
  "mongo_check ping = map_option (\<lambda>err. Wrapf ''failed to ping mongo: '' err []) ping"

text \<open>\<open>ensured\<close> is what \<^verbatim>\<open>EnsureIndexes\<close>, and \<open>migrated\<close> what the migration runner returns.\<close>

definition outbox_schema_check :: "go_error option \<Rightarrow> go_error option" where
  "outbox_schema_check ensured = (case ensured of Some err \<Rightarrow> Some err | None \<Rightarrow> None)"

definition migrations_check :: "go_error option \<Rightarrow> go_error option" where
  "migrations_check migrated = (case migrated of Some err \<Rightarrow> Some err | None \<Rightarrow> None)"

definition producer_check :: "go_error option \<Rightarrow> go_error option" where
  "producer_check waited = (case waited of Some err \<Rightarrow> Some err | None \<Rightarrow> None)"

text \<open>The container: building registers the components, starting runs the hooks until one fails.\<close>

fun register_components :: "time \<Rightarrow> string list \<Rightarrow> readiness \<Rightarrow> (marker list \<times> readiness) may_panic" where
  "register_components now [] r = Inr ([], r)"
| "register_components now (name # names) r =
     and_then (add_component now name r) (\<lambda>(m, r').
       and_then (register_components now names r') (\<lambda>(ms, r''). Inr (m # ms, r'')))"

type_synonym 's start_hook = "time \<times> marker \<times> ('s \<Rightarrow> go_error option \<times> 's)"

fun run_start_hooks :: "'s start_hook list \<Rightarrow> 's \<Rightarrow> readiness \<Rightarrow> (go_error option \<times> 's \<times> readiness) may_panic" where
  "run_start_hooks [] s r = Inr (None, s, r)"
| "run_start_hooks ((now, markReady, check) # hooks) s r =
     (case check s of (err, s') \<Rightarrow>
        and_then (finish_hook now markReady err r) (\<lambda>(e, r').
          case e of Some e \<Rightarrow> Inr (Some e, s', r') | None \<Rightarrow> run_start_hooks hooks s' r'))"

subsection \<open>Readiness after the start\<close>

text \<open>Which components are registered and which of them are ready.\<close>

definition registered :: "readiness \<Rightarrow> string set \<Rightarrow> string set \<Rightarrow> bool" where
  "registered r names done \<longleftrightarrow> readiness_inv r \<and> fst ` set (components r) = names
     \<and> (\<forall>n c. map_of (components r) n = Some c \<longrightarrow> (comp_ready c \<longleftrightarrow> n \<in> done))
     \<and> (is_ready r \<longleftrightarrow> names \<noteq> {} \<and> names \<subseteq> done)"

lemma all_ready_registered:
  assumes "distinct (map_keys (components r))" and "fst ` set (components r) = names"
    and "\<forall>n c. map_of (components r) n = Some c \<longrightarrow> (comp_ready c \<longleftrightarrow> n \<in> done)"
  shows "all_ready r \<longleftrightarrow> names \<noteq> {} \<and> names \<subseteq> done"
proof -
  have "list_all (\<lambda>(n, c). comp_ready c) (components r) \<longleftrightarrow> names \<subseteq> done"
    using assms by (fastforce simp: list_all_iff)
  moreover have "components r = [] \<longleftrightarrow> names = {}" using assms(2) by auto
  ultimately show ?thesis by (simp add: all_ready_def)
qed

lemma mark_registered:
  assumes "registered r names done" and "name \<in> names"
  shows "\<exists>r'. mark_ready now (Marker name) r = Inr r' \<and> registered r' names (insert name done)"
proof -
  have inv: "readiness_inv r" and names: "fst ` set (components r) = names"
    and rd: "\<forall>n c. map_of (components r) n = Some c \<longrightarrow> (comp_ready c \<longleftrightarrow> n \<in> done)"
    and closed: "is_ready r \<longleftrightarrow> names \<noteq> {} \<and> names \<subseteq> done"
    using assms(1) by (simp_all add: registered_def)
  obtain c where c: "map_of (components r) name = Some c"
    using assms(2) names by (metis map_of_eq_None_iff not_None_eq)
  from mark_ready_total [OF inv c, of now] obtain r' where r': "mark_ready now (Marker name) r = Inr r'" "readiness_inv r'"
    "ready_closed r' \<longleftrightarrow> ready_closed r \<or> all_ready r'" "fst ` set (components r') = fst ` set (components r)"
    "\<forall>n. n \<noteq> name \<longrightarrow> map_of (components r') n = map_of (components r) n" by blast
  have self: "\<exists>c'. map_of (components r') name = Some c' \<and> comp_ready c'"
    using r'(1) c by (auto simp: Let_def close_ready_once_def and_then_Inr split: if_splits)
  have rd': "\<forall>n c. map_of (components r') n = Some c \<longrightarrow> (comp_ready c \<longleftrightarrow> n \<in> insert name done)"
  proof (intro allI impI)
    fix n d assume d: "map_of (components r') n = Some d"
    show "comp_ready d \<longleftrightarrow> n \<in> insert name done"
      using d self r'(5) rd by (cases "n = name") auto
  qed
  have dist: "distinct (map_keys (components r'))" using r'(2) by (simp add: readiness_inv_def)
  have "all_ready r' \<longleftrightarrow> names \<noteq> {} \<and> names \<subseteq> insert name done"
    using all_ready_registered [OF dist _ rd'] r'(4) names by simp
  with r' names rd' closed show ?thesis by (auto simp: registered_def is_ready_def)
qed

lemma add_registered:
  assumes "registered r names {}" and "name \<noteq> []" and "name \<notin> names"
  shows "\<exists>r'. add_component now name r = Inr (Marker name, r') \<and> registered r' (insert name names) {}"
proof -
  have none: "map_of (components r) name = None"
    using assms(1,3) by (auto simp: registered_def map_of_eq_None_iff)
  let ?r = "r\<lparr>components := map_put name \<lparr>comp_name = name, comp_ready = False, comp_started = Some now, comp_readyAt = None\<rparr> (components r)\<rparr>"
  have add: "add_component now name r = Inr (Marker name, ?r)" using assms(2) none by (simp add: add_component_def)
  have inv: "readiness_inv r" using assms(1) by (simp add: registered_def)
  from add_component_inv [OF inv add] assms(1) have "registered ?r (insert name names) {}"
    by (auto simp: registered_def is_ready_def split: if_splits)
  with add show ?thesis by blast
qed

lemma register_all:
  assumes "registered r names {}" and "distinct ns" and "\<forall>n \<in> set ns. n \<noteq> [] \<and> n \<notin> names"
  shows "\<exists>r'. register_components now ns r = Inr (map Marker ns, r') \<and> registered r' (set ns \<union> names) {}"
  using assms
proof (induction ns arbitrary: r names)
  case (Cons n ns)
  from add_registered [OF Cons.prems(1), of n now] Cons.prems(3) obtain r1 where
    r1: "add_component now n r = Inr (Marker n, r1)" "registered r1 (insert n names) {}" by auto
  from Cons.IH [OF r1(2)] Cons.prems(2,3) obtain r2 where
    "register_components now ns r1 = Inr (map Marker ns, r2)" "registered r2 (set ns \<union> insert n names) {}" by auto
  with r1(1) show ?case by simp
qed simp

text \<open>The checks of the hooks, in order, until one fails.\<close>

fun run_checks :: "('s \<Rightarrow> go_error option \<times> 's) list \<Rightarrow> 's \<Rightarrow> go_error option \<times> 's" where
  "run_checks [] s = (None, s)"
| "run_checks (check # checks) s = (case check s of (Some e, s') \<Rightarrow> (Some e, s') | (None, s') \<Rightarrow> run_checks checks s')"

definition hooks_outcome :: "string set \<Rightarrow> string set \<Rightarrow> string list \<Rightarrow> go_error option \<Rightarrow> readiness \<Rightarrow> bool" where
  "hooks_outcome names done ns err r' \<longleftrightarrow>
     (\<exists>k \<le> length ns. registered r' names (done \<union> set (take k ns)) \<and> (err = None \<longleftrightarrow> k = length ns))"

lemma run_hooks_registered:
  assumes "registered r names done" and "set ns \<subseteq> names" and "length checks = length ns" and "length clock = length ns"
  shows "\<exists>r'. run_start_hooks (zip clock (zip (map Marker ns) checks)) s r
      = Inr (fst (run_checks checks s), snd (run_checks checks s), r')
    \<and> hooks_outcome names done ns (fst (run_checks checks s)) r'"
  using assms
proof (induction ns arbitrary: clock checks s r "done")
  case Nil
  then show ?case by (simp add: hooks_outcome_def)
next
  case (Cons n ns)
  obtain check rest where checks: "checks = check # rest" "length rest = length ns"
    using Cons.prems(3) that by (cases checks) (simp, simp)
  obtain t ts where clock: "clock = t # ts" "length ts = length ns"
    using Cons.prems(4) that by (cases clock) (simp, simp)
  note lists = checks(1) clock(1) checks(2) clock(2)
  obtain e s' where e: "check s = (e, s')" by (cases "check s")
  show ?case
  proof (cases e)
    case (Some err)
    have "hooks_outcome names done (n # ns) (Some err) r"
      unfolding hooks_outcome_def using Cons.prems(1) by (intro exI [of _ 0]) simp
    with Some lists e show ?thesis by (simp add: finish_hook_def)
  next
    case None
    from mark_registered [OF Cons.prems(1), of n t] Cons.prems(2) obtain r1 where
      r1: "mark_ready t (Marker n) r = Inr r1" "registered r1 names (insert n done)" by auto
    have "set ns \<subseteq> names" using Cons.prems(2) by simp
    from Cons.IH [OF r1(2) this lists(3,4), of s'] obtain r2 where
      r2: "run_start_hooks (zip ts (zip (map Marker ns) rest)) s' r1
          = Inr (fst (run_checks rest s'), snd (run_checks rest s'), r2)"
        "hooks_outcome names (insert n done) ns (fst (run_checks rest s')) r2" by blast
    have "hooks_outcome names done (n # ns) (fst (run_checks rest s')) r2"
    proof -
      from r2(2) obtain k where k: "k \<le> length ns" "registered r2 names (insert n done \<union> set (take k ns))"
        "fst (run_checks rest s') = None \<longleftrightarrow> k = length ns" 
        unfolding hooks_outcome_def by (elim exE conjE) (rule that)
      have "insert n done \<union> set (take k ns) = done \<union> set (take (Suc k) (n # ns))" by auto
      from k(2) [unfolded this] have "registered r2 names (done \<union> set (take (Suc k) (n # ns)))" .
      moreover have "Suc k \<le> length (n # ns)" using k(1) by simp
      moreover have "fst (run_checks rest s') = None \<longleftrightarrow> Suc k = length (n # ns)" unfolding k(3) by simp
      ultimately show ?thesis unfolding hooks_outcome_def by (rule_tac x = "Suc k" in exI) (intro conjI)
    qed
    with r2(1) None lists e r1(1) show ?thesis by (simp add: finish_hook_def)
  qed
qed

text \<open>
  C15. Registering the components and running their start hooks never panics, runs the checks in order
  until one fails and returns its error; and the application is ready afterwards exactly when every
  check succeeded. After a failure the components from the failing one on are not ready.
\<close>

theorem startup_ready_iff_all_started:
  assumes "distinct names" and "names \<noteq> []" and "[] \<notin> set names"
    and "length checks = length names" and "length clock = length names"
  shows "\<exists>r r'. register_components now names (new_readiness kube) = Inr (map Marker names, r)
    \<and> run_start_hooks (zip clock (zip (map Marker names) checks)) s r
        = Inr (fst (run_checks checks s), snd (run_checks checks s), r')
    \<and> (is_ready r' \<longleftrightarrow> fst (run_checks checks s) = None)
    \<and> (fst (run_checks checks s) \<noteq> None \<longrightarrow> (\<exists>k < length names. \<forall>n c. map_of (components r') n = Some c \<longrightarrow>
         (comp_ready c \<longleftrightarrow> n \<in> set (take k names))))"
proof -
  have "registered (new_readiness kube) {} {}"
    using readiness_inv_new by (simp add: registered_def is_ready_def) (simp add: new_readiness_def)
  from register_all [OF this assms(1), of now] assms(3) obtain r where
    r: "register_components now names (new_readiness kube) = Inr (map Marker names, r)" "registered r (set names) {}"
    by auto
  from run_hooks_registered [OF r(2) _ assms(4,5), of s] obtain r' where
    r': "run_start_hooks (zip clock (zip (map Marker names) checks)) s r
        = Inr (fst (run_checks checks s), snd (run_checks checks s), r')"
      "hooks_outcome (set names) {} names (fst (run_checks checks s)) r'" by auto
  then obtain k where k: "k \<le> length names" "registered r' (set names) (set (take k names))"
    "fst (run_checks checks s) = None \<longleftrightarrow> k = length names" by (auto simp: hooks_outcome_def)
  have part: "\<not> set names \<subseteq> set (take k names)" if "k < length names"
  proof -
    have "card (set (take k names)) < card (set names)"
      using assms(1) that by (simp add: distinct_card distinct_card [OF distinct_take])
    then show ?thesis by (meson List.finite_set card_mono not_less)
  qed
  have "is_ready r' \<longleftrightarrow> set names \<subseteq> set (take k names)" using k(2) assms(2) by (simp add: registered_def)
  then have "is_ready r' \<longleftrightarrow> fst (run_checks checks s) = None" using k(1,3) part by (cases "k = length names") auto
  moreover have "\<exists>k < length names. \<forall>n c. map_of (components r') n = Some c \<longrightarrow> (comp_ready c \<longleftrightarrow> n \<in> set (take k names))"
    if "fst (run_checks checks s) \<noteq> None"
    using k that unfolding registered_def by (intro exI [of _ k]) auto
  ultimately show ?thesis using r(1) r'(1) by (intro exI [of _ r] exI [of _ r'] conjI impI) blast+
qed

lemma startup_ready_iff_all_started_witness:
  "\<exists>r r'. register_components 0 [''mongo-module'', ''migrations''] (new_readiness True)
      = Inr ([Marker ''mongo-module'', Marker ''migrations''], r)
    \<and> run_start_hooks [(1, Marker ''mongo-module'', \<lambda>s :: unit. (mongo_check None, s)),
        (2, Marker ''migrations'', \<lambda>s. (migrations_check (Some (New_error ''dirty'')), s))] () r
      = Inr (Some (New_error ''dirty''), (), r') \<and> \<not> is_ready r'"
  using startup_ready_iff_all_started [of "[''mongo-module'', ''migrations'']"
    "[\<lambda>s :: unit. (mongo_check None, s), \<lambda>s. (migrations_check (Some (New_error ''dirty'')), s)]" "[1, 2]" 0 True "()"]
  by (auto simp: mongo_check_def migrations_check_def)

end
