(* ===== verification/Mongo_Config.thy ===== *)
theory Mongo_Config
  imports Core_Config
begin

section \<open>The MongoDB configuration (pkg/mongo/config.go)\<close>

text \<open>
  Defaults, validation, and the read and write concerns built from a validated configuration.
  The URI builders are in \<open>Mongo_Uri\<close>. The concern values are
  those of the driver's packages: a read concern is its level, a read preference is what the
  driver's \<^verbatim>\<open>readpref.New\<close> returns, a parameter.
\<close>

record write_concern_config =
  wcc_w :: string
  wcc_journal :: "bool option"

record read_preference_config =
  rpc_mode :: string
  rpc_max_staleness :: duration

text \<open>A \<^verbatim>\<open>uint64\<close> is a natural number; \<open>mc_read_concern\<close> is the one field of \<^verbatim>\<open>ReadConcernConfig\<close>.\<close>

record mongo_config =
  mc_connection_string :: string
  mc_host :: string
  mc_port :: int
  mc_replica_set :: string
  mc_username :: string
  mc_password :: string
  mc_database :: string
  mc_direct_connection :: bool
  mc_max_pool :: nat
  mc_min_pool :: nat
  mc_max_conn_idle :: duration
  mc_connect_timeout :: duration
  mc_server_select_timeout :: duration
  mc_query_timeout :: duration
  mc_write_concern :: write_concern_config
  mc_read_concern :: string
  mc_read_preference :: read_preference_config
  mc_migrations_enabled :: bool
  mc_migrations_path :: string

definition mongo_zero :: mongo_config where
  "mongo_zero = \<lparr>mc_connection_string = [], mc_host = [], mc_port = 0, mc_replica_set = [],
     mc_username = [], mc_password = [], mc_database = [], mc_direct_connection = False,
     mc_max_pool = 0, mc_min_pool = 0, mc_max_conn_idle = 0, mc_connect_timeout = 0,
     mc_server_select_timeout = 0, mc_query_timeout = 0,
     mc_write_concern = \<lparr>wcc_w = [], wcc_journal = None\<rparr>, mc_read_concern = [],
     mc_read_preference = \<lparr>rpc_mode = [], rpc_max_staleness = 0\<rparr>,
     mc_migrations_enabled = False, mc_migrations_path = []\<rparr>"

subsection \<open>Defaults and validation\<close>

definition mongo_apply_defaults :: "mongo_config \<Rightarrow> mongo_config" where
  [cfg_defs]: "mongo_apply_defaults c = c\<lparr>
     mc_port := if_zero 27017 (mc_port c),
     mc_max_pool := (if mc_max_pool c = 0 then 100 else mc_max_pool c),
     mc_min_pool := (if mc_min_pool c = 0 then 10 else mc_min_pool c),
     mc_max_conn_idle := if_zero (5 * minute) (mc_max_conn_idle c),
     mc_connect_timeout := if_zero (5 * second) (mc_connect_timeout c),
     mc_server_select_timeout := if_zero (5 * second) (mc_server_select_timeout c),
     mc_query_timeout := if_zero (10 * second) (mc_query_timeout c),
     mc_migrations_path := if_empty ''/db/migrations'' (mc_migrations_path c)\<rparr>"

text \<open>\<^verbatim>\<open>strconv.Atoi\<close>: an optional sign and at least one decimal digit, within 64 bits.\<close>

definition is_digit :: "char \<Rightarrow> bool" where
  "is_digit c \<longleftrightarrow> 48 \<le> (of_char c :: nat) \<and> (of_char c :: nat) \<le> 57"

definition digits_value :: "string \<Rightarrow> int" where
  "digits_value ds = fold (\<lambda>c n. 10 * n + (int (of_char c) - 48)) ds 0"

definition atoi :: "string \<Rightarrow> int option" where
  "atoi s =
     (let (sign, ds) =
        (case s of
           [] \<Rightarrow> (1, [])
         | c # cs \<Rightarrow> if c = CHR ''-'' then (-1, cs) else if c = CHR ''+'' then (1, cs) else (1, s))
      in if ds = [] \<or> \<not> list_all is_digit ds then None
         else (let v = sign * digits_value ds in if int64_range v then Some v else None))"

definition write_concern_validate :: "write_concern_config \<Rightarrow> go_error option" where
  [cfg_defs]: "write_concern_validate c =
     (if wcc_w c = [] then None
      else if wcc_w c = ''majority'' then None
      else failing (case atoi (wcc_w c) of None \<Rightarrow> True | Some n \<Rightarrow> n < 0)
        (''invalid write concern w '' @ quoted (wcc_w c) @ '': must be '' @ quoted ''majority''
         @ '' or a non-negative integer''))"

definition read_concern_levels :: "string list" where
  "read_concern_levels = [''local'', ''majority'', ''linearizable'', ''available'', ''snapshot'']"

definition read_concern_validate :: "string \<Rightarrow> go_error option" where
  [cfg_defs]: "read_concern_validate level =
     (if level = [] then None
      else failing (level \<notin> set read_concern_levels)
        (''invalid read concern level '' @ quoted level
         @ '': must be one of local, majority, linearizable, available, snapshot''))"

datatype read_mode =
  PrimaryMode | PrimaryPreferredMode | SecondaryMode | SecondaryPreferredMode | NearestMode

definition valid_read_preference_modes :: "(string, read_mode) go_map" where
  "valid_read_preference_modes =
     [(''primary'', PrimaryMode), (''primaryPreferred'', PrimaryPreferredMode),
      (''secondary'', SecondaryMode), (''secondaryPreferred'', SecondaryPreferredMode),
      (''nearest'', NearestMode)]"

definition read_preference_validate :: "read_preference_config \<Rightarrow> go_error option" where
  [cfg_defs]: "read_preference_validate c =
     (if rpc_mode c = [] then None
      else failing (map_of valid_read_preference_modes (rpc_mode c) = None)
        (''invalid read preference mode '' @ quoted (rpc_mode c)
         @ '': must be one of primary, primaryPreferred, secondary, secondaryPreferred, nearest''))"

definition mongo_validate :: "mongo_config \<Rightarrow> go_error option" where
  [cfg_defs]: "mongo_validate c = first_error [
     failing (mc_connection_string c = [] \<and> (mc_host c = [] \<or> mc_port c = 0 \<or> mc_database c = []))
       ''invalid Mongo configuration: host, port, and database are required'',
     write_concern_validate (mc_write_concern c),
     read_concern_validate (mc_read_concern c),
     read_preference_validate (mc_read_preference c)]"

interpretation mongo_cfg: configurable mongo_apply_defaults "validating mongo_validate"
  by (rule configurable_checked) (simp add: cfg_defs)

subsection \<open>Concerns and preferences\<close>

text \<open>The driver's \<^verbatim>\<open>WriteConcern.W\<close> is an int or a string, or nil.\<close>

datatype w_value = W_number int | W_tag string

definition build_write_concern :: "write_concern_config \<Rightarrow> (w_value option \<times> bool option) option" where
  "build_write_concern c =
     (if wcc_w c = [] \<and> wcc_journal c = None then None
      else Some
        (if wcc_w c \<noteq> [] then
           (case atoi (wcc_w c) of Some n \<Rightarrow> Some (W_number n) | None \<Rightarrow> Some (W_tag (wcc_w c)))
         else None,
         wcc_journal c))"

definition build_read_concern :: "string \<Rightarrow> string option" where
  "build_read_concern level =
     (if level = ''local'' then Some ''local''
      else if level = ''majority'' then Some ''majority''
      else if level = ''linearizable'' then Some ''linearizable''
      else if level = ''available'' then Some ''available''
      else if level = ''snapshot'' then Some ''snapshot''
      else None)"

text \<open>\<open>new_pref mode staleness\<close> is \<^verbatim>\<open>readpref.New\<close> with the staleness option, if any.\<close>

definition build_read_preference ::
  "(read_mode \<Rightarrow> duration option \<Rightarrow> ('e, 'rp) result) \<Rightarrow> read_preference_config \<Rightarrow> 'rp option" where
  "build_read_preference new_pref c =
     (case map_of valid_read_preference_modes (rpc_mode c) of
        None \<Rightarrow> None
      | Some mode \<Rightarrow>
          (case new_pref mode (if rpc_max_staleness c > 0 then Some (rpc_max_staleness c) else None) of
             Inl _ \<Rightarrow> None
           | Inr rp \<Rightarrow> Some rp))"

subsection \<open>Properties\<close>

text \<open>
  In a loaded MongoDB configuration no pool size or timeout is zero, and the concerns built
  from it are the configured ones: a write concern is never silently turned into another tag than
  majority or into a negative number, a read concern that is set is built, and so is a read
  preference whenever the driver accepts it.
\<close>

theorem mongo_loaded_concerns:
  assumes "load_config mongo_apply_defaults (validating mongo_validate) mongo_zero k key ov = Inr c"
  shows "0 < mc_max_pool c \<and> 0 < mc_min_pool c \<and> mc_query_timeout c \<noteq> 0 \<and> mc_connect_timeout c \<noteq> 0
    \<and> (wcc_w (mc_write_concern c) \<noteq> [] \<longrightarrow>
         (\<exists>w. build_write_concern (mc_write_concern c) = Some (Some w, wcc_journal (mc_write_concern c))
            \<and> (w = W_tag ''majority'' \<or> (\<exists>n \<ge> 0. w = W_number n))))
    \<and> (mc_read_concern c \<noteq> [] \<longrightarrow> build_read_concern (mc_read_concern c) = Some (mc_read_concern c))
    \<and> (rpc_mode (mc_read_preference c) \<noteq> [] \<longrightarrow> (\<forall>m s. \<exists>rp. new_pref m s = Inr rp) \<longrightarrow>
         build_read_preference new_pref (mc_read_preference c) \<noteq> None)"
proof -
  note complete = mongo_cfg.loaded_complete [OF assms]
  have d: "mongo_apply_defaults c = c" by (rule complete(1))
  have nz: "mc_max_pool c \<noteq> 0" "mc_min_pool c \<noteq> 0" "mc_query_timeout c \<noteq> 0" "mc_connect_timeout c \<noteq> 0"
    by (subst d [symmetric], simp add: mongo_apply_defaults_def)+
  from complete(2) have v: "write_concern_validate (mc_write_concern c) = None"
    "read_concern_validate (mc_read_concern c) = None" "read_preference_validate (mc_read_preference c) = None"
    by (simp_all add: mongo_validate_def)
  have majority: "atoi ''majority'' = None" by (simp add: atoi_def is_digit_def)
  have "\<exists>w. build_write_concern (mc_write_concern c) = Some (Some w, wcc_journal (mc_write_concern c))
      \<and> (w = W_tag ''majority'' \<or> (\<exists>n \<ge> 0. w = W_number n))" if "wcc_w (mc_write_concern c) \<noteq> []"
    using that v(1) majority
    by (cases "wcc_w (mc_write_concern c) = ''majority''")
      (auto simp: write_concern_validate_def build_write_concern_def not_less split: option.splits)
  moreover have "mc_read_concern c \<noteq> [] \<Longrightarrow> build_read_concern (mc_read_concern c) = Some (mc_read_concern c)"
    using v(2) unfolding read_concern_validate_def read_concern_levels_def build_read_concern_def by auto
  moreover have "build_read_preference new_pref (mc_read_preference c) \<noteq> None"
    if set: "rpc_mode (mc_read_preference c) \<noteq> []" and ok: "\<forall>m s. \<exists>rp. new_pref m s = Inr rp"
  proof -
    obtain m where "map_of valid_read_preference_modes (rpc_mode (mc_read_preference c)) = Some m"
      using v(3) set by (auto simp: read_preference_validate_def)
    moreover from ok obtain rp where "new_pref m (if rpc_max_staleness (mc_read_preference c) > 0
        then Some (rpc_max_staleness (mc_read_preference c)) else None) = Inr rp" by blast
    ultimately show ?thesis by (simp add: build_read_preference_def)
  qed
  ultimately show ?thesis using nz by simp
qed

definition demo_mongo :: mongo_config where
  "demo_mongo = mongo_zero\<lparr>mc_host := ''db'', mc_database := ''shop'', mc_max_pool := 5,
     mc_write_concern := \<lparr>wcc_w = ''majority'', wcc_journal = Some True\<rparr>\<rparr>"

lemma demo_mongo_loads:
  "load_config mongo_apply_defaults (validating mongo_validate) mongo_zero k key (Some demo_mongo)
     = Inr (mongo_apply_defaults demo_mongo)"
proof -
  have "mongo_validate (mongo_apply_defaults demo_mongo) = None"
    by (simp add: cfg_defs demo_mongo_def mongo_zero_def)
  then show ?thesis by (simp add: load_config_override validating_def)
qed

theorem mongo_loaded_concerns_witness:
  "\<exists>w. build_write_concern (mc_write_concern (mongo_apply_defaults demo_mongo)) = Some (Some w, Some True)"
  using mongo_loaded_concerns [OF demo_mongo_loads, of "\<lambda>_ _. Inr ()"]
  by (simp add: mongo_apply_defaults_def demo_mongo_def) blast

text \<open>
  A configuration that only lowers the maximal pool size below 10 loads with a minimal pool
  size above the maximal one: the default of the one does not take the other into account and
  the validation does not compare them.
\<close>

theorem mongo_pool_sizes_can_conflict:
  "\<exists>c. load_config mongo_apply_defaults (validating mongo_validate) mongo_zero k key (Some demo_mongo) = Inr c
     \<and> mc_max_pool c < mc_min_pool c \<and> mc_min_pool demo_mongo = 0"
  unfolding demo_mongo_loads
  by (simp add: mongo_apply_defaults_def demo_mongo_def mongo_zero_def)

end
