(* ===== verification/Mongo_Driver.thy ===== *)
theory Mongo_Driver
  imports Request_Context
begin

section \<open>The MongoDB driver as a parameter\<close>

text \<open>
  The driver and the server are third-party code: the repositories of this development take them as
  a record of operations over an abstract state \<open>'s\<close>, and \<open>driver_conforms\<close> names the documented
  behaviour the code relies on. \<open>stored s coll\<close> is what a collection holds by \<open>_id\<close>; a call that
  returns an error may have been applied or not, as with a lost reply. An in-memory driver that
  conforms is used by the witnesses.
\<close>

datatype bson =
    Bson_string string | Bson_int int | Bson_time time | Bson_null
  | Bson_doc "(string \<times> bson) list"

type_synonym bson_d = "(string \<times> bson) list"

record find_options =
  fo_skip :: "int option"
  fo_limit :: "int option"
  fo_sort :: "bson_d option"

definition find_options_zero :: find_options where
  "find_options_zero = \<lparr>fo_skip = None, fo_limit = None, fo_sort = None\<rparr>"

text \<open>
  \<open>find_many\<close> has the error of \<^verbatim>\<open>Find\<close> outside and that of \<^verbatim>\<open>cursor.All\<close> inside, \<open>find_and_replace\<close>
  that of \<^verbatim>\<open>result.Err()\<close> and that of \<^verbatim>\<open>Decode\<close>; \<open>replace_upsert\<close> yields \<^verbatim>\<open>MatchedCount\<close> and
  \<^verbatim>\<open>UpsertedCount\<close>.
\<close>

record ('s, 'e) driver =
  stored :: "'s \<Rightarrow> collection \<Rightarrow> string \<Rightarrow> 'e option"
  matches :: "bson_d \<Rightarrow> 'e \<Rightarrow> bool"
  in_order :: "bson_d option \<Rightarrow> 'e list \<Rightarrow> bool"
  insert_one :: "go_ctx \<Rightarrow> collection \<Rightarrow> 'e \<Rightarrow> 's \<Rightarrow> go_error option \<times> 's"
  find_one :: "go_ctx \<Rightarrow> collection \<Rightarrow> bson_d \<Rightarrow> 's \<Rightarrow> (go_error, 'e) result \<times> 's"
  find_many :: "go_ctx \<Rightarrow> collection \<Rightarrow> bson_d \<Rightarrow> find_options \<Rightarrow> 's
    \<Rightarrow> (go_error, (go_error, 'e list) result) result \<times> 's"
  count_docs :: "go_ctx \<Rightarrow> collection \<Rightarrow> bson_d \<Rightarrow> int option \<Rightarrow> 's \<Rightarrow> (go_error, int) result \<times> 's"
  find_and_replace :: "go_ctx \<Rightarrow> collection \<Rightarrow> bson_d \<Rightarrow> 'e \<Rightarrow> 's
    \<Rightarrow> (go_error, (go_error, 'e) result) result \<times> 's"
  delete_one :: "go_ctx \<Rightarrow> collection \<Rightarrow> bson_d \<Rightarrow> 's \<Rightarrow> go_error option \<times> 's"
  replace_upsert :: "go_ctx \<Rightarrow> collection \<Rightarrow> bson_d \<Rightarrow> 'e \<Rightarrow> 's \<Rightarrow> (go_error, int \<times> int) result \<times> 's"

subsection \<open>Filters the code builds\<close>

definition by_id :: "string \<Rightarrow> bson_d" where
  "by_id i = [(''_id'', Bson_string i)]"

definition by_id_version :: "string \<Rightarrow> int \<Rightarrow> bson_d" where
  "by_id_version i v = [(''_id'', Bson_string i), (''version'', Bson_int v)]"

definition by_id_older :: "string \<Rightarrow> int \<Rightarrow> bson_d" where
  "by_id_older i v = [(''_id'', Bson_string i), (''version'', Bson_doc [(''$lt'', Bson_int v)])]"

subsection \<open>The documented behaviour\<close>

definition found :: "('s, 'e) driver \<Rightarrow> 's \<Rightarrow> collection \<Rightarrow> bson_d \<Rightarrow> 'e set" where
  "found drv s coll f = {e \<in> ran (stored drv s coll). matches drv f e}"

text \<open>A write of the document \<open>e\<close> under its \<open>_id\<close>, all else unchanged.\<close>

definition put_doc :: "('e \<Rightarrow> string) \<Rightarrow> collection \<Rightarrow> 'e \<Rightarrow> (collection \<Rightarrow> string \<Rightarrow> 'e option)
  \<Rightarrow> collection \<Rightarrow> string \<Rightarrow> 'e option" where
  "put_doc ident coll e st = st(coll := (st coll)(ident e \<mapsto> e))"

definition filters_conform :: "('e \<Rightarrow> string) \<Rightarrow> ('e \<Rightarrow> int) \<Rightarrow> ('s, 'e) driver \<Rightarrow> bool" where
  "filters_conform ident version drv \<longleftrightarrow>
     (\<forall>e. matches drv [] e)
   \<and> (\<forall>i e. matches drv (by_id i) e \<longleftrightarrow> ident e = i)
   \<and> (\<forall>i v e. matches drv (by_id_version i v) e \<longleftrightarrow> ident e = i \<and> version e = v)
   \<and> (\<forall>i v e. matches drv (by_id_older i v) e \<longleftrightarrow> ident e = i \<and> version e < v)"

definition stored_by_id :: "('e \<Rightarrow> string) \<Rightarrow> ('s, 'e) driver \<Rightarrow> bool" where
  "stored_by_id ident drv \<longleftrightarrow>
     (\<forall>s coll i e. stored drv s coll i = Some e \<longrightarrow> ident e = i) \<and> (\<forall>s coll. finite (dom (stored drv s coll)))"

text \<open>Reads leave the data as it is and see all of it.\<close>

definition find_one_conforms :: "('s, 'e) driver \<Rightarrow> bool" where
  "find_one_conforms drv \<longleftrightarrow> (\<forall>ctx coll f s.
     (let (r, s') = find_one drv ctx coll f s
      in stored drv s' = stored drv s
       \<and> (\<forall>e. r = Inr e \<longrightarrow> e \<in> found drv s coll f)
       \<and> (\<forall>err. r = Inl err \<longrightarrow> errors_is_lib err MongoErrNoDocuments \<longrightarrow> found drv s coll f = {})))"

definition find_many_conforms :: "('s, 'e) driver \<Rightarrow> bool" where
  "find_many_conforms drv \<longleftrightarrow> (\<forall>ctx coll f opts s.
     (let (r, s') = find_many drv ctx coll f opts s
      in stored drv s' = stored drv s
       \<and> (\<forall>es. r = Inr (Inr es) \<longrightarrow>
             (case fo_skip opts of None \<Rightarrow> True | Some n \<Rightarrow> 0 \<le> n) \<and>
             (\<exists>ys. distinct ys \<and> set ys = found drv s coll f \<and> in_order drv (fo_sort opts) ys
                \<and> es = (case fo_limit opts of None \<Rightarrow> id | Some l \<Rightarrow> if l = 0 then id else take (nat \<bar>l\<bar>))
                         (case fo_skip opts of None \<Rightarrow> ys | Some n \<Rightarrow> drop (nat n) ys)))))"

definition count_conforms :: "('s, 'e) driver \<Rightarrow> bool" where
  "count_conforms drv \<longleftrightarrow> (\<forall>ctx coll f lim s.
     (let (r, s') = count_docs drv ctx coll f lim s
      in stored drv s' = stored drv s
       \<and> (\<forall>n. r = Inr n \<longrightarrow> n = (case lim of None \<Rightarrow> int (card (found drv s coll f))
                            | Some l \<Rightarrow> min l (int (card (found drv s coll f)))))))"

definition reads_conform :: "('s, 'e) driver \<Rightarrow> bool" where
  "reads_conform drv \<longleftrightarrow> find_one_conforms drv \<and> find_many_conforms drv \<and> count_conforms drv"

text \<open>
  Writes: an insert needs a fresh \<open>_id\<close>; a replacement goes to a matching document; an upsert with
  no match inserts, which the unique index on \<open>_id\<close> refuses when the \<open>_id\<close> is taken.
\<close>

definition insert_conforms :: "('e \<Rightarrow> string) \<Rightarrow> ('s, 'e) driver \<Rightarrow> bool" where
  "insert_conforms ident drv \<longleftrightarrow> (\<forall>ctx coll e s.
     (let (r, s') = insert_one drv ctx coll e s; applied = put_doc ident coll e (stored drv s)
      in (r = None \<longrightarrow> stored drv s coll (ident e) = None \<and> stored drv s' = applied)
       \<and> (r \<noteq> None \<longrightarrow> stored drv s' = stored drv s
            \<or> stored drv s coll (ident e) = None \<and> stored drv s' = applied)))"

definition replace_conforms :: "('e \<Rightarrow> string) \<Rightarrow> ('s, 'e) driver \<Rightarrow> bool" where
  "replace_conforms ident drv \<longleftrightarrow> (\<forall>ctx coll f e s.
     (let (r, s') = find_and_replace drv ctx coll f e s; applied = put_doc ident coll e (stored drv s);
          hit = (\<exists>old \<in> found drv s coll f. ident old = ident e)
      in (\<forall>d. r = Inr d \<longrightarrow> hit \<and> stored drv s' = applied \<and> (\<forall>e'. d = Inr e' \<longrightarrow> e' = e))
       \<and> (\<forall>err. r = Inl err \<longrightarrow> stored drv s' = stored drv s \<or> hit \<and> stored drv s' = applied)
       \<and> (\<forall>err. r = Inl err \<longrightarrow> errors_is_lib err MongoErrNoDocuments \<longrightarrow>
            found drv s coll f = {} \<and> stored drv s' = stored drv s)))"

definition delete_conforms :: "('e \<Rightarrow> string) \<Rightarrow> ('s, 'e) driver \<Rightarrow> bool" where
  "delete_conforms ident drv \<longleftrightarrow> (\<forall>ctx coll i s.
     (let (r, s') = delete_one drv ctx coll (by_id i) s;
          applied = (stored drv s)(coll := (stored drv s coll)(i := None))
      in (r = None \<longrightarrow> stored drv s' = applied)
       \<and> (r \<noteq> None \<longrightarrow> stored drv s' = stored drv s \<or> stored drv s' = applied)))"

definition upsert_conforms :: "('e \<Rightarrow> string) \<Rightarrow> ('s, 'e) driver \<Rightarrow> bool" where
  "upsert_conforms ident drv \<longleftrightarrow> (\<forall>ctx coll f e s.
     (let (r, s') = replace_upsert drv ctx coll f e s; applied = put_doc ident coll e (stored drv s);
          hit = (\<exists>old \<in> found drv s coll f. ident old = ident e);
          fresh = (found drv s coll f = {} \<and> stored drv s coll (ident e) = None)
      in (\<forall>m u. r = Inr (m, u) \<longrightarrow> stored drv s' = applied
            \<and> (hit \<and> m = 1 \<and> u = 0 \<or> fresh \<and> m = 0 \<and> u = 1))
       \<and> (\<forall>err. r = Inl err \<longrightarrow> stored drv s' = stored drv s \<or> (hit \<or> fresh) \<and> stored drv s' = applied)))"

definition driver_conforms :: "('e \<Rightarrow> string) \<Rightarrow> ('e \<Rightarrow> int) \<Rightarrow> ('s, 'e) driver \<Rightarrow> bool" where
  "driver_conforms ident version drv \<longleftrightarrow>
     filters_conform ident version drv \<and> stored_by_id ident drv \<and> reads_conform drv
     \<and> insert_conforms ident drv \<and> replace_conforms ident drv \<and> delete_conforms ident drv
     \<and> upsert_conforms ident drv"

subsection \<open>Its consequences\<close>

lemma conforms_parts:
  assumes "driver_conforms ident version drv"
  shows "filters_conform ident version drv" "stored_by_id ident drv" "reads_conform drv"
    "insert_conforms ident drv" "replace_conforms ident drv" "delete_conforms ident drv" "upsert_conforms ident drv"
  using assms by (simp_all add: driver_conforms_def)

lemma stored_ident:
  assumes "driver_conforms ident version drv"
  shows "stored drv s coll i = Some e \<Longrightarrow> ident e = i" and "finite (dom (stored drv s coll))"
  using conforms_parts(2) [OF assms] unfolding stored_by_id_def by blast+

lemma found_by_id:
  assumes "driver_conforms ident version drv"
  shows "found drv s coll (by_id i) = set_option (stored drv s coll i)"
    and "found drv s coll (by_id_version i v) = {e \<in> set_option (stored drv s coll i). version e = v}"
    and "found drv s coll (by_id_older i v) = {e \<in> set_option (stored drv s coll i). version e < v}"
    and "found drv s coll [] = ran (stored drv s coll)"
proof -
  note f = conforms_parts(1) [OF assms, unfolded filters_conform_def]
  have r: "{e \<in> ran (stored drv s coll). ident e = i \<and> P e} = {e \<in> set_option (stored drv s coll i). P e}" for P
    using stored_ident(1) [OF assms, of s coll] by (auto simp: ran_def)
  show "found drv s coll (by_id i) = set_option (stored drv s coll i)"
    using r [of "\<lambda>_. True"] f by (auto simp: found_def)
  show "found drv s coll (by_id_version i v) = {e \<in> set_option (stored drv s coll i). version e = v}"
    "found drv s coll (by_id_older i v) = {e \<in> set_option (stored drv s coll i). version e < v}"
    "found drv s coll [] = ran (stored drv s coll)"
    using f by (simp_all add: found_def r)
qed

lemma insert_law:
  assumes "driver_conforms ident version drv" and "insert_one drv ctx coll e s = (r, s')"
  shows "r = None \<Longrightarrow> stored drv s coll (ident e) = None \<and> stored drv s' = put_doc ident coll e (stored drv s)"
    and "stored drv s' = stored drv s
       \<or> stored drv s coll (ident e) = None \<and> stored drv s' = put_doc ident coll e (stored drv s)"
  using conforms_parts(4) [OF assms(1), unfolded insert_conforms_def, rule_format, of ctx coll e s] assms(2)
  by (auto simp: Let_def)

lemma replace_law:
  assumes "driver_conforms ident version drv" and "find_and_replace drv ctx coll f e s = (r, s')"
  shows "r = Inr d \<Longrightarrow> (\<exists>old \<in> found drv s coll f. ident old = ident e)
       \<and> stored drv s' = put_doc ident coll e (stored drv s) \<and> (\<forall>e'. d = Inr e' \<longrightarrow> e' = e)"
    and "stored drv s' = stored drv s \<or> (\<exists>old \<in> found drv s coll f. ident old = ident e)
       \<and> stored drv s' = put_doc ident coll e (stored drv s)"
    and "r = Inl err \<Longrightarrow> errors_is_lib err MongoErrNoDocuments \<Longrightarrow>
       found drv s coll f = {} \<and> stored drv s' = stored drv s"
  using conforms_parts(5) [OF assms(1), unfolded replace_conforms_def, rule_format, of ctx coll f e s] assms(2)
  by (cases r; auto simp: Let_def)+

lemma delete_law:
  assumes "driver_conforms ident version drv" and "delete_one drv ctx coll (by_id i) s = (r, s')"
  shows "r = None \<Longrightarrow> stored drv s' = (stored drv s)(coll := (stored drv s coll)(i := None))"
    and "stored drv s' = stored drv s \<or> stored drv s' = (stored drv s)(coll := (stored drv s coll)(i := None))"
  using conforms_parts(6) [OF assms(1), unfolded delete_conforms_def, rule_format, of ctx coll i s] assms(2)
  by (cases r; auto simp: Let_def)+

lemma upsert_law:
  assumes "driver_conforms ident version drv" and "replace_upsert drv ctx coll f e s = (r, s')"
  shows "r = Inr (m, u) \<Longrightarrow> stored drv s' = put_doc ident coll e (stored drv s)
       \<and> ((\<exists>old \<in> found drv s coll f. ident old = ident e) \<and> m = 1 \<and> u = 0
          \<or> found drv s coll f = {} \<and> stored drv s coll (ident e) = None \<and> m = 0 \<and> u = 1)"
    and "stored drv s' = stored drv s
       \<or> ((\<exists>old \<in> found drv s coll f. ident old = ident e)
          \<or> found drv s coll f = {} \<and> stored drv s coll (ident e) = None)
         \<and> stored drv s' = put_doc ident coll e (stored drv s)"
  using conforms_parts(7) [OF assms(1), unfolded upsert_conforms_def, rule_format, of ctx coll f e s] assms(2)
  by (cases r; auto simp: Let_def)+

lemma find_one_law:
  assumes "driver_conforms ident version drv" and "find_one drv ctx coll f s = (r, s')"
  shows "stored drv s' = stored drv s" and "r = Inr e \<Longrightarrow> e \<in> found drv s coll f"
    and "r = Inl err \<Longrightarrow> errors_is_lib err MongoErrNoDocuments \<Longrightarrow> found drv s coll f = {}"
proof -
  have "find_one_conforms drv" using conforms_parts(3) [OF assms(1)] by (simp add: reads_conform_def)
  from this [unfolded find_one_conforms_def, rule_format, of ctx coll f s] assms(2)
  show "stored drv s' = stored drv s" "r = Inr e \<Longrightarrow> e \<in> found drv s coll f"
    "r = Inl err \<Longrightarrow> errors_is_lib err MongoErrNoDocuments \<Longrightarrow> found drv s coll f = {}"
    by (simp_all add: Let_def)
qed

lemma find_many_law:
  assumes "driver_conforms ident version drv" and "find_many drv ctx coll f opts s = (r, s')"
  shows "stored drv s' = stored drv s"
    and "r = Inr (Inr es) \<Longrightarrow> (case fo_skip opts of None \<Rightarrow> True | Some n \<Rightarrow> 0 \<le> n) \<and>
      (\<exists>ys. distinct ys \<and> set ys = found drv s coll f \<and> in_order drv (fo_sort opts) ys
        \<and> es = (case fo_limit opts of None \<Rightarrow> id | Some l \<Rightarrow> if l = 0 then id else take (nat \<bar>l\<bar>))
                 (case fo_skip opts of None \<Rightarrow> ys | Some n \<Rightarrow> drop (nat n) ys))"
proof -
  have "find_many_conforms drv" using conforms_parts(3) [OF assms(1)] by (simp add: reads_conform_def)
  note law = this [unfolded find_many_conforms_def, rule_format, of ctx coll f opts s, unfolded assms(2) Let_def prod.case]
  from law show "stored drv s' = stored drv s" by (rule conjunct1)
  assume "r = Inr (Inr es)"
  with law show "(case fo_skip opts of None \<Rightarrow> True | Some n \<Rightarrow> 0 \<le> n) \<and>
      (\<exists>ys. distinct ys \<and> set ys = found drv s coll f \<and> in_order drv (fo_sort opts) ys
        \<and> es = (case fo_limit opts of None \<Rightarrow> id | Some l \<Rightarrow> if l = 0 then id else take (nat \<bar>l\<bar>))
                 (case fo_skip opts of None \<Rightarrow> ys | Some n \<Rightarrow> drop (nat n) ys))"
    by blast
qed

lemma count_law:
  assumes "driver_conforms ident version drv" and "count_docs drv ctx coll f lim s = (r, s')"
  shows "stored drv s' = stored drv s"
    and "r = Inr n \<Longrightarrow> n = (case lim of None \<Rightarrow> int (card (found drv s coll f))
                            | Some l \<Rightarrow> min l (int (card (found drv s coll f))))"
proof -
  have "count_conforms drv" using conforms_parts(3) [OF assms(1)] by (simp add: reads_conform_def)
  from this [unfolded count_conforms_def, rule_format, of ctx coll f lim s] assms(2)
  show "stored drv s' = stored drv s"
    "r = Inr n \<Longrightarrow> n = (case lim of None \<Rightarrow> int (card (found drv s coll f))
                            | Some l \<Rightarrow> min l (int (card (found drv s coll f))))"
    by (simp_all add: Let_def)
qed

subsection \<open>A conforming driver in memory\<close>

record doc =
  doc_id :: string
  doc_version :: int
  doc_body :: string

type_synonym mem = "collection \<Rightarrow> doc list"

definition mem_lookup :: "mem \<Rightarrow> collection \<Rightarrow> string \<Rightarrow> doc option" where
  "mem_lookup s coll = first_by doc_id (s coll)"

fun mem_field :: "string \<times> bson \<Rightarrow> doc \<Rightarrow> bool" where
  "mem_field (k, Bson_string x) d = (k = ''_id'' \<and> doc_id d = x)"
| "mem_field (k, Bson_int v) d = (k = ''version'' \<and> doc_version d = v)"
| "mem_field (k, Bson_doc [(op, Bson_int v)]) d = (k = ''version'' \<and> op = ''$lt'' \<and> doc_version d < v)"
| "mem_field _ d = False"

definition mem_matches :: "bson_d \<Rightarrow> doc \<Rightarrow> bool" where
  "mem_matches f d = list_all (\<lambda>field. mem_field field d) f"

text \<open>The documents of a collection, those a lookup finds.\<close>

definition mem_docs :: "mem \<Rightarrow> collection \<Rightarrow> doc list" where
  "mem_docs s coll = firsts doc_id (s coll)"

definition mem_put :: "collection \<Rightarrow> doc \<Rightarrow> mem \<Rightarrow> mem" where
  "mem_put coll d s = s(coll := d # s coll)"

definition no_documents :: go_error where
  "no_documents = Foreign (Some MongoErrNoDocuments) ''mongo: no documents in result''"

definition duplicate_key :: go_error where
  "duplicate_key = Foreign None ''E11000 duplicate key error''"

definition mem_hits :: "mem \<Rightarrow> collection \<Rightarrow> bson_d \<Rightarrow> doc list" where
  "mem_hits s coll f = filter (mem_matches f) (mem_docs s coll)"

definition mem_driver :: "(mem, doc) driver" where
  "mem_driver = \<lparr>
     stored = mem_lookup,
     matches = mem_matches,
     in_order = (\<lambda>_ _. True),
     insert_one = (\<lambda>ctx coll d s. if mem_lookup s coll (doc_id d) = None then (None, mem_put coll d s)
                                 else (Some duplicate_key, s)),
     find_one = (\<lambda>ctx coll f s. (case mem_hits s coll f of [] \<Rightarrow> Inl no_documents | d # _ \<Rightarrow> Inr d, s)),
     find_many = (\<lambda>ctx coll f opts s.
        (if (case fo_skip opts of None \<Rightarrow> True | Some n \<Rightarrow> 0 \<le> n) then
           Inr (Inr ((case fo_limit opts of None \<Rightarrow> id | Some l \<Rightarrow> if l = 0 then id else take (nat \<bar>l\<bar>))
             (case fo_skip opts of None \<Rightarrow> mem_hits s coll f | Some n \<Rightarrow> drop (nat n) (mem_hits s coll f))))
         else Inl (New_error ''skip cannot be negative''), s)),
     count_docs = (\<lambda>ctx coll f lim s. (Inr (case lim of None \<Rightarrow> int (length (mem_hits s coll f))
        | Some l \<Rightarrow> min l (int (length (mem_hits s coll f)))), s)),
     find_and_replace = (\<lambda>ctx coll f d s.
        if list_ex (\<lambda>old. doc_id old = doc_id d) (mem_hits s coll f) then (Inr (Inr d), mem_put coll d s)
        else if mem_hits s coll f = [] then (Inl no_documents, s)
        else (Inl (New_error ''the _id field is immutable''), s)),
     delete_one = (\<lambda>ctx coll f s.
        (case f of
           [(k, Bson_string i)] \<Rightarrow> (None, s(coll := filter (\<lambda>d. doc_id d \<noteq> i) (s coll)))
         | _ \<Rightarrow> (Some (New_error ''unsupported filter''), s))),
     replace_upsert = (\<lambda>ctx coll f d s.
        if list_ex (\<lambda>old. doc_id old = doc_id d) (mem_hits s coll f) then (Inr (1, 0), mem_put coll d s)
        else if mem_hits s coll f \<noteq> [] then (Inl (New_error ''the _id field is immutable''), s)
        else if mem_lookup s coll (doc_id d) = None then (Inr (0, 1), mem_put coll d s)
        else (Inl duplicate_key, s))\<rparr>"

lemma mem_lookup_id: "mem_lookup s coll i = Some d \<Longrightarrow> doc_id d = i"
  by (auto simp: mem_lookup_def dest: first_by_Some)

lemma set_mem_docs: "set (mem_docs s coll) = ran (mem_lookup s coll)"
  by (simp add: mem_docs_def mem_lookup_def set_firsts)

lemma mem_hits_found: "set (mem_hits s coll f) = found mem_driver s coll f" "distinct (mem_hits s coll f)"
  by (auto simp: mem_hits_def found_def set_mem_docs mem_driver_def) (simp add: mem_docs_def distinct_firsts)

lemma mem_hits_card: "length (mem_hits s coll f) = card (found mem_driver s coll f)"
  using mem_hits_found [of s coll f] by (metis distinct_card)

lemma mem_put_stored: "mem_lookup (mem_put coll d s) = put_doc doc_id coll d (mem_lookup s)"
  by (rule ext) (simp add: mem_lookup_def mem_put_def put_doc_def first_by_Cons)

lemma mem_delete_stored:
  "mem_lookup (s(coll := filter (\<lambda>d. doc_id d \<noteq> i) (s coll))) = (mem_lookup s)(coll := (mem_lookup s coll)(i := None))"
  by (rule ext) (simp add: mem_lookup_def first_by_filter)

lemma mem_finite: "finite (dom (mem_lookup s coll))"
  by (simp add: mem_lookup_def finite_dom_first_by)

lemma mem_hits_ex:
  "list_ex (\<lambda>old. doc_id old = i) (mem_hits s coll f) \<longleftrightarrow> (\<exists>old \<in> found mem_driver s coll f. doc_id old = i)"
  "mem_hits s coll f = [] \<longleftrightarrow> found mem_driver s coll f = {}"
  by (simp_all add: list_ex_iff flip: mem_hits_found(1))

lemma mem_ops:
  "stored mem_driver = mem_lookup"
  "insert_one mem_driver ctx coll d s =
     (if mem_lookup s coll (doc_id d) = None then (None, mem_put coll d s) else (Some duplicate_key, s))"
  "find_and_replace mem_driver ctx coll f d s =
     (if list_ex (\<lambda>old. doc_id old = doc_id d) (mem_hits s coll f) then (Inr (Inr d), mem_put coll d s)
      else if mem_hits s coll f = [] then (Inl no_documents, s)
      else (Inl (New_error ''the _id field is immutable''), s))"
  "delete_one mem_driver ctx coll [(k, Bson_string i)] s = (None, s(coll := filter (\<lambda>d. doc_id d \<noteq> i) (s coll)))"
  "replace_upsert mem_driver ctx coll f d s =
     (if list_ex (\<lambda>old. doc_id old = doc_id d) (mem_hits s coll f) then (Inr (1, 0), mem_put coll d s)
      else if mem_hits s coll f \<noteq> [] then (Inl (New_error ''the _id field is immutable''), s)
      else if mem_lookup s coll (doc_id d) = None then (Inr (0, 1), mem_put coll d s)
      else (Inl duplicate_key, s))"
  by (simp_all add: mem_driver_def)

lemma mem_driver_conforms: "driver_conforms doc_id doc_version mem_driver"
proof -
  note ops = mem_driver_def driver.simps
  have "filters_conform doc_id doc_version mem_driver"
    by (auto simp: filters_conform_def mem_driver_def mem_matches_def by_id_def by_id_version_def by_id_older_def)
  moreover have "stored_by_id doc_id mem_driver"
    by (simp add: stored_by_id_def mem_driver_def mem_finite mem_lookup_id)
  moreover have "reads_conform mem_driver"
  proof -
    have one: "d \<in> found mem_driver s coll f" if "mem_hits s coll f = d # ds" for s coll f d ds
      using mem_hits_found(1) [of s coll f] that by auto
    have "find_one_conforms mem_driver"
      unfolding find_one_conforms_def
    proof (intro allI)
      fix ctx coll f s
      show "let (r, s') = find_one mem_driver ctx coll f s
        in stored mem_driver s' = stored mem_driver s
         \<and> (\<forall>e. r = Inr e \<longrightarrow> e \<in> found mem_driver s coll f)
         \<and> (\<forall>err. r = Inl err \<longrightarrow> errors_is_lib err MongoErrNoDocuments \<longrightarrow> found mem_driver s coll f = {})"
        using one [of s coll f] mem_hits_ex(2) [of s coll f]
        by (cases "mem_hits s coll f") (simp_all add: ops)
    qed
    moreover have "find_many_conforms mem_driver"
      unfolding find_many_conforms_def
    proof (intro allI)
      fix ctx coll f opts s
      let ?r = "find_many mem_driver ctx coll f opts s"
      have "\<exists>ys. distinct ys \<and> set ys = found mem_driver s coll f \<and> in_order mem_driver (fo_sort opts) ys
          \<and> es = (case fo_limit opts of None \<Rightarrow> id | Some l \<Rightarrow> if l = 0 then id else take (nat \<bar>l\<bar>))
                   (case fo_skip opts of None \<Rightarrow> ys | Some n \<Rightarrow> drop (nat n) ys)"
        if "fst ?r = Inr (Inr es)" for es
        using that mem_hits_found [of s coll f]
        by (intro exI [of _ "mem_hits s coll f"]) (simp add: mem_driver_def split: if_splits)
      moreover have "case fo_skip opts of None \<Rightarrow> True | Some n \<Rightarrow> 0 \<le> n" if "fst ?r = Inr (Inr es)" for es
        using that by (simp add: mem_driver_def split: if_splits)
      moreover have "snd ?r = s" by (simp add: mem_driver_def)
      ultimately show "let (r, s') = ?r
        in stored mem_driver s' = stored mem_driver s
         \<and> (\<forall>es. r = Inr (Inr es) \<longrightarrow>
             (case fo_skip opts of None \<Rightarrow> True | Some n \<Rightarrow> 0 \<le> n) \<and>
             (\<exists>ys. distinct ys \<and> set ys = found mem_driver s coll f \<and> in_order mem_driver (fo_sort opts) ys
                \<and> es = (case fo_limit opts of None \<Rightarrow> id | Some l \<Rightarrow> if l = 0 then id else take (nat \<bar>l\<bar>))
                         (case fo_skip opts of None \<Rightarrow> ys | Some n \<Rightarrow> drop (nat n) ys)))"
        by (simp add: Let_def split_beta)
    qed
    moreover have "count_conforms mem_driver"
      unfolding count_conforms_def
    proof (intro allI)
      fix ctx coll f lim s
      show "let (r, s') = count_docs mem_driver ctx coll f lim s
        in stored mem_driver s' = stored mem_driver s
         \<and> (\<forall>n. r = Inr n \<longrightarrow> n = (case lim of None \<Rightarrow> int (card (found mem_driver s coll f))
              | Some l \<Rightarrow> min l (int (card (found mem_driver s coll f)))))"
        unfolding mem_hits_card [symmetric] by (simp add: mem_driver_def)
    qed
    ultimately show ?thesis by (simp add: reads_conform_def)
  qed
  moreover have "insert_conforms doc_id mem_driver"
    by (simp add: insert_conforms_def mem_ops mem_put_stored)
  moreover have "replace_conforms doc_id mem_driver"
    unfolding replace_conforms_def mem_ops mem_hits_ex by (simp add: mem_put_stored no_documents_def)
  moreover have "delete_conforms doc_id mem_driver"
    by (simp add: delete_conforms_def mem_ops by_id_def mem_delete_stored)
  moreover have "upsert_conforms doc_id mem_driver"
    unfolding upsert_conforms_def mem_ops mem_hits_ex by (simp add: mem_put_stored)
  ultimately show ?thesis by (simp add: driver_conforms_def)
qed

end
