(* ===== verification/Generic_Repository.thy ===== *)
theory Generic_Repository
  imports Mongo_Driver
begin

section \<open>The generic repository (pkg/mongo/generic_repository.go)\<close>

text \<open>
  The CRUD operations over a parameter driver. An operation returns \<open>Inl\<close> the panic of a collection
  provider that needs a tenant, or \<open>Inr\<close> of its result and the driver's state. Entities are values:
  \<^verbatim>\<open>SetVersion\<close> on a fresh entity returns the changed one.
\<close>

record ('d, 'e) entity_mapper =
  to_entity :: "'d \<Rightarrow> 'e"
  to_domain :: "'e \<Rightarrow> 'd"
  get_id :: "'e \<Rightarrow> string"
  get_version :: "'e \<Rightarrow> int"
  set_version :: "'e \<Rightarrow> int \<Rightarrow> 'e"

text \<open>The contract of \<^verbatim>\<open>EntityMapper\<close>: writing the version changes it and keeps the ID.\<close>

definition mapper_ok :: "('d, 'e) entity_mapper \<Rightarrow> bool" where
  "mapper_ok m \<longleftrightarrow> (\<forall>e v. get_version m (set_version m e v) = v \<and> get_id m (set_version m e v) = get_id m e)"

record query_options =
  qo_filter :: "bson_d option"
  qo_page :: int
  qo_size :: int
  qo_sort :: "bson_d option"

record 'd page_result =
  pr_items :: "'d list"
  pr_total :: int
  pr_page :: int
  pr_size :: int
  pr_total_pages :: int

type_synonym collection_provider = "go_ctx \<Rightarrow> collection may_panic"

definition new_generic_repository ::
  "collection_provider \<Rightarrow> ('d, 'e) entity_mapper option
   \<Rightarrow> (go_error, collection_provider \<times> ('d, 'e) entity_mapper) result" where
  "new_generic_repository provider m =
     (case m of None \<Rightarrow> Inl (New_error ''mapper is required'') | Some m \<Rightarrow> Inr (provider, m))"

subsection \<open>Operations\<close>

text \<open>\<^verbatim>\<open>fmt.Errorf("what: %w", err)\<close> on the error of a call.\<close>

definition wrap_err :: "string \<Rightarrow> (go_error, 'a) result \<Rightarrow> (go_error, 'a) result" where
  "wrap_err what r = (case r of Inl e \<Rightarrow> Inl (Wrapf (what @ '': '') e []) | Inr a \<Rightarrow> Inr a)"

definition wrap_error :: "string \<Rightarrow> go_error option \<Rightarrow> go_error option" where
  "wrap_error what r = map_option (\<lambda>e. Wrapf (what @ '': '') e []) r"

lemma wrap_simps [simp]:
  "wrap_err what r = Inr a \<longleftrightarrow> r = Inr a"
  "wrap_error what q = None \<longleftrightarrow> q = None"
  by (auto simp: wrap_err_def wrap_error_def split: sum.splits)

definition repo_insert where
  "repo_insert drv provider m ctx domain s =
     and_then (provider ctx) (\<lambda>coll.
       let (r, s') = insert_one drv ctx coll (to_entity m domain) s
       in Inr (wrap_error ''failed to insert entity'' r, s'))"

definition repo_find_one where
  "repo_find_one drv provider m ctx flt s =
     and_then (provider ctx) (\<lambda>coll.
       let (r, s') = find_one drv ctx coll flt s
       in Inr (case r of
            Inl e \<Rightarrow> if errors_is_lib e MongoErrNoDocuments then Inl (Sentinel ErrEntityNotFound)
                     else Inl (Wrapf ''failed to decode entity: '' e [])
          | Inr e \<Rightarrow> Inr (to_domain m e), s'))"

definition repo_find_by_id where
  "repo_find_by_id drv provider m ctx i s = repo_find_one drv provider m ctx (by_id i) s"

text \<open>\<^verbatim>\<open>Find\<close>, \<^verbatim>\<open>cursor.All\<close> and the conversion, shared by the list queries.\<close>

definition query_all where
  "query_all drv m ctx coll flt opts s =
     (let (r, s') = find_many drv ctx coll flt opts s
      in (case wrap_err ''failed to query entities'' r of
            Inl e \<Rightarrow> Inl e
          | Inr q \<Rightarrow> (case wrap_err ''failed to decode entities'' q of
                Inl e \<Rightarrow> Inl e
              | Inr es \<Rightarrow> Inr (map (to_domain m) es)), s'))"

definition repo_find_all where
  "repo_find_all drv provider m ctx s =
     and_then (provider ctx) (\<lambda>coll. Inr (query_all drv m ctx coll [] find_options_zero s))"

definition repo_find_all_with_filter where
  "repo_find_all_with_filter drv provider m ctx flt srt s =
     (let flt = (case flt of None \<Rightarrow> [] | Some f \<Rightarrow> f)
      in and_then (provider ctx)
           (\<lambda>coll. Inr (query_all drv m ctx coll flt (find_options_zero\<lparr>fo_sort := srt\<rparr>) s)))"

definition total_pages :: "int \<Rightarrow> int \<Rightarrow> int" where
  "total_pages cnt sz =
     (let n = go_quot cnt sz in if go_rem cnt sz \<noteq> 0 then n + 1 else n)"

definition repo_find_with_options where
  "repo_find_with_options drv provider m ctx opts s =
     (let page = (if qo_page opts < 1 then 1 else qo_page opts);
          sz = (if qo_size opts < 1 then 10 else qo_size opts);
          flt = (case qo_filter opts of None \<Rightarrow> [] | Some f \<Rightarrow> f)
      in and_then (provider ctx) (\<lambda>coll.
           let (cnt, s1) = count_docs drv ctx coll flt None s
           in case wrap_err ''failed to count entities'' cnt of
                Inl e \<Rightarrow> Inr (Inl e, s1)
              | Inr cnt \<Rightarrow>
                  (let skip = wrap64 ((page - 1) * sz);
                       (r, s2) = query_all drv m ctx coll flt
                         \<lparr>fo_skip = Some skip, fo_limit = Some sz, fo_sort = qo_sort opts\<rparr> s1
                   in Inr (case r of
                        Inl e \<Rightarrow> Inl e
                      | Inr domains \<Rightarrow> Inr \<lparr>pr_items = domains, pr_total = cnt, pr_page = page,
                          pr_size = sz, pr_total_pages = total_pages cnt sz\<rparr>, s2))))"

definition repo_update where
  "repo_update drv provider m ctx domain s =
     (let entity = to_entity m domain;
          currentVersion = get_version m entity;
          newVersion = wrap64 (currentVersion + 1);
          entity = set_version m entity newVersion
      in and_then (provider ctx) (\<lambda>coll.
           let (r, s') = find_and_replace drv ctx coll (by_id_version (get_id m entity) currentVersion) entity s
           in Inr (case r of
                Inl e \<Rightarrow> if errors_is_lib e MongoErrNoDocuments then Inl (Sentinel ErrOptimisticLocking)
                         else Inl (Wrapf ''failed to update entity: '' e [])
              | Inr d \<Rightarrow> (case wrap_err ''failed to decode updated entity'' d of
                    Inl e \<Rightarrow> Inl e
                  | Inr e \<Rightarrow> Inr (to_domain m e)), s')))"

definition repo_delete where
  "repo_delete drv provider ctx i s =
     and_then (provider ctx) (\<lambda>coll.
       let (r, s') = delete_one drv ctx coll (by_id i) s
       in Inr (wrap_error ''failed to delete entity'' r, s'))"

definition repo_exists_with_filter where
  "repo_exists_with_filter drv provider ctx flt s =
     and_then (provider ctx) (\<lambda>coll.
       let (r, s') = count_docs drv ctx coll flt (Some 1) s
       in Inr (case wrap_err ''failed to check entity existence'' r of
            Inl e \<Rightarrow> Inl e
          | Inr cnt \<Rightarrow> Inr (cnt > 0), s'))"

definition repo_exists where
  "repo_exists drv provider ctx i s = repo_exists_with_filter drv provider ctx (by_id i) s"

definition repo_upsert_if_newer where
  "repo_upsert_if_newer drv provider m ctx domain s =
     (let entity = to_entity m domain
      in and_then (provider ctx) (\<lambda>coll.
           let (r, s') = replace_upsert drv ctx coll (by_id_older (get_id m entity) (get_version m entity)) entity s
           in Inr (case wrap_err ''failed to upsert entity'' r of
                Inl e \<Rightarrow> Inl e
              | Inr (matched, upserted) \<Rightarrow> Inr (matched > 0 \<or> upserted > 0), s')))"

lemmas repo_defs = repo_insert_def repo_find_one_def repo_find_by_id_def repo_find_all_def
  repo_find_all_with_filter_def repo_find_with_options_def repo_update_def repo_delete_def
  repo_exists_with_filter_def repo_exists_def repo_upsert_if_newer_def query_all_def

subsection \<open>Effects of the operations\<close>

text \<open>
  What a write can do to the store: nothing, or put the entity. \<open>v\<close> is the version \<^verbatim>\<open>Update\<close> expects.
\<close>

lemma repo_update_effect:
  assumes conf: "driver_conforms (get_id m) (get_version m) drv" and m: "mapper_ok m"
    and coll: "provider ctx = Inr coll" and run: "repo_update drv provider m ctx d s = Inr (r, s')"
    and v: "v = get_version m (to_entity m d)" and i: "i = get_id m (to_entity m d)"
    and e: "e = set_version m (to_entity m d) (wrap64 (v + 1))"
  shows "r = Inr d' \<Longrightarrow> (\<exists>old. stored drv s coll i = Some old \<and> get_version m old = v)
      \<and> stored drv s' = put_doc (get_id m) coll e (stored drv s) \<and> d' = to_domain m e"
    and "r = Inl (Sentinel ErrOptimisticLocking) \<Longrightarrow>
      (\<forall>old. stored drv s coll i = Some old \<longrightarrow> get_version m old \<noteq> v) \<and> stored drv s' = stored drv s"
    and "(\<forall>old. stored drv s coll i = Some old \<longrightarrow> get_version m old \<noteq> v) \<Longrightarrow>
      (\<exists>err. r = Inl err) \<and> stored drv s' = stored drv s"
proof -
  have id: "get_id m e = i" using m by (simp add: mapper_ok_def e i)
  obtain q where q: "find_and_replace drv ctx coll (by_id_version i v) e s = (q, s')"
    and r: "r = (case q of
                Inl e \<Rightarrow> if errors_is_lib e MongoErrNoDocuments then Inl (Sentinel ErrOptimisticLocking)
                         else Inl (Wrapf ''failed to update entity: '' e [])
              | Inr d \<Rightarrow> (case wrap_err ''failed to decode updated entity'' d of
                    Inl e \<Rightarrow> Inl e | Inr e \<Rightarrow> Inr (to_domain m e)))"
    using run coll id by (auto simp: repo_update_def Let_def v e split: prod.splits)
  note law = replace_law [OF conf q]
  have hit: "(\<exists>old \<in> found drv s coll (by_id_version i v). get_id m old = get_id m e)
      \<longleftrightarrow> (\<exists>old. stored drv s coll i = Some old \<and> get_version m old = v)"
    using stored_ident(1) [OF conf, of s coll i] by (auto simp: found_by_id(2) [OF conf] id)
  show "r = Inr d' \<Longrightarrow> (\<exists>old. stored drv s coll i = Some old \<and> get_version m old = v)
      \<and> stored drv s' = put_doc (get_id m) coll e (stored drv s) \<and> d' = to_domain m e"
    using law(1) hit r by (auto split: sum.splits if_splits simp: wrap_err_def)
  show "r = Inl (Sentinel ErrOptimisticLocking) \<Longrightarrow>
      (\<forall>old. stored drv s coll i = Some old \<longrightarrow> get_version m old \<noteq> v) \<and> stored drv s' = stored drv s"
    using law(3) r by (auto split: sum.splits if_splits simp: wrap_err_def found_by_id(2) [OF conf])
  show "(\<forall>old. stored drv s coll i = Some old \<longrightarrow> get_version m old \<noteq> v) \<Longrightarrow>
      (\<exists>err. r = Inl err) \<and> stored drv s' = stored drv s"
    using law(1,2) hit r by (auto split: sum.splits if_splits)
qed

lemma repo_upsert_effect:
  assumes conf: "driver_conforms (get_id m) (get_version m) drv"
    and coll: "provider ctx = Inr coll" and run: "repo_upsert_if_newer drv provider m ctx d s = Inr (r, s')"
    and e: "e = to_entity m d" and i: "i = get_id m e"
  shows "r = Inr b \<Longrightarrow> b \<and> stored drv s' = put_doc (get_id m) coll e (stored drv s)"
    and "stored drv s' = stored drv s \<or> stored drv s' = put_doc (get_id m) coll e (stored drv s)
       \<and> (\<forall>old. stored drv s coll i = Some old \<longrightarrow> get_version m old < get_version m e)"
    and "stored drv s coll i = Some old \<Longrightarrow> get_version m e \<le> get_version m old \<Longrightarrow>
      (\<exists>err. r = Inl err) \<and> stored drv s' = stored drv s"
proof -
  obtain q where q: "replace_upsert drv ctx coll (by_id_older i (get_version m e)) e s = (q, s')"
    and r: "r = (case wrap_err ''failed to upsert entity'' q of
                Inl e \<Rightarrow> Inl e | Inr (matched, upserted) \<Rightarrow> Inr (matched > 0 \<or> upserted > 0))"
    using run coll by (auto simp: repo_upsert_if_newer_def Let_def e i split: prod.splits)
  note law = upsert_law [OF conf q]
  have hit: "(\<exists>old \<in> found drv s coll (by_id_older i (get_version m e)). get_id m old = get_id m e)
      \<longleftrightarrow> (\<exists>old. stored drv s coll i = Some old \<and> get_version m old < get_version m e)"
    using stored_ident(1) [OF conf, of s coll i] by (auto simp: found_by_id(3) [OF conf] i)
  show "r = Inr b \<Longrightarrow> b \<and> stored drv s' = put_doc (get_id m) coll e (stored drv s)"
    using law(1) r by (cases q) (auto simp: wrap_err_def)
  show all: "stored drv s' = stored drv s \<or> stored drv s' = put_doc (get_id m) coll e (stored drv s)
       \<and> (\<forall>old. stored drv s coll i = Some old \<longrightarrow> get_version m old < get_version m e)"
    using law(2) hit by (auto simp: i)
  show "(\<exists>err. r = Inl err) \<and> stored drv s' = stored drv s"
    if "stored drv s coll i = Some old" "get_version m e \<le> get_version m old"
    using that law(1) hit r all by (cases q) (auto simp: wrap_err_def i)
qed

lemma query_all_effect:
  assumes "driver_conforms ident version drv" and "query_all drv m ctx coll f opts s = (r, s')"
  shows "stored drv s' = stored drv s"
    and "r = Inr ds \<Longrightarrow> \<exists>es s1. find_many drv ctx coll f opts s = (Inr (Inr es), s1) \<and> ds = map (to_domain m) es"
  using assms(2) find_many_law(1) [OF assms(1), of ctx coll f opts s]
  by (auto simp: query_all_def Let_def wrap_err_def split: prod.splits sum.splits)

subsection \<open>Optimistic locking\<close>

text \<open>
  C11. \<^verbatim>\<open>Update\<close> never loses an update: it succeeds only on the version the caller read and stores
  the next one, and any second \<^verbatim>\<open>Update\<close> made from the same version then fails and leaves the
  collection as it is; \<^verbatim>\<open>ErrOptimisticLocking\<close> means the version was not there and nothing changed.
\<close>

theorem update_never_lost:
  assumes conf: "driver_conforms (get_id m) (get_version m) drv" "mapper_ok m"
    and coll: "provider ctx = Inr coll" "provider ctx2 = Inr coll"
    and same: "get_id m (to_entity m d2) = get_id m (to_entity m d)"
      "get_version m (to_entity m d2) = get_version m (to_entity m d)"
    and first: "repo_update drv provider m ctx d s = Inr (r, s1)"
    and second: "repo_update drv provider m ctx2 d2 s1 = Inr (r2, s2)"
  shows "(is_ok r \<longrightarrow>
            (\<exists>old. stored drv s coll (get_id m (to_entity m d)) = Some old
               \<and> get_version m old = get_version m (to_entity m d))
          \<and> (\<exists>new. stored drv s1 coll (get_id m (to_entity m d)) = Some new
               \<and> get_version m new = wrap64 (get_version m (to_entity m d) + 1))
          \<and> \<not> is_ok r2 \<and> stored drv s2 = stored drv s1)
    \<and> (r = Inl (Sentinel ErrOptimisticLocking) \<longrightarrow> stored drv s1 = stored drv s)"
proof (intro conjI impI)
  let ?v = "get_version m (to_entity m d)" and ?i = "get_id m (to_entity m d)"
  let ?e = "set_version m (to_entity m d) (wrap64 (?v + 1))"
  note eff = repo_update_effect [OF conf coll(1) first refl refl refl]
  show "stored drv s1 = stored drv s" if "r = Inl (Sentinel ErrOptimisticLocking)" using eff(2) [OF that] by blast
  assume "is_ok r"
  then obtain d' where r: "r = Inr d'" by (auto simp: is_ok_iff)
  have e: "get_id m ?e = ?i" "get_version m ?e = wrap64 (?v + 1)" using conf(2) by (simp_all add: mapper_ok_def)
  from eff(1) [OF r] show "\<exists>old. stored drv s coll ?i = Some old \<and> get_version m old = ?v" by blast
  from eff(1) [OF r] have s1: "stored drv s1 coll ?i = Some ?e" by (simp add: put_doc_def e(1))
  then show "\<exists>new. stored drv s1 coll ?i = Some new \<and> get_version m new = wrap64 (?v + 1)" using e(2) by blast
  have "wrap64 (?v + 1) \<noteq> ?v" by (rule wrap64_succ_neq)
  with s1 e(2) same have "\<forall>old. stored drv s1 coll (get_id m (to_entity m d2)) = Some old
      \<longrightarrow> get_version m old \<noteq> get_version m (to_entity m d2)" by simp
  from repo_update_effect(3) [OF conf coll(2) second refl refl refl this]
  show "\<not> is_ok r2" "stored drv s2 = stored drv s1" by auto
qed

definition doc_mapper :: "(doc, doc) entity_mapper" where
  "doc_mapper = \<lparr>to_entity = id, to_domain = id, get_id = doc_id, get_version = doc_version,
     set_version = (\<lambda>d v. d\<lparr>doc_version := v\<rparr>)\<rparr>"

lemma doc_mapper_ok:
  "mapper_ok doc_mapper" "driver_conforms (get_id doc_mapper) (get_version doc_mapper) mem_driver"
  using mem_driver_conforms by (simp_all add: mapper_ok_def doc_mapper_def)

definition shop :: collection where "shop = (''shop'', ''items'')"

definition item :: "string \<Rightarrow> int \<Rightarrow> doc" where
  "item i v = \<lparr>doc_id = i, doc_version = v, doc_body = ''body''\<rparr>"

definition one_item :: mem where "one_item = (\<lambda>_. [])(shop := [item ''a'' 1])"

lemmas mem_eval = first_by_def firsts_def mem_driver_def mem_hits_def mem_docs_def mem_lookup_def mem_matches_def mem_put_def
  by_id_def by_id_version_def by_id_older_def doc_mapper_def static_collection_def one_item_def item_def

theorem update_never_lost_witness:
  "\<exists>r s1 r2 s2. repo_update mem_driver (static_collection shop) doc_mapper ctx_background (item ''a'' 1) one_item = Inr (r, s1)
     \<and> repo_update mem_driver (static_collection shop) doc_mapper ctx_background (item ''a'' 1) s1 = Inr (r2, s2)
     \<and> is_ok r \<and> \<not> is_ok r2"
proof -
  let ?upd = "repo_update mem_driver (static_collection shop) doc_mapper ctx_background (item ''a'' 1)"
  obtain r s1 where 1: "?upd one_item = Inr (r, s1)" and ok: "is_ok r"
    by (simp add: repo_update_def mem_eval Let_def wrap64_def wrap_err_def)
  obtain r2 s2 where 2: "?upd s1 = Inr (r2, s2)"
    by (cases "?upd s1") (auto simp: repo_update_def static_collection_def Let_def split: prod.splits)
  have "\<not> is_ok r2"
    using update_never_lost [OF doc_mapper_ok(2,1) _ _ refl refl 1 2, of shop] ok
    by (simp add: static_collection_def)
  with 1 2 ok show ?thesis by blast
qed

subsection \<open>Projections\<close>

text \<open>
  C26. \<^verbatim>\<open>UpsertIfNewer\<close> applies events out of order safely: the stored version never decreases, and
  when it reports true the given entity is stored. On an event that is not newer it changes
  nothing, but it returns an error, never the documented \<^verbatim>\<open>false\<close> with a nil error: the upsert then
  tries to insert a second document with the same \<^verbatim>\<open>_id\<close>, which the unique index refuses.
\<close>

theorem upsert_if_newer_monotone:
  assumes conf: "driver_conforms (get_id m) (get_version m) drv"
    and coll: "provider ctx = Inr coll" and run: "repo_upsert_if_newer drv provider m ctx d s = Inr (r, s')"
  shows "(\<forall>old. stored drv s coll i = Some old \<longrightarrow>
            (\<exists>new. stored drv s' coll i = Some new \<and> get_version m old \<le> get_version m new))
    \<and> r \<noteq> Inr False
    \<and> (r = Inr True \<longrightarrow> stored drv s' coll (get_id m (to_entity m d)) = Some (to_entity m d))
    \<and> (\<forall>old. stored drv s coll (get_id m (to_entity m d)) = Some old \<longrightarrow>
          get_version m (to_entity m d) \<le> get_version m old \<longrightarrow>
          (\<exists>err. r = Inl err) \<and> stored drv s' = stored drv s)"
proof -
  note eff = repo_upsert_effect [OF conf coll run refl refl]
  have "\<exists>new. stored drv s' coll i = Some new \<and> get_version m old \<le> get_version m new"
    if old: "stored drv s coll i = Some old" for old
  proof (cases "stored drv s' = stored drv s")
    case False
    with eff(2) have put: "stored drv s' = put_doc (get_id m) coll (to_entity m d) (stored drv s)"
      and newer: "\<forall>old. stored drv s coll (get_id m (to_entity m d)) = Some old \<longrightarrow> get_version m old < get_version m (to_entity m d)"
      by blast+
    show ?thesis
    proof (cases "i = get_id m (to_entity m d)")
      case True
      with old newer have "get_version m old \<le> get_version m (to_entity m d)" by fastforce
      with put True show ?thesis by (simp add: put_doc_def)
    qed (use put old in \<open>simp add: put_doc_def\<close>)
  qed (use old in auto)
  moreover have "r \<noteq> Inr False" using eff(1) [of False] by blast
  moreover have "r = Inr True \<Longrightarrow> stored drv s' coll (get_id m (to_entity m d)) = Some (to_entity m d)"
    using eff(1) [of True] by (simp add: put_doc_def)
  ultimately show ?thesis using eff(3) by blast
qed

theorem upsert_if_newer_monotone_witness:
  "\<exists>err s'. repo_upsert_if_newer mem_driver (static_collection shop) doc_mapper ctx_background (item ''a'' 1) one_item
     = Inr (Inl err, s')"
proof -
  let ?u = "repo_upsert_if_newer mem_driver (static_collection shop) doc_mapper ctx_background (item ''a'' 1) one_item"
  obtain r s' where u: "?u = Inr (r, s')"
    by (cases ?u) (auto simp: repo_upsert_if_newer_def static_collection_def Let_def split: prod.splits)
  have "stored mem_driver one_item shop (get_id doc_mapper (to_entity doc_mapper (item ''a'' 1))) = Some (item ''a'' 1)"
    by (simp add: mem_eval)
  with upsert_if_newer_monotone [OF doc_mapper_ok(2) _ u, of shop] have "\<exists>err. r = Inl err"
    by (auto simp: static_collection_def doc_mapper_def)
  with u show ?thesis by blast
qed

subsection \<open>Pagination\<close>

lemma total_pages_bounds:
  assumes "0 \<le> cnt" and "0 < sz"
  shows "cnt \<le> total_pages cnt sz * sz \<and> total_pages cnt sz * sz < cnt + sz"
proof -
  define q r where "q = cnt div sz" and "r = cnt mod sz"
  have cnt: "cnt = q * sz + r" and r: "0 \<le> r" "r < sz" using assms(2) by (simp_all add: q_def r_def)
  have "total_pages cnt sz = (if r \<noteq> 0 then q + 1 else q)"
    using assms by (simp add: total_pages_def go_quot_nonneg go_rem_nonneg q_def r_def)
  with r show ?thesis unfolding cnt by (auto simp: algebra_simps)
qed

text \<open>
  C27. A page of \<^verbatim>\<open>FindWithOptions\<close> is the window the request asks for: with the defaults applied
  (page 1, size 10), some ordering of all matching documents in the requested sort order, cut at
  the page's offset and size; the total counts all of them, and the number of pages is the least
  that holds them. Stated for offsets within 64 bits; the store is unchanged.
\<close>

theorem find_with_options_page:
  assumes conf: "driver_conforms ident version drv"
    and coll: "provider ctx = Inr coll"
    and run: "repo_find_with_options drv provider m ctx opts s = Inr (Inr res, s')"
    and range: "(pr_page res - 1) * pr_size res < 2 ^ 63"
  shows "stored drv s' = stored drv s
    \<and> pr_page res = max 1 (qo_page opts) \<and> pr_size res = (if qo_size opts < 1 then 10 else qo_size opts)
    \<and> (\<exists>ys. distinct ys \<and> set ys = found drv s coll (case qo_filter opts of None \<Rightarrow> [] | Some f \<Rightarrow> f)
         \<and> in_order drv (qo_sort opts) ys \<and> pr_total res = int (length ys)
         \<and> pr_items res = map (to_domain m)
             (take (nat (pr_size res)) (drop (nat ((pr_page res - 1) * pr_size res)) ys)))
    \<and> pr_total res \<le> pr_total_pages res * pr_size res
    \<and> pr_total_pages res * pr_size res < pr_total res + pr_size res"
proof -
  let ?page = "if qo_page opts < 1 then 1 else qo_page opts"
  let ?size = "if qo_size opts < 1 then 10 else qo_size opts"
  let ?f = "case qo_filter opts of None \<Rightarrow> [] | Some f \<Rightarrow> f"
  let ?o = "\<lparr>fo_skip = Some (wrap64 ((?page - 1) * ?size)), fo_limit = Some ?size, fo_sort = qo_sort opts\<rparr>"
  obtain n s1 ds where count: "count_docs drv ctx coll ?f None s = (Inr n, s1)"
    and all: "query_all drv m ctx coll ?f ?o s1 = (Inr ds, s')"
    and res: "res = \<lparr>pr_items = ds, pr_total = n, pr_page = ?page, pr_size = ?size, pr_total_pages = total_pages n ?size\<rparr>"
    using run coll unfolding repo_find_with_options_def Let_def
    by (auto simp: wrap_err_def split: prod.splits sum.splits)
  note q = query_all_effect [OF conf all]
  from q(2) [OF refl] obtain es s2 where es: "find_many drv ctx coll ?f ?o s1 = (Inr (Inr es), s2)"
    "ds = map (to_domain m) es" by blast
  have st: "stored drv s1 = stored drv s" using count_law(1) [OF conf count] .
  then have fnd: "found drv s1 coll ?f = found drv s coll ?f" by (simp add: found_def)
  have size: "0 < ?size" and page: "0 \<le> (?page - 1) * ?size" by simp_all
  have skip: "wrap64 ((?page - 1) * ?size) = (?page - 1) * ?size"
  proof (rule wrap64_id, rule conjI)
    show "- (2 ^ 63) \<le> (?page - 1) * ?size" by (rule order.trans [OF _ page]) simp
    show "(?page - 1) * ?size < 2 ^ 63" using range unfolding res page_result.simps .
  qed
  from find_many_law(2) [OF conf es(1) refl] obtain ys where ys: "distinct ys" "set ys = found drv s coll ?f"
    "in_order drv (qo_sort opts) ys" "es = take (nat ?size) (drop (nat ((?page - 1) * ?size)) ys)"
    unfolding skip fnd using size by (auto simp: abs_of_pos simp del: drop_drop)
  have n: "n = int (length ys)" using count_law(2) [OF conf count refl] ys(1,2) by (simp add: distinct_card [symmetric])
  have pages: "n \<le> total_pages n ?size * ?size \<and> total_pages n ?size * ?size < n + ?size"
    using n size by (intro total_pages_bounds) simp_all
  have items: "pr_items res = map (to_domain m)
      (take (nat (pr_size res)) (drop (nat ((pr_page res - 1) * pr_size res)) ys))"
    unfolding res page_result.simps using es(2) ys(4) by simp
  have "stored drv s' = stored drv s" using q(1) st by simp
  moreover have "pr_page res = max 1 (qo_page opts)" by (simp add: res max_def)
  moreover have "pr_total res = int (length ys)" by (simp add: res n)
  moreover have "pr_total res \<le> pr_total_pages res * pr_size res"
    "pr_total_pages res * pr_size res < pr_total res + pr_size res"
    unfolding res page_result.simps using pages by blast+
  ultimately show ?thesis using ys(1-3) items by (simp add: res) blast
qed

definition page_request :: "int \<Rightarrow> int \<Rightarrow> query_options" where
  "page_request page sz = \<lparr>qo_filter = None, qo_page = page, qo_size = sz, qo_sort = None\<rparr>"

lemma page_of_one_item:
  "repo_find_with_options mem_driver (static_collection shop) doc_mapper ctx_background (page_request 0 0) one_item
    = Inr (Inr \<lparr>pr_items = [item ''a'' 1], pr_total = 1, pr_page = 1, pr_size = 10, pr_total_pages = 1\<rparr>, one_item)"
  by (simp add: repo_find_with_options_def query_all_def page_request_def mem_eval Let_def wrap_err_def wrap64_def
      total_pages_def go_quot_def go_rem_def)

theorem find_with_options_page_witness:
  "\<exists>res ys. repo_find_with_options mem_driver (static_collection shop) doc_mapper ctx_background (page_request 0 0) one_item
       = Inr (Inr res, one_item)
     \<and> distinct ys \<and> set ys = found mem_driver one_item shop [] \<and> pr_total res = int (length ys)
     \<and> pr_items res = map (to_domain doc_mapper) (take 10 ys) \<and> pr_items res = [item ''a'' 1]
     \<and> pr_page res = 1 \<and> pr_size res = 10 \<and> pr_total_pages res = 1"
  using find_with_options_page [OF mem_driver_conforms _ page_of_one_item, of shop]
  by (intro exI [of _ "\<lparr>pr_items = [item ''a'' 1], pr_total = 1, pr_page = 1, pr_size = 10, pr_total_pages = 1\<rparr>"])
    (auto simp: static_collection_def page_request_def page_of_one_item [unfolded page_request_def])

text \<open>
  Beyond 64 bits the offset wraps: a request for page \<open>2 ^ 61 + 1\<close> of size 16 is answered with
  the first page's items, under the number of the requested page.
\<close>

theorem find_with_options_wraps:
  "\<exists>res. repo_find_with_options mem_driver (static_collection shop) doc_mapper ctx_background
       (page_request (2 ^ 61 + 1) 16) one_item = Inr (Inr res, one_item)
     \<and> pr_items res = [item ''a'' 1] \<and> pr_page res = 2 ^ 61 + 1 \<and> pr_total_pages res = 1"
  by (simp add: repo_find_with_options_def query_all_def page_request_def mem_eval Let_def wrap_err_def wrap64_def
      total_pages_def go_quot_def go_rem_def)

end
