(* ===== verification/Tenant_Registry.thy ===== *)
theory Tenant_Registry
  imports Mongo_Driver
begin

section \<open>The tenant registry (pkg/tenant)\<close>

text \<open>
  \<^verbatim>\<open>repository.go\<close> over a parameter collection, and its clients \<^verbatim>\<open>sync.go\<close>, \<^verbatim>\<open>lifecycle.go\<close>,
  \<^verbatim>\<open>migrator.go\<close>, \<^verbatim>\<open>cleaner.go\<close> and \<^verbatim>\<open>cleanup_worker.go\<close>, written over the interface \<^verbatim>\<open>Repository\<close>,
  which is the locale \<open>tenant_repository\<close>. The state \<open>'s\<close> holds the registry, the clock that
  \<^verbatim>\<open>time.Now()\<close> reads and whatever else the calls change. Logging is left out.
\<close>

subsection \<open>Records\<close>

definition status_active :: string where "status_active = ''active''"
definition status_pending_deletion :: string where "status_pending_deletion = ''pending_deletion''"

record tenant_record =
  tr_slug :: string
  tr_status :: string
  tr_delete_after :: "time option"
  tr_created_at :: time
  tr_modified_at :: time

lemma status_neq [simp]: "status_active \<noteq> status_pending_deletion" "status_pending_deletion \<noteq> status_active"
  by (simp_all add: status_active_def status_pending_deletion_def)

text \<open>The effect of setting a document's field on the record, by the record's \<^verbatim>\<open>bson\<close> tags.\<close>

fun set_field :: "string \<times> bson \<Rightarrow> tenant_record \<Rightarrow> tenant_record" where
  "set_field (k, Bson_string x) r = (if k = ''status'' then r\<lparr>tr_status := x\<rparr> else r)"
| "set_field (k, Bson_null) r = (if k = ''delete_after'' then r\<lparr>tr_delete_after := None\<rparr> else r)"
| "set_field (k, Bson_time t) r =
     (if k = ''delete_after'' then r\<lparr>tr_delete_after := Some t\<rparr>
      else if k = ''created_at'' then r\<lparr>tr_created_at := t\<rparr>
      else if k = ''modified_at'' then r\<lparr>tr_modified_at := t\<rparr>
      else r)"
| "set_field _ r = r"

lemma set_field_slug [simp]: "tr_slug (set_field f r) = tr_slug r"
  by (cases "(f, r)" rule: set_field.cases) auto

definition blank_record :: "string \<Rightarrow> tenant_record" where
  "blank_record slug = \<lparr>tr_slug = slug, tr_status = [], tr_delete_after = None, tr_created_at = 0,
     tr_modified_at = 0\<rparr>"

definition upsert_update :: "time \<Rightarrow> bson_d" where
  "upsert_update now =
     [(''$set'', Bson_doc [(''status'', Bson_string status_active), (''delete_after'', Bson_null),
                         (''modified_at'', Bson_time now)]),
      (''$setOnInsert'', Bson_doc [(''created_at'', Bson_time now)])]"

definition mark_update :: "time \<Rightarrow> time \<Rightarrow> bson_d" where
  "mark_update now deleteAfter =
     [(''$set'', Bson_doc [(''status'', Bson_string status_pending_deletion), (''delete_after'', Bson_time deleteAfter),
                         (''modified_at'', Bson_time now)]),
      (''$setOnInsert'', Bson_doc [(''created_at'', Bson_time now)])]"

text \<open>An \<^verbatim>\<open>UpdateOne\<close> with upsert, on the old record if there is one.\<close>

fun apply_update :: "string \<Rightarrow> bson_d \<Rightarrow> tenant_record option \<Rightarrow> tenant_record" where
  "apply_update slug [(a, Bson_doc sets), (b, Bson_doc inserts)] old =
     (case old of
        Some r \<Rightarrow> fold set_field sets r
      | None \<Rightarrow> fold set_field sets (fold set_field inserts (blank_record slug)))"
| "apply_update slug _ old = (case old of Some r \<Rightarrow> r | None \<Rightarrow> blank_record slug)"

definition active_filter :: bson_d where
  "active_filter = [(''status'', Bson_string status_active)]"

definition pending_filter :: "time \<Rightarrow> bson_d" where
  "pending_filter now = [(''status'', Bson_string status_pending_deletion),
     (''delete_after'', Bson_doc [(''$lte'', Bson_time now)])]"

subsection \<open>The collection\<close>

record 's registry_driver =
  registry :: "'s \<Rightarrow> string \<Rightarrow> tenant_record option"
  rd_clock :: "'s \<Rightarrow> time"
  rd_update :: "go_ctx \<Rightarrow> bson_d \<Rightarrow> bson_d \<Rightarrow> 's \<Rightarrow> go_error option \<times> 's"
  rd_find :: "go_ctx \<Rightarrow> bson_d \<Rightarrow> 's \<Rightarrow> (go_error, (go_error, tenant_record list) result) result \<times> 's"
  rd_delete :: "go_ctx \<Rightarrow> bson_d \<Rightarrow> 's \<Rightarrow> go_error option \<times> 's"

text \<open>
  The documented behaviour of the collection, on the filters and updates of this package: a write
  that returns an error may have been applied or not.
\<close>

definition expired :: "time \<Rightarrow> tenant_record \<Rightarrow> bool" where
  "expired now r \<longleftrightarrow> tr_status r = status_pending_deletion \<and> (\<exists>t \<le> now. tr_delete_after r = Some t)"

definition registry_conforms :: "'s registry_driver \<Rightarrow> bool" where
  "registry_conforms rd \<longleftrightarrow>
     (\<forall>s slug r. registry rd s slug = Some r \<longrightarrow> tr_slug r = slug)
   \<and> (\<forall>ctx slug u s. (let (e, s') = rd_update rd ctx (by_id slug) u s;
          applied = (registry rd s)(slug \<mapsto> apply_update slug u (registry rd s slug))
        in (e = None \<longrightarrow> registry rd s' = applied) \<and> (registry rd s' = registry rd s \<or> registry rd s' = applied)))
   \<and> (\<forall>ctx slug s. (let (e, s') = rd_delete rd ctx (by_id slug) s;
          applied = (registry rd s)(slug := None)
        in (e = None \<longrightarrow> registry rd s' = applied) \<and> (registry rd s' = registry rd s \<or> registry rd s' = applied)))
   \<and> (\<forall>ctx f s. (let (q, s') = rd_find rd ctx f s
        in registry rd s' = registry rd s
         \<and> (\<forall>rs. q = Inr (Inr rs) \<longrightarrow> f = active_filter \<longrightarrow>
              set rs = {r \<in> ran (registry rd s). tr_status r = status_active})
         \<and> (\<forall>rs now. q = Inr (Inr rs) \<longrightarrow> f = pending_filter now \<longrightarrow>
              set rs = {r \<in> ran (registry rd s). expired now r})))"

subsection \<open>The repository\<close>

text \<open>The interface \<^verbatim>\<open>Repository\<close>, with the clock its callers read as well.\<close>

record 's tenant_repo =
  repo_now :: "'s \<Rightarrow> time"
  repo_upsert :: "go_ctx \<Rightarrow> string \<Rightarrow> 's \<Rightarrow> go_error option \<times> 's"
  repo_mark :: "go_ctx \<Rightarrow> string \<Rightarrow> time \<Rightarrow> 's \<Rightarrow> go_error option \<times> 's"
  repo_pending :: "go_ctx \<Rightarrow> 's \<Rightarrow> (go_error, tenant_record list) result \<times> 's"
  repo_active :: "go_ctx \<Rightarrow> 's \<Rightarrow> (go_error, tenant_record list) result \<times> 's"
  repo_remove :: "go_ctx \<Rightarrow> string \<Rightarrow> 's \<Rightarrow> go_error option \<times> 's"

definition wrapping :: "string \<Rightarrow> go_error option \<times> 's \<Rightarrow> go_error option \<times> 's" where
  "wrapping what r = apfst (map_option (\<lambda>e. Wrapf what e [])) r"

lemma wrapping_iff [simp]: "wrapping what r = (None, s) \<longleftrightarrow> r = (None, s)" "snd (wrapping what r) = snd r"
  by (cases r; simp add: wrapping_def)+

definition mongo_upsert :: "'s registry_driver \<Rightarrow> go_ctx \<Rightarrow> string \<Rightarrow> 's \<Rightarrow> go_error option \<times> 's" where
  "mongo_upsert rd ctx slug s =
     wrapping (''failed to upsert tenant '' @ quoted slug @ '': '')
       (rd_update rd ctx (by_id slug) (upsert_update (rd_clock rd s)) s)"

definition mongo_mark_for_deletion ::
  "'s registry_driver \<Rightarrow> go_ctx \<Rightarrow> string \<Rightarrow> time \<Rightarrow> 's \<Rightarrow> go_error option \<times> 's" where
  "mongo_mark_for_deletion rd ctx slug deleteAfter s =
     wrapping (''failed to mark tenant '' @ quoted slug @ '' for deletion: '')
       (rd_update rd ctx (by_id slug) (mark_update (rd_clock rd s) deleteAfter) s)"

text \<open>\<^verbatim>\<open>Find\<close> and \<^verbatim>\<open>cursor.All\<close>, with their two messages.\<close>

definition mongo_find ::
  "'s registry_driver \<Rightarrow> string \<Rightarrow> go_ctx \<Rightarrow> bson_d \<Rightarrow> 's \<Rightarrow> (go_error, tenant_record list) result \<times> 's" where
  "mongo_find rd what ctx f s =
     apfst (\<lambda>q. case q of
         Inl e \<Rightarrow> Inl (Wrapf (what @ '': '') e [])
       | Inr (Inl e) \<Rightarrow> Inl (Wrapf ''failed to decode tenant records: '' e [])
       | Inr (Inr rs) \<Rightarrow> Inr rs) (rd_find rd ctx f s)"

definition mongo_find_pending_deletion ::
  "'s registry_driver \<Rightarrow> go_ctx \<Rightarrow> 's \<Rightarrow> (go_error, tenant_record list) result \<times> 's" where
  "mongo_find_pending_deletion rd ctx s =
     mongo_find rd ''failed to find pending deletion tenants'' ctx (pending_filter (rd_clock rd s)) s"

definition mongo_find_active ::
  "'s registry_driver \<Rightarrow> go_ctx \<Rightarrow> 's \<Rightarrow> (go_error, tenant_record list) result \<times> 's" where
  "mongo_find_active rd ctx s = mongo_find rd ''failed to find active tenants'' ctx active_filter s"

definition mongo_remove :: "'s registry_driver \<Rightarrow> go_ctx \<Rightarrow> string \<Rightarrow> 's \<Rightarrow> go_error option \<times> 's" where
  "mongo_remove rd ctx slug s =
     wrapping (''failed to remove tenant '' @ quoted slug @ '' from registry: '') (rd_delete rd ctx (by_id slug) s)"

definition mongo_repository :: "'s registry_driver \<Rightarrow> 's tenant_repo" where
  "mongo_repository rd = \<lparr>repo_now = rd_clock rd, repo_upsert = mongo_upsert rd,
     repo_mark = mongo_mark_for_deletion rd, repo_pending = mongo_find_pending_deletion rd,
     repo_active = mongo_find_active rd, repo_remove = mongo_remove rd\<rparr>"

subsection \<open>Clients of the repository\<close>

text \<open>Library \<^verbatim>\<open>lo\<close>, with its documented behaviour.\<close>

record lo_lib =
  lo_map :: "(tenant_record \<Rightarrow> string) \<Rightarrow> tenant_record list \<Rightarrow> string list"
  lo_without :: "string list \<Rightarrow> string list \<Rightarrow> string list"

definition lo_conforms :: "lo_lib \<Rightarrow> bool" where
  "lo_conforms lo \<longleftrightarrow> (\<forall>f rs. lo_map lo f rs = map f rs)
     \<and> (\<forall>xs ys. lo_without lo xs ys = filter (\<lambda>x. x \<notin> set ys) xs)"

definition slugs_from_registry where
  "slugs_from_registry lo repo ctx s =
     (let (r, s') = repo_active repo ctx s
      in (case r of Inl e \<Rightarrow> Inl (Wrapf ''failed to read local tenant registry: '' e [])
                  | Inr records \<Rightarrow> Inr (lo_map lo tr_slug records), s'))"

fun upsert_each where
  "upsert_each repo ctx [] s = (None, s)"
| "upsert_each repo ctx (slug # slugs) s =
     (case repo_upsert repo ctx slug s of
        (Some e, s') \<Rightarrow> (Some (Wrapf (''failed to upsert tenant '' @ quoted slug @ '': '') e []), s')
      | (None, s') \<Rightarrow> upsert_each repo ctx slugs s')"

fun mark_each where
  "mark_each repo ctx deleteAfter [] s = (None, s)"
| "mark_each repo ctx deleteAfter (slug # slugs) s =
     (case repo_mark repo ctx slug deleteAfter s of
        (Some e, s') \<Rightarrow> (Some (Wrapf (''failed to mark tenant '' @ quoted slug @ '' for deletion: '') e []), s')
      | (None, s') \<Rightarrow> mark_each repo ctx deleteAfter slugs s')"

definition sync_registry where
  "sync_registry lo repo ctx apiSlugs localSlugs s =
     (case upsert_each repo ctx (lo_without lo apiSlugs localSlugs) s of
        (Some e, s') \<Rightarrow> (Some e, s')
      | (None, s') \<Rightarrow>
          (let deleteAfter = repo_now repo s' + 5 * minute
           in mark_each repo ctx deleteAfter (lo_without lo localSlugs apiSlugs) s'))"

text \<open>\<open>slugs\<close> is the \<^verbatim>\<open>SlugsProvider\<close>: implemented by the services, a parameter.\<close>

definition tenant_sync where
  "tenant_sync lo repo slugs ctx s =
     (case slugs_from_registry lo repo ctx s of
        (Inl e, s1) \<Rightarrow> (Inl e, s1)
      | (Inr localSlugs, s1) \<Rightarrow>
          (case slugs ctx s1 of
             (Inl e, s2) \<Rightarrow> (Inr localSlugs, s2)
           | (Inr apiSlugs, s2) \<Rightarrow>
               (case sync_registry lo repo ctx apiSlugs localSlugs s2 of
                  (Some e, s3) \<Rightarrow> (Inl (Wrapf ''failed to sync tenant registry: '' e []), s3)
                | (None, s3) \<Rightarrow> (Inr apiSlugs, s3))))"

text \<open>
  \<^verbatim>\<open>MigrateDatabase\<close>: \<open>open_migrator\<close> and \<open>up\<close> are \<^verbatim>\<open>migrate.New\<close> and \<^verbatim>\<open>m.Up\<close>. Closing the migrator and
  reading its version only log.
\<close>

definition migrate_database where
  "migrate_database open_migrator up dbURL migrationsPath s =
     (case open_migrator (''file://'' @ migrationsPath) dbURL s of
        (Some e, s') \<Rightarrow> (Some (Wrapf ''failed to create migrator: '' e []), s')
      | (None, s') \<Rightarrow>
          (case up dbURL s' of
             (Some e, s'') \<Rightarrow> (if errors_is_lib e MigrateErrNoChange then (None, s'')
                             else (Some (Wrapf ''migration failed: '' e []), s''))
           | (None, s'') \<Rightarrow> (None, s'')))"

text \<open>
  \<^verbatim>\<open>MigrateTenant\<close>: \<open>with_path uri path\<close> is \<^verbatim>\<open>url.Parse\<close>, the assignment of the path and \<^verbatim>\<open>String\<close>;
  \<open>migrate\<close> is \<^verbatim>\<open>MigrateDatabase\<close> on the runner's migrations.
\<close>

definition migrate_tenant where
  "migrate_tenant with_path migrate baseURI baseDatabase slug s =
     (let database = tenant_database baseDatabase slug
      in case with_path baseURI (''/'' @ database) of
           Inl e \<Rightarrow> (Some (Wrapf ''failed to parse base mongo uri: '' e []), s)
         | Inr dbURL \<Rightarrow> migrate dbURL s)"

fun migrate_each where
  "migrate_each migrate_one [] s = (None, s)"
| "migrate_each migrate_one (r # rs) s =
     (case migrate_one (tr_slug r) s of
        (Some e, s') \<Rightarrow> (Some (Wrapf (''migration failed for tenant '' @ quoted (tr_slug r) @ '': '') e []), s')
      | (None, s') \<Rightarrow> migrate_each migrate_one rs s')"

definition tenant_migrations_run where
  "tenant_migrations_run lo repo slugs migrate_one ctx s =
     (case tenant_sync lo repo slugs ctx s of
        (Inl e, s1) \<Rightarrow> (Some (Wrapf ''tenant sync failed: '' e []), s1)
      | (Inr _, s1) \<Rightarrow>
          (case repo_active repo ctx s1 of
             (Inl e, s2) \<Rightarrow> (Some (Wrapf ''failed to list active tenants: '' e []), s2)
           | (Inr records, s2) \<Rightarrow>
               if records = [] then (None, s2) else migrate_each migrate_one records s2))"

definition lifecycle_create where
  "lifecycle_create repo migrate_one ctx slug s =
     (case repo_upsert repo ctx slug s of
        (Some e, s') \<Rightarrow> (Some (Wrapf (''failed to register tenant '' @ quoted slug @ '': '') e []), s')
      | (None, s') \<Rightarrow> wrapping (''failed to migrate tenant '' @ quoted slug @ '': '') (migrate_one slug s'))"

definition lifecycle_delete where
  "lifecycle_delete repo ctx slug s =
     (let deleteAfter = repo_now repo s + 5 * minute
      in wrapping (''failed to mark tenant '' @ quoted slug @ '' for deletion: '') (repo_mark repo ctx slug deleteAfter s))"

text \<open>\<^verbatim>\<open>CleanupTenant\<close>: \<open>drop_db\<close> is the driver's \<^verbatim>\<open>Database(name).Drop\<close>.\<close>

definition mongo_cleaner where
  "mongo_cleaner drop_db base ctx slug s =
     wrapping (''failed to drop tenant database '' @ quoted (tenant_database base slug) @ '': '')
       (drop_db ctx (tenant_database base slug) s)"

text \<open>The cleanup's calls are recorded: cleaners and the removal, with their errors.\<close>

datatype cleanup_event = Cleaner_called nat string "go_error option" | Record_removed string "go_error option"

fun run_cleaners where
  "run_cleaners ctx slug n [] s = (True, [], s)"
| "run_cleaners ctx slug n (cleaner # cleaners) s =
     (case cleaner ctx slug s of
        (Some e, s') \<Rightarrow> (False, [Cleaner_called n slug (Some e)], s')
      | (None, s') \<Rightarrow>
          (let (ok, evs, s'') = run_cleaners ctx slug (n + 1) cleaners s'
           in (ok, Cleaner_called n slug None # evs, s'')))"

definition cleanup_tenant where
  "cleanup_tenant repo cleaners ctx slug s =
     (case run_cleaners ctx slug 0 cleaners s of
        (False, evs, s') \<Rightarrow> (evs, s')
      | (True, evs, s') \<Rightarrow>
          (let (e, s'') = repo_remove repo ctx slug s' in (evs @ [Record_removed slug e], s'')))"

fun cleanup_each where
  "cleanup_each repo cleaners ctx [] s = ([], s)"
| "cleanup_each repo cleaners ctx (r # rs) s =
     (let (evs, s') = cleanup_tenant repo cleaners ctx (tr_slug r) s;
          (evs', s'') = cleanup_each repo cleaners ctx rs s'
      in (evs @ evs', s''))"

definition process_expired_tenants where
  "process_expired_tenants repo cleaners ctx s =
     (case repo_pending repo ctx s of
        (Inl e, s') \<Rightarrow> ([], s')
      | (Inr records, s') \<Rightarrow> cleanup_each repo cleaners ctx records s')"

end
