(* ===== verification/Tenant_Operations.thy ===== *)
theory Tenant_Operations
  imports Tenant_Registry
begin

section \<open>What the tenant operations guarantee (pkg/tenant)\<close>

text \<open>
  The contract of the interface \<^verbatim>\<open>Repository\<close> as a locale, the lemmas its clients rest on, its
  interpretation on the MongoDB repository, and the properties of synchronisation, lifecycle,
  migration and cleanup.
\<close>

subsection \<open>The contract of the repository\<close>

definition activated :: "time \<Rightarrow> string \<Rightarrow> tenant_record option \<Rightarrow> tenant_record" where
  "activated now slug old = \<lparr>tr_slug = slug, tr_status = status_active, tr_delete_after = None,
     tr_created_at = (case old of None \<Rightarrow> now | Some r \<Rightarrow> tr_created_at r), tr_modified_at = now\<rparr>"

definition marked :: "time \<Rightarrow> time \<Rightarrow> string \<Rightarrow> tenant_record option \<Rightarrow> tenant_record" where
  "marked now deleteAfter slug old = \<lparr>tr_slug = slug, tr_status = status_pending_deletion,
     tr_delete_after = Some deleteAfter,
     tr_created_at = (case old of None \<Rightarrow> now | Some r \<Rightarrow> tr_created_at r), tr_modified_at = now\<rparr>"

lemma record_simps [simp]:
  "tr_status (activated now slug old) = status_active" "tr_status (marked now d slug old) = status_pending_deletion"
  "tr_delete_after (marked now d slug old) = Some d" "tr_delete_after (activated now slug old) = None"
  by (simp_all add: activated_def marked_def)

definition active_set :: "(string \<Rightarrow> tenant_record option) \<Rightarrow> string set" where
  "active_set v = {slug. \<exists>r. v slug = Some r \<and> tr_status r = status_active}"

lemma active_set_upd [simp]:
  "active_set (v(slug \<mapsto> r)) = (if tr_status r = status_active then insert slug (active_set v) else active_set v - {slug})"
  "active_set (v(slug := None)) = active_set v - {slug}"
  by (auto simp: active_set_def)

locale tenant_repository =
  fixes conforms :: bool
    and view :: "'s \<Rightarrow> string \<Rightarrow> tenant_record option"
    and repo :: "'s tenant_repo"
  assumes keyed: "conforms \<Longrightarrow> view s slug = Some r \<Longrightarrow> tr_slug r = slug"
    and upsert_law: "conforms \<Longrightarrow> repo_upsert repo ctx slug s = (e, s') \<Longrightarrow>
      (e = None \<longrightarrow> view s' = (view s)(slug \<mapsto> activated (repo_now repo s) slug (view s slug)))
      \<and> (view s' = view s \<or> view s' = (view s)(slug \<mapsto> activated (repo_now repo s) slug (view s slug)))"
    and mark_law: "conforms \<Longrightarrow> repo_mark repo ctx slug d s = (e, s') \<Longrightarrow>
      (e = None \<longrightarrow> view s' = (view s)(slug \<mapsto> marked (repo_now repo s) d slug (view s slug)))
      \<and> (view s' = view s \<or> view s' = (view s)(slug \<mapsto> marked (repo_now repo s) d slug (view s slug)))"
    and remove_law: "conforms \<Longrightarrow> repo_remove repo ctx slug s = (e, s') \<Longrightarrow>
      (e = None \<longrightarrow> view s' = (view s)(slug := None)) \<and> (view s' = view s \<or> view s' = (view s)(slug := None))"
    and active_law: "conforms \<Longrightarrow> repo_active repo ctx s = (q, s') \<Longrightarrow>
      view s' = view s \<and> (\<forall>rs. q = Inr rs \<longrightarrow> set rs = {r \<in> ran (view s). tr_status r = status_active})"
    and pending_law: "conforms \<Longrightarrow> repo_pending repo ctx s = (q, s') \<Longrightarrow>
      view s' = view s \<and> (\<forall>rs. q = Inr rs \<longrightarrow> set rs = {r \<in> ran (view s). expired (repo_now repo s) r})"
begin

lemma slugs_of:
  assumes conforms and "set rs = {r \<in> ran (view s). P r}"
  shows "tr_slug ` set rs = {slug. \<exists>r. view s slug = Some r \<and> P r}"
proof (intro set_eqI iffI)
  fix slug assume "slug \<in> tr_slug ` set rs"
  then obtain r where r: "r \<in> set rs" "slug = tr_slug r" by blast
  with assms(2) obtain k where k: "view s k = Some r" "P r" by (auto simp: ran_def)
  with keyed [OF assms(1) k(1)] r show "slug \<in> {slug. \<exists>r. view s slug = Some r \<and> P r}" by auto
next
  fix slug assume "slug \<in> {slug. \<exists>r. view s slug = Some r \<and> P r}"
  then obtain r where r: "view s slug = Some r" "P r" by blast
  then have "r \<in> set rs" using assms(2) by (auto simp: ran_def)
  then show "slug \<in> tr_slug ` set rs" using keyed [OF assms(1) r(1)] by blast
qed

lemma upsert_each_ok:
  assumes conforms and "upsert_each repo ctx slugs s = (None, s')"
  shows "active_set (view s') = active_set (view s) \<union> set slugs
    \<and> (\<forall>slug. slug \<notin> set slugs \<longrightarrow> view s' slug = view s slug)"
  using assms(2)
proof (induction slugs arbitrary: s)
  case (Cons slug slugs)
  then obtain s1 where s1: "repo_upsert repo ctx slug s = (None, s1)" "upsert_each repo ctx slugs s1 = (None, s')"
    by (auto split: prod.splits option.splits)
  from upsert_law [OF assms(1) s1(1)] have v: "view s1 = (view s)(slug \<mapsto> activated (repo_now repo s) slug (view s slug))"
    by blast
  have "active_set (view s1) = insert slug (active_set (view s))" unfolding v by simp
  moreover have "view s1 k = view s k" if "k \<noteq> slug" for k unfolding v using that by simp
  ultimately show ?case using Cons.IH [OF s1(2)] by auto
qed simp

lemma mark_each_ok:
  assumes conforms and "mark_each repo ctx d slugs s = (None, s')"
  shows "active_set (view s') = active_set (view s) - set slugs
    \<and> (\<forall>slug. slug \<notin> set slugs \<longrightarrow> view s' slug = view s slug)
    \<and> (\<forall>slug \<in> set slugs. \<exists>r. view s' slug = Some r \<and> tr_status r = status_pending_deletion \<and> tr_delete_after r = Some d)"
  using assms(2)
proof (induction slugs arbitrary: s)
  case (Cons slug slugs)
  then obtain s1 where s1: "repo_mark repo ctx slug d s = (None, s1)" "mark_each repo ctx d slugs s1 = (None, s')"
    by (auto split: prod.splits option.splits)
  from mark_law [OF assms(1) s1(1)] have v: "view s1 = (view s)(slug \<mapsto> marked (repo_now repo s) d slug (view s slug))"
    by blast
  have "active_set (view s1) = active_set (view s) - {slug}" unfolding v by simp
  moreover have "view s1 k = view s k" if "k \<noteq> slug" for k unfolding v using that by simp
  moreover have "view s1 slug = Some (marked (repo_now repo s) d slug (view s slug))" unfolding v by simp
  ultimately show ?case using Cons.IH [OF s1(2)] by (cases "slug \<in> set slugs") auto
qed simp

lemma each_keeps_records:
  assumes conforms
  shows "upsert_each repo ctx slugs s = (e, s') \<Longrightarrow> dom (view s) \<subseteq> dom (view s')"
    and "mark_each repo ctx d slugs s = (e, s') \<Longrightarrow> dom (view s) \<subseteq> dom (view s')"
proof (induction slugs arbitrary: s)
  case (Cons slug slugs)
  {
    case 1
    then obtain q s1 where s1: "repo_upsert repo ctx slug s = (q, s1)" by (cases "repo_upsert repo ctx slug s")
    have "dom (view s) \<subseteq> dom (view s1)" using upsert_law [OF assms s1] by (elim conjE disjE) auto
    then show ?case using 1 s1 Cons.IH(1) [of s1] by (cases q) auto
  next
    case 2
    then obtain q s1 where s1: "repo_mark repo ctx slug d s = (q, s1)" by (cases "repo_mark repo ctx slug d s")
    have "dom (view s) \<subseteq> dom (view s1)" using mark_law [OF assms s1] by (elim conjE disjE) auto
    then show ?case using 2 s1 Cons.IH(2) [of s1] by (cases q) auto
  }
qed simp_all

lemma local_slugs:
  assumes conforms and "lo_conforms lo" and "slugs_from_registry lo repo ctx s = (q, s')"
  shows "view s' = view s \<and> (\<forall>sl. q = Inr sl \<longrightarrow> set sl = active_set (view s))"
proof -
  obtain r where r: "repo_active repo ctx s = (r, s')"
    using assms(3) by (auto simp: slugs_from_registry_def Let_def split: prod.splits)
  note law = active_law [OF assms(1) r]
  have "set sl = active_set (view s)" if "q = Inr sl" for sl
  proof -
    from that assms(3) r obtain rs where rs: "r = Inr rs" and sl: "sl = lo_map lo tr_slug rs"
      by (auto simp: slugs_from_registry_def Let_def split: sum.splits)
    from sl have "set sl = tr_slug ` set rs" using assms(2) by (simp add: lo_conforms_def)
    then show ?thesis using slugs_of [OF assms(1), of rs s] law rs by (simp add: active_set_def)
  qed
  with law show ?thesis by blast
qed

text \<open>Synchronisation, when the provider answers and when it does not.\<close>

lemma sync_registry_ok:
  assumes conforms and "lo_conforms lo" and "set localSlugs = active_set (view s)"
    and "sync_registry lo repo ctx apiSlugs localSlugs s = (None, s')"
  shows "active_set (view s') = set apiSlugs
    \<and> (\<forall>slug \<in> active_set (view s) - set apiSlugs.
         \<exists>r d. view s' slug = Some r \<and> tr_status r = status_pending_deletion \<and> tr_delete_after r = Some d)
    \<and> (\<forall>slug. slug \<notin> active_set (view s) \<union> set apiSlugs \<longrightarrow> view s' slug = view s slug)"
proof -
  have lo: "\<And>xs ys. lo_without lo xs ys = filter (\<lambda>x. x \<notin> set ys) xs"
    using assms(2) by (simp add: lo_conforms_def)
  obtain s1 where up: "upsert_each repo ctx (lo_without lo apiSlugs localSlugs) s = (None, s1)"
    and mk: "mark_each repo ctx (repo_now repo s1 + 5 * minute) (lo_without lo localSlugs apiSlugs) s1 = (None, s')"
    using assms(4) by (auto simp: sync_registry_def Let_def split: prod.splits option.splits)
  note U = upsert_each_ok [OF assms(1) up] and M = mark_each_ok [OF assms(1) mk]
  have "active_set (view s') = set apiSlugs" using U M assms(3) by (auto simp: lo)
  moreover have "\<exists>r d. view s' slug = Some r \<and> tr_status r = status_pending_deletion \<and> tr_delete_after r = Some d"
    if "slug \<in> active_set (view s) - set apiSlugs" for slug
    using that M assms(3) by (auto simp: lo)
  moreover have "view s' slug = view s slug" if "slug \<notin> active_set (view s) \<union> set apiSlugs" for slug
    using that U M assms(3) by (simp add: lo)
  ultimately show ?thesis by blast
qed

lemma sync_keeps_records:
  assumes conforms and "sync_registry lo repo ctx apiSlugs localSlugs s = (e, s')"
  shows "dom (view s) \<subseteq> dom (view s')"
proof -
  obtain q s1 where up: "upsert_each repo ctx (lo_without lo apiSlugs localSlugs) s = (q, s1)"
    by (cases "upsert_each repo ctx (lo_without lo apiSlugs localSlugs) s")
  note a = each_keeps_records(1) [OF assms(1) up]
  show ?thesis
  proof (cases q)
    case None
    then have "mark_each repo ctx (repo_now repo s1 + 5 * minute) (lo_without lo localSlugs apiSlugs) s1 = (e, s')"
      using assms(2) up by (simp add: sync_registry_def Let_def)
    from each_keeps_records(2) [OF assms(1) this] a show ?thesis by blast
  qed (use assms(2) up a in \<open>auto simp: sync_registry_def\<close>)
qed

text \<open>Cleanup: cleaners do not touch the registry.\<close>

lemma run_cleaners_view:
  assumes "\<forall>cl \<in> set cleaners. \<forall>slug s. view (snd (cl ctx slug s)) = view s"
    and "run_cleaners ctx slug n cleaners s = (ok, evs, s')"
  shows "view s' = view s \<and> (\<forall>ev \<in> set evs. \<exists>k e. ev = Cleaner_called k slug e)
    \<and> (ok \<longrightarrow> evs = map (\<lambda>k. Cleaner_called (n + k) slug None) [0..<length cleaners])"
  using assms
proof (induction cleaners arbitrary: n s ok evs s')
  case (Cons cl cleaners)
  obtain q s1 where q: "cl ctx slug s = (q, s1)" by (cases "cl ctx slug s")
  have v1: "view s1 = view s" using Cons.prems(1) q by (metis list.set_intros(1) snd_conv)
  show ?case
  proof (cases q)
    case None
    obtain ok1 evs1 s2 where r: "run_cleaners ctx slug (n + 1) cleaners s1 = (ok1, evs1, s2)"
      by (cases "run_cleaners ctx slug (n + 1) cleaners s1") auto
    note ih = Cons.IH [OF _ r]
    have "[0..<length (cl # cleaners)] = 0 # map Suc [0..<length cleaners]"
      by (simp add: upt_conv_Cons map_Suc_upt del: upt_Suc)
    then show ?thesis using Cons.prems q None r ih v1 by (auto simp: Let_def)
  qed (use Cons.prems q v1 in auto)
qed simp

lemma cleanup_tenant_view:
  assumes conforms and cl: "\<forall>cl \<in> set cleaners. \<forall>slug s. view (snd (cl ctx slug s)) = view s"
    and run: "cleanup_tenant repo cleaners ctx slug s = (evs, s')"
  shows "(\<forall>k. k \<noteq> slug \<longrightarrow> view s' k = view s k)
    \<and> (\<forall>ev \<in> set evs. (\<exists>k e. ev = Cleaner_called k slug e) \<or> (\<exists>e. ev = Record_removed slug e))
    \<and> (view s' \<noteq> view s \<longrightarrow> (\<exists>e. Record_removed slug e \<in> set evs))
    \<and> (\<forall>k e. Record_removed k e \<in> set evs \<longrightarrow>
         k = slug \<and> (\<forall>n < length cleaners. Cleaner_called n slug None \<in> set evs))"
proof -
  obtain ok evs1 s1 where r: "run_cleaners ctx slug 0 cleaners s = (ok, evs1, s1)"
    by (cases "run_cleaners ctx slug 0 cleaners s") auto
  note rc = run_cleaners_view [OF cl r]
  show ?thesis
  proof (cases ok)
    case True
    obtain e s2 where e: "repo_remove repo ctx slug s1 = (e, s2)" by (cases "repo_remove repo ctx slug s1")
    from remove_law [OF assms(1) e] have "view s2 = view s1 \<or> view s2 = (view s1)(slug := None)" by blast
    moreover have "evs = evs1 @ [Record_removed slug e]" "s' = s2"
      using run r e True by (simp_all add: cleanup_tenant_def)
    ultimately show ?thesis using rc True by auto
  next
    case False
    then have "evs = evs1" "s' = s1" using run r by (simp_all add: cleanup_tenant_def)
    then show ?thesis using rc by auto
  qed
qed

lemma cleanup_each_view:
  assumes conforms and cl: "\<forall>cl \<in> set cleaners. \<forall>slug s. view (snd (cl ctx slug s)) = view s"
    and run: "cleanup_each repo cleaners ctx rs s = (evs, s')"
  shows "(\<forall>k. k \<notin> tr_slug ` set rs \<longrightarrow> view s' k = view s k)
    \<and> (\<forall>k e. Record_removed k e \<in> set evs \<longrightarrow>
         k \<in> tr_slug ` set rs \<and> (\<forall>n < length cleaners. Cleaner_called n k None \<in> set evs))
    \<and> (\<forall>n k e. Cleaner_called n k e \<in> set evs \<longrightarrow> k \<in> tr_slug ` set rs)"
  using run
proof (induction rs arbitrary: s evs s')
  case (Cons r rs)
  obtain evs1 s1 where 1: "cleanup_tenant repo cleaners ctx (tr_slug r) s = (evs1, s1)"
    by (cases "cleanup_tenant repo cleaners ctx (tr_slug r) s")
  obtain evs2 s2 where 2: "cleanup_each repo cleaners ctx rs s1 = (evs2, s2)"
    by (cases "cleanup_each repo cleaners ctx rs s1")
  note one = cleanup_tenant_view [OF assms(1) cl 1] and rest = Cons.IH [OF 2]
  from Cons.prems 1 2 have eq: "evs = evs1 @ evs2" "s' = s2" by simp_all
  have "\<forall>k. k \<notin> tr_slug ` set (r # rs) \<longrightarrow> view s' k = view s k" using one rest eq by simp
  moreover have "\<forall>k e. Record_removed k e \<in> set evs \<longrightarrow>
      k \<in> tr_slug ` set (r # rs) \<and> (\<forall>n < length cleaners. Cleaner_called n k None \<in> set evs)"
  proof (intro allI impI)
    fix k e assume "Record_removed k e \<in> set evs"
    then consider "Record_removed k e \<in> set evs1" | "Record_removed k e \<in> set evs2" using eq by auto
    then show "k \<in> tr_slug ` set (r # rs) \<and> (\<forall>n < length cleaners. Cleaner_called n k None \<in> set evs)"
    proof cases
      case 1
      with one have "k = tr_slug r" "\<forall>n < length cleaners. Cleaner_called n k None \<in> set evs1" by blast+
      then show ?thesis using eq by simp
    next
      case 2
      with rest have "k \<in> tr_slug ` set rs" "\<forall>n < length cleaners. Cleaner_called n k None \<in> set evs2" by blast+
      then show ?thesis using eq by simp
    qed
  qed
  moreover have "\<forall>n k e. Cleaner_called n k e \<in> set evs \<longrightarrow> k \<in> tr_slug ` set (r # rs)"
  proof (intro allI impI)
    fix n k e assume "Cleaner_called n k e \<in> set evs"
    then consider "Cleaner_called n k e \<in> set evs1" | "Cleaner_called n k e \<in> set evs2" using eq by auto
    then show "k \<in> tr_slug ` set (r # rs)"
    proof cases
      case 1
      with one have "(\<exists>n' e'. Cleaner_called n k e = Cleaner_called n' (tr_slug r) e')
          \<or> (\<exists>e'. Cleaner_called n k e = Record_removed (tr_slug r) e')" by blast
      then show ?thesis by auto
    next
      case 2
      with rest have "k \<in> tr_slug ` set rs" by blast
      then show ?thesis by simp
    qed
  qed
  ultimately show ?case by blast
qed simp

end

subsection \<open>The MongoDB repository provides the contract\<close>

lemma registry_laws:
  assumes "registry_conforms rd"
  shows "registry rd s slug = Some r \<Longrightarrow> tr_slug r = slug"
    and "rd_update rd ctx (by_id slug) u s = (e, s') \<Longrightarrow>
      (e = None \<longrightarrow> registry rd s' = (registry rd s)(slug \<mapsto> apply_update slug u (registry rd s slug)))
      \<and> (registry rd s' = registry rd s \<or> registry rd s' = (registry rd s)(slug \<mapsto> apply_update slug u (registry rd s slug)))"
    and "rd_delete rd ctx (by_id slug) s = (e, s') \<Longrightarrow>
      (e = None \<longrightarrow> registry rd s' = (registry rd s)(slug := None))
      \<and> (registry rd s' = registry rd s \<or> registry rd s' = (registry rd s)(slug := None))"
    and "rd_find rd ctx f s = (q, s') \<Longrightarrow> registry rd s' = registry rd s
      \<and> (\<forall>rs. q = Inr (Inr rs) \<longrightarrow> f = active_filter \<longrightarrow>
           set rs = {r \<in> ran (registry rd s). tr_status r = status_active})
      \<and> (\<forall>rs now. q = Inr (Inr rs) \<longrightarrow> f = pending_filter now \<longrightarrow>
           set rs = {r \<in> ran (registry rd s). expired now r})"
proof -
  note c = assms [unfolded registry_conforms_def]
  show "registry rd s slug = Some r \<Longrightarrow> tr_slug r = slug" using c by blast
  show "rd_update rd ctx (by_id slug) u s = (e, s') \<Longrightarrow>
      (e = None \<longrightarrow> registry rd s' = (registry rd s)(slug \<mapsto> apply_update slug u (registry rd s slug)))
      \<and> (registry rd s' = registry rd s \<or> registry rd s' = (registry rd s)(slug \<mapsto> apply_update slug u (registry rd s slug)))"
    using c [THEN conjunct2, THEN conjunct1, rule_format, of ctx slug u s] by (simp add: Let_def)
  show "rd_delete rd ctx (by_id slug) s = (e, s') \<Longrightarrow>
      (e = None \<longrightarrow> registry rd s' = (registry rd s)(slug := None))
      \<and> (registry rd s' = registry rd s \<or> registry rd s' = (registry rd s)(slug := None))"
    using c [THEN conjunct2, THEN conjunct2, THEN conjunct1, rule_format, of ctx slug s] by (simp add: Let_def)
  show "rd_find rd ctx f s = (q, s') \<Longrightarrow> registry rd s' = registry rd s
      \<and> (\<forall>rs. q = Inr (Inr rs) \<longrightarrow> f = active_filter \<longrightarrow>
           set rs = {r \<in> ran (registry rd s). tr_status r = status_active})
      \<and> (\<forall>rs now. q = Inr (Inr rs) \<longrightarrow> f = pending_filter now \<longrightarrow>
           set rs = {r \<in> ran (registry rd s). expired now r})"
    using c [THEN conjunct2, THEN conjunct2, THEN conjunct2, rule_format, of ctx f s] by (simp add: Let_def)
qed

lemma apply_upsert_update:
  "(\<And>r. old = Some r \<Longrightarrow> tr_slug r = slug) \<Longrightarrow> apply_update slug (upsert_update now) old = activated now slug old"
  "(\<And>r. old = Some r \<Longrightarrow> tr_slug r = slug) \<Longrightarrow> apply_update slug (mark_update now d) old = marked now d slug old"
  by (cases old; simp add: upsert_update_def mark_update_def activated_def marked_def blank_record_def)+

lemma wrapping_cases:
  "wrapping what r = (e, s') \<Longrightarrow> \<exists>e0. r = (e0, s') \<and> (e = None \<longleftrightarrow> e0 = None)"
  by (cases r) (auto simp: wrapping_def)

lemma mongo_find_cases:
  "mongo_find rd what ctx f s = (q, s') \<Longrightarrow> \<exists>q0. rd_find rd ctx f s = (q0, s') \<and> (\<forall>rs. q = Inr rs \<longrightarrow> q0 = Inr (Inr rs))"
  by (cases "rd_find rd ctx f s") (auto simp: mongo_find_def split: sum.splits)

interpretation mongo_tenants: tenant_repository "registry_conforms rd" "registry rd" "mongo_repository rd"
  for rd :: "'s registry_driver"
proof (unfold_locales, goal_cases)
  case (1 s slug r)
  then show ?case by (rule registry_laws(1))
next
  case (2 ctx slug s e s')
  then obtain e0 where "rd_update rd ctx (by_id slug) (upsert_update (rd_clock rd s)) s = (e0, s')" "e = None \<longleftrightarrow> e0 = None"
    unfolding mongo_repository_def mongo_upsert_def by (auto dest: wrapping_cases)
  with registry_laws(2) [OF 2(1) this(1)] apply_upsert_update(1) [of "registry rd s slug" slug "rd_clock rd s"] registry_laws(1) [OF 2(1)]
  show ?case by (simp add: mongo_repository_def)
next
  case (3 ctx slug d s e s')
  then obtain e0 where "rd_update rd ctx (by_id slug) (mark_update (rd_clock rd s) d) s = (e0, s')" "e = None \<longleftrightarrow> e0 = None"
    unfolding mongo_repository_def mongo_mark_for_deletion_def by (auto dest: wrapping_cases)
  with registry_laws(2) [OF 3(1) this(1)] apply_upsert_update(2) [of "registry rd s slug" slug "rd_clock rd s" d] registry_laws(1) [OF 3(1)]
  show ?case by (simp add: mongo_repository_def)
next
  case (4 ctx slug s e s')
  then obtain e0 where "rd_delete rd ctx (by_id slug) s = (e0, s')" "e = None \<longleftrightarrow> e0 = None"
    unfolding mongo_repository_def mongo_remove_def by (auto dest: wrapping_cases)
  with registry_laws(3) [OF 4(1) this(1)] show ?case by simp
next
  case (5 ctx s q s')
  then obtain q0 where "rd_find rd ctx active_filter s = (q0, s')" "\<forall>rs. q = Inr rs \<longrightarrow> q0 = Inr (Inr rs)"
    unfolding mongo_repository_def mongo_find_active_def by (auto dest: mongo_find_cases)
  with registry_laws(4) [OF 5(1) this(1)] show ?case by blast
next
  case (6 ctx s q s')
  then obtain q0 where "rd_find rd ctx (pending_filter (rd_clock rd s)) s = (q0, s')" "\<forall>rs. q = Inr rs \<longrightarrow> q0 = Inr (Inr rs)"
    unfolding mongo_repository_def mongo_find_pending_deletion_def by (auto dest: mongo_find_cases)
  with registry_laws(4) [OF 6(1) this(1)] show ?case by (simp add: mongo_repository_def)
qed

subsection \<open>A registry in memory\<close>

record mem_registry =
  mr_now :: time
  mr_records :: "tenant_record list"
  mr_dropped :: "string list"
  mr_migrated :: "string list"

fun mem_record_field :: "string \<times> bson \<Rightarrow> tenant_record \<Rightarrow> bool" where
  "mem_record_field (k, Bson_string x) r = (k = ''status'' \<and> tr_status r = x)"
| "mem_record_field (k, Bson_doc [(op, Bson_time now)]) r =
     (k = ''delete_after'' \<and> op = ''$lte'' \<and> (case tr_delete_after r of None \<Rightarrow> False | Some t \<Rightarrow> t \<le> now))"
| "mem_record_field _ r = False"

definition mem_rd :: "mem_registry registry_driver" where
  "mem_rd = \<lparr>
     registry = (\<lambda>s. first_by tr_slug (mr_records s)),
     rd_clock = mr_now,
     rd_update = (\<lambda>ctx f u s. case f of
         [(k, Bson_string slug)] \<Rightarrow>
           (None, s\<lparr>mr_records := apply_update slug u (first_by tr_slug (mr_records s) slug) # mr_records s\<rparr>)
       | _ \<Rightarrow> (Some (New_error ''unsupported filter''), s)),
     rd_find = (\<lambda>ctx f s.
         (Inr (Inr (filter (\<lambda>r. list_all (\<lambda>field. mem_record_field field r) f) (firsts tr_slug (mr_records s)))), s)),
     rd_delete = (\<lambda>ctx f s. case f of
         [(k, Bson_string slug)] \<Rightarrow> (None, s\<lparr>mr_records := filter (\<lambda>r. tr_slug r \<noteq> slug) (mr_records s)\<rparr>)
       | _ \<Rightarrow> (Some (New_error ''unsupported filter''), s))\<rparr>"

lemma fold_set_field_slug [simp]: "tr_slug (fold set_field fs r) = tr_slug r"
  by (induction fs arbitrary: r) auto

lemma apply_update_slug: "(\<And>r. old = Some r \<Longrightarrow> tr_slug r = slug) \<Longrightarrow> tr_slug (apply_update slug u old) = slug"
  by (cases "(slug, u, old)" rule: apply_update.cases) (auto simp: blank_record_def split: option.splits)

lemma mem_rd_conforms: "registry_conforms mem_rd"
proof -
  have slug: "tr_slug (apply_update slug u (first_by tr_slug rs slug)) = slug" for slug u rs
    by (rule apply_update_slug) (blast dest: first_by_Some)
  have upd: "registry mem_rd (s\<lparr>mr_records := apply_update slug u (first_by tr_slug (mr_records s) slug) # mr_records s\<rparr>)
      = (registry mem_rd s)(slug \<mapsto> apply_update slug u (registry mem_rd s slug))" for s slug u
    by (simp add: mem_rd_def first_by_Cons slug)
  have pending: "mem_record_field (''delete_after'', Bson_doc [(''$lte'', Bson_time now)]) r \<longleftrightarrow> (\<exists>t \<le> now. tr_delete_after r = Some t)" for now r
    by (auto split: option.splits)
  show ?thesis
    unfolding registry_conforms_def
  proof (intro conjI allI, goal_cases)
    case (1 s slug r)
    then show ?case by (auto simp: mem_rd_def dest: first_by_Some)
  next
    case (2 ctx slug u s)
    have "rd_update mem_rd ctx (by_id slug) u s =
        (None, s\<lparr>mr_records := apply_update slug u (first_by tr_slug (mr_records s) slug) # mr_records s\<rparr>)"
      by (simp add: mem_rd_def by_id_def)
    then show ?case using upd [where s = s and slug = slug and u = u] by (simp add: Let_def)
  next
    case (3 ctx slug s)
    show ?case by (simp add: mem_rd_def by_id_def first_by_filter)
  next
    case (4 ctx f s)
    have act: "set (filter (\<lambda>r. list_all (\<lambda>field. mem_record_field field r) active_filter) (firsts tr_slug (mr_records s)))
        = {r \<in> ran (registry mem_rd s). tr_status r = status_active}"
      by (auto simp: active_filter_def set_firsts mem_rd_def)
    have pen: "set (filter (\<lambda>r. list_all (\<lambda>field. mem_record_field field r) (pending_filter now)) (firsts tr_slug (mr_records s)))
        = {r \<in> ran (registry mem_rd s). expired now r}" for now
      by (auto simp: pending_filter_def set_firsts mem_rd_def expired_def split: option.splits)
    have fnd: "rd_find mem_rd ctx f s =
        (Inr (Inr (filter (\<lambda>r. list_all (\<lambda>field. mem_record_field field r) f) (firsts tr_slug (mr_records s)))), s)"
      by (simp add: mem_rd_def)
    show ?case unfolding fnd using act pen by simp
  qed
qed

definition std_lo :: lo_lib where
  "std_lo = \<lparr>lo_map = map, lo_without = (\<lambda>xs ys. filter (\<lambda>x. x \<notin> set ys) xs)\<rparr>"

lemma std_lo_conforms: "lo_conforms std_lo"
  by (simp add: lo_conforms_def std_lo_def)

text \<open>Tenant \<open>a\<close> active, \<open>b\<close> pending since time 5; it is now 10.\<close>

definition two_tenants :: mem_registry where
  "two_tenants = \<lparr>mr_now = 10, mr_records =
     [\<lparr>tr_slug = ''a'', tr_status = status_active, tr_delete_after = None, tr_created_at = 1, tr_modified_at = 1\<rparr>,
      \<lparr>tr_slug = ''b'', tr_status = status_pending_deletion, tr_delete_after = Some 5, tr_created_at = 1, tr_modified_at = 2\<rparr>],
     mr_dropped = [], mr_migrated = []\<rparr>"

definition demo_provider :: "string list \<Rightarrow> go_ctx \<Rightarrow> mem_registry \<Rightarrow> (go_error, string list) result \<times> mem_registry" where
  "demo_provider slugs ctx s = (Inr slugs, s)"

lemmas mem_rd_eval = mem_rd_def mongo_repository_def mongo_upsert_def mongo_mark_for_deletion_def
  mongo_find_active_def mongo_find_pending_deletion_def mongo_find_def mongo_remove_def wrapping_def
  upsert_update_def mark_update_def blank_record_def active_filter_def pending_filter_def by_id_def two_tenants_def
  std_lo_def first_by_def firsts_def status_active_def status_pending_deletion_def

subsection \<open>Properties\<close>

text \<open>
  C10. A synchronisation that succeeds with an answer of the provider leaves exactly the provider's
  slugs active and returns them; tenants that were active and are no longer listed are pending
  deletion, all others are untouched. When the provider fails the registry is unchanged and the
  active slugs are returned. No outcome, not even a partial failure, removes a record.
\<close>

theorem tenant_sync_reconciles:
  assumes conf: "registry_conforms rd" "lo_conforms lo"
    and provider: "\<forall>s. registry rd (snd (slugs ctx s)) = registry rd s"
    and run: "tenant_sync lo (mongo_repository rd) slugs ctx s = (r, s')"
    and asked: "slugs ctx (snd (slugs_from_registry lo (mongo_repository rd) ctx s)) = (answer, s2)"
  shows "(\<forall>api active. answer = Inr api \<longrightarrow> r = Inr active \<longrightarrow>
            active = api \<and> active_set (registry rd s') = set api
          \<and> (\<forall>slug \<in> active_set (registry rd s) - set api.
               \<exists>t d. registry rd s' slug = Some t \<and> tr_status t = status_pending_deletion \<and> tr_delete_after t = Some d)
          \<and> (\<forall>slug. slug \<notin> active_set (registry rd s) \<union> set api \<longrightarrow> registry rd s' slug = registry rd s slug))
    \<and> (\<forall>e active. answer = Inl e \<longrightarrow> r = Inr active \<longrightarrow>
          set active = active_set (registry rd s) \<and> registry rd s' = registry rd s)
    \<and> dom (registry rd s) \<subseteq> dom (registry rd s')"
proof -
  obtain q s1 where q: "slugs_from_registry lo (mongo_repository rd) ctx s = (q, s1)"
    by (cases "slugs_from_registry lo (mongo_repository rd) ctx s")
  note loc = mongo_tenants.local_slugs [OF conf q]
  have v2: "registry rd s2 = registry rd s" using provider asked q loc by (metis snd_conv)
  show ?thesis
  proof (cases q)
    case (Inl e)
    then show ?thesis using run q loc by (auto simp: tenant_sync_def)
  next
    case (Inr localSlugs)
    then have ls: "set localSlugs = active_set (registry rd s2)" using loc v2 by simp
    show ?thesis
    proof (cases answer)
      case (Inl e)
      then have "r = Inr localSlugs" "s' = s2"
        using run q asked \<open>q = Inr localSlugs\<close> by (auto simp: tenant_sync_def)
      then show ?thesis using Inl ls v2 by simp
    next
      case (Inr api)
      obtain e s3 where s3: "sync_registry lo (mongo_repository rd) ctx api localSlugs s2 = (e, s3)"
        by (cases "sync_registry lo (mongo_repository rd) ctx api localSlugs s2")
      have s': "s' = s3" and r: "r = (case e of None \<Rightarrow> Inr api | Some e \<Rightarrow> Inl (Wrapf ''failed to sync tenant registry: '' e []))"
        using run q asked \<open>q = Inr localSlugs\<close> Inr s3 by (auto simp: tenant_sync_def split: option.splits)
      have dom: "dom (registry rd s) \<subseteq> dom (registry rd s')"
        using mongo_tenants.sync_keeps_records [OF conf(1) s3] v2 s' by simp
      show ?thesis
      proof (cases e)
        case None
        note ok = mongo_tenants.sync_registry_ok [OF conf ls s3 [unfolded None]]
        have "r = Inr api" using r None by simp
        then show ?thesis using ok dom Inr unfolding s' v2 by blast
      next
        case (Some err)
        then have "\<nexists>a. r = Inr a" using r by simp
        then show ?thesis using dom by blast
      qed
    qed
  qed
qed

theorem tenant_sync_reconciles_witness:
  "\<exists>s'. tenant_sync std_lo (mongo_repository mem_rd) (demo_provider [''c'']) ctx_background two_tenants = (Inr [''c''], s')
     \<and> active_set (registry mem_rd s') = {''c''}"
proof -
  obtain s' where s': "tenant_sync std_lo (mongo_repository mem_rd) (demo_provider [''c'']) ctx_background two_tenants
      = (Inr [''c''], s')"
    by (simp add: tenant_sync_def slugs_from_registry_def sync_registry_def demo_provider_def mem_rd_eval Let_def)
  have keeps: "\<forall>s. registry mem_rd (snd (demo_provider [''c''] ctx_background s)) = registry mem_rd s"
    by (simp add: demo_provider_def)
  have asked: "demo_provider [''c''] ctx_background (snd (slugs_from_registry std_lo (mongo_repository mem_rd) ctx_background two_tenants))
      = (Inr [''c''], snd (slugs_from_registry std_lo (mongo_repository mem_rd) ctx_background two_tenants))"
    by (simp add: demo_provider_def)
  have "active_set (registry mem_rd s') = set [''c'']"
    by (rule tenant_sync_reconciles [OF mem_rd_conforms std_lo_conforms keeps s' asked, THEN conjunct1,
          rule_format, OF refl refl, THEN conjunct2, THEN conjunct1])
  with s' show ?thesis by auto
qed

text \<open>
  C30. \<^verbatim>\<open>Lifecycle\<close>: after a successful \<^verbatim>\<open>Create\<close> the tenant is active and its migration returned nil;
  a \<^verbatim>\<open>Create\<close> whose migration fails has still registered it. After a successful \<^verbatim>\<open>Delete\<close> it is
  pending and not expired before five minutes have passed. No other tenant's record changes.
\<close>

theorem tenant_lifecycle_correct:
  assumes conf: "registry_conforms rd" and keeps: "\<forall>slug s. registry rd (snd (migrate_one slug s)) = registry rd s"
    and create: "lifecycle_create (mongo_repository rd) migrate_one ctx slug s = (e, s')"
    and delete: "lifecycle_delete (mongo_repository rd) ctx slug s = (e', s'')"
  shows "(e = None \<longrightarrow> slug \<in> active_set (registry rd s') \<and> (\<exists>s1. migrate_one slug s1 = (None, s')))
    \<and> (\<forall>k. k \<noteq> slug \<longrightarrow> registry rd s' k = registry rd s k)
    \<and> (\<forall>s1. repo_upsert (mongo_repository rd) ctx slug s = (None, s1) \<longrightarrow> slug \<in> active_set (registry rd s'))
    \<and> (e' = None \<longrightarrow> (\<exists>t. registry rd s'' slug = Some t \<and> tr_status t = status_pending_deletion
          \<and> tr_delete_after t = Some (rd_clock rd s + 5 * minute)
          \<and> (\<forall>now < rd_clock rd s + 5 * minute. \<not> expired now t)))
    \<and> (\<forall>k. k \<noteq> slug \<longrightarrow> registry rd s'' k = registry rd s k)"
proof -
  obtain q s1 where q: "repo_upsert (mongo_repository rd) ctx slug s = (q, s1)"
    by (cases "repo_upsert (mongo_repository rd) ctx slug s")
  note up = mongo_tenants.upsert_law [OF conf q]
  have act: "q = None \<Longrightarrow> slug \<in> active_set (registry rd s1)" using up by (auto simp: active_set_def)
  have others1: "k \<noteq> slug \<Longrightarrow> registry rd s1 k = registry rd s k" for k using up by (metis fun_upd_other)
  have "registry rd s' = registry rd s1 \<and> (e = None \<longrightarrow> q = None \<and> (\<exists>s1. migrate_one slug s1 = (None, s')))"
  proof (cases q)
    case None
    obtain m s2 where m: "migrate_one slug s1 = (m, s2)" by (cases "migrate_one slug s1")
    have "registry rd s2 = registry rd s1" using keeps m by (metis snd_conv)
    moreover have "s' = s2" "e = None \<longleftrightarrow> m = None"
      using create q None m by (auto simp: lifecycle_create_def wrapping_def)
    ultimately show ?thesis using None m by auto
  qed (use create q in \<open>auto simp: lifecycle_create_def\<close>)
  then have view: "registry rd s' = registry rd s1" and
    mig: "e = None \<longrightarrow> q = None \<and> (\<exists>s1. migrate_one slug s1 = (None, s'))" by blast+
  have now: "repo_now (mongo_repository rd) = rd_clock rd" by (simp add: mongo_repository_def)
  obtain q' where q': "repo_mark (mongo_repository rd) ctx slug (rd_clock rd s + 5 * minute) s = (q', s'')" "e' = None \<longleftrightarrow> q' = None"
    using wrapping_cases [OF delete [unfolded lifecycle_delete_def Let_def now]] by blast
  note mk = mongo_tenants.mark_law [OF conf q'(1)]
  have others2: "k \<noteq> slug \<Longrightarrow> registry rd s'' k = registry rd s k" for k using mk by (metis fun_upd_other)
  have "\<exists>t. registry rd s'' slug = Some t \<and> tr_status t = status_pending_deletion
      \<and> tr_delete_after t = Some (rd_clock rd s + 5 * minute) \<and> (\<forall>now < rd_clock rd s + 5 * minute. \<not> expired now t)"
    if "e' = None"
    using mk that q'(2) by (simp add: expired_def)
  with view mig act others1 others2 q show ?thesis by auto
qed

theorem tenant_lifecycle_correct_witness:
  "\<exists>s'. lifecycle_create (mongo_repository mem_rd) (\<lambda>slug s. (None, s)) ctx_background ''c'' two_tenants = (None, s')
     \<and> ''c'' \<in> active_set (registry mem_rd s')"
proof -
  obtain s' where s': "lifecycle_create (mongo_repository mem_rd) (\<lambda>slug s. (None, s)) ctx_background ''c'' two_tenants = (None, s')"
    by (simp add: lifecycle_create_def mem_rd_eval)
  obtain e2 s2 where d: "lifecycle_delete (mongo_repository mem_rd) ctx_background ''c'' two_tenants = (e2, s2)"
    by (cases "lifecycle_delete (mongo_repository mem_rd) ctx_background ''c'' two_tenants")
  have "''c'' \<in> active_set (registry mem_rd s')"
    using tenant_lifecycle_correct [OF mem_rd_conforms _ s' d] by simp
  with s' show ?thesis by blast
qed

text \<open>
  One run of the cleanup touches only tenants that were pending and expired when it looked: no
  cleaner is called and no record changes for any other tenant, and a record is removed only
  after every cleaner returned nil for it. It assumes that cleaners leave the registry alone.
\<close>

theorem cleanup_only_expired:
  assumes conf: "registry_conforms rd"
    and cleaners: "\<forall>cl \<in> set cleaners. \<forall>slug s. registry rd (snd (cl ctx slug s)) = registry rd s"
    and run: "process_expired_tenants (mongo_repository rd) cleaners ctx s = (evs, s')"
  shows "(\<forall>n slug e. Cleaner_called n slug e \<in> set evs \<longrightarrow>
            (\<exists>t. registry rd s slug = Some t \<and> expired (rd_clock rd s) t))
    \<and> (\<forall>slug e. Record_removed slug e \<in> set evs \<longrightarrow>
          (\<exists>t. registry rd s slug = Some t \<and> expired (rd_clock rd s) t)
          \<and> (\<forall>n < length cleaners. Cleaner_called n slug None \<in> set evs))
    \<and> (\<forall>slug. (\<nexists>t. registry rd s slug = Some t \<and> expired (rd_clock rd s) t) \<longrightarrow>
          registry rd s' slug = registry rd s slug)"
proof -
  obtain q s1 where q: "repo_pending (mongo_repository rd) ctx s = (q, s1)"
    by (cases "repo_pending (mongo_repository rd) ctx s")
  note law = mongo_tenants.pending_law [OF conf q]
  show ?thesis
  proof (cases q)
    case (Inl e)
    then show ?thesis using run q law by (simp add: process_expired_tenants_def)
  next
    case (Inr rs)
    have each: "cleanup_each (mongo_repository rd) cleaners ctx rs s1 = (evs, s')"
      using run q Inr by (simp add: process_expired_tenants_def)
    have slugs: "tr_slug ` set rs = {slug. \<exists>t. registry rd s slug = Some t \<and> expired (rd_clock rd s) t}"
      using law Inr by (intro mongo_tenants.slugs_of [OF conf]) (simp add: mongo_repository_def)
    from mongo_tenants.cleanup_each_view [OF conf cleaners each] law show ?thesis
      unfolding slugs by auto
  qed
qed

definition demo_cleaner where
  "demo_cleaner = mongo_cleaner (\<lambda>ctx db s. (None, s\<lparr>mr_dropped := db # mr_dropped s\<rparr>)) ''shop''"

lemma demo_cleaner_keeps: "registry mem_rd (snd (demo_cleaner ctx slug s)) = registry mem_rd s"
  by (simp add: demo_cleaner_def mongo_cleaner_def mem_rd_def)

theorem cleanup_only_expired_witness:
  "\<exists>evs s'. process_expired_tenants (mongo_repository mem_rd) [demo_cleaner] ctx_background two_tenants = (evs, s')
     \<and> Record_removed ''b'' None \<in> set evs \<and> Cleaner_called 0 ''b'' None \<in> set evs
     \<and> registry mem_rd s' ''a'' = registry mem_rd two_tenants ''a''"
proof -
  let ?run = "process_expired_tenants (mongo_repository mem_rd) [demo_cleaner] ctx_background two_tenants"
  obtain evs s' where run: "?run = (evs, s')" and rem: "Record_removed ''b'' None \<in> set evs"
    by (simp add: process_expired_tenants_def cleanup_tenant_def demo_cleaner_def mongo_cleaner_def mem_rd_eval Let_def)
  have keeps: "\<forall>cl \<in> set [demo_cleaner]. \<forall>slug s. registry mem_rd (snd (cl ctx_background slug s)) = registry mem_rd s"
    by (simp add: demo_cleaner_keeps)
  note only = cleanup_only_expired [OF mem_rd_conforms keeps run]
  have "\<nexists>t. registry mem_rd two_tenants ''a'' = Some t \<and> expired (rd_clock mem_rd two_tenants) t"
    by (simp add: mem_rd_eval expired_def)
  with only run rem show ?thesis by auto
qed

text \<open>
  The cleanup does not look again before it deletes: a tenant re-created after the expired
  tenants were listed, and so active, has its database dropped and its record removed.
\<close>

theorem cleanup_drops_reactivated_tenant:
  "\<exists>records s1 evs s2.
     repo_pending (mongo_repository mem_rd) ctx_background two_tenants = (Inr records, two_tenants)
   \<and> lifecycle_create (mongo_repository mem_rd) (\<lambda>slug s. (None, s)) ctx_background ''b'' two_tenants = (None, s1)
   \<and> ''b'' \<in> active_set (registry mem_rd s1)
   \<and> cleanup_each (mongo_repository mem_rd) [demo_cleaner] ctx_background records s1 = (evs, s2)
   \<and> mr_dropped s2 = [''shop_b''] \<and> registry mem_rd s2 ''b'' = None"
  by (simp add: lifecycle_create_def cleanup_tenant_def demo_cleaner_def mongo_cleaner_def tenant_database_def
      mem_rd_eval active_set_def Let_def)

lemma migrate_each_ok:
  assumes "\<And>slug s s'. migrate_one slug s = (None, s') \<Longrightarrow> view s' = view s \<and> insert (url slug) (migrated s) \<subseteq> migrated s'"
    and "migrate_each migrate_one rs s = (None, s')"
  shows "view s' = view s \<and> migrated s \<subseteq> migrated s' \<and> url ` tr_slug ` set rs \<subseteq> migrated s'"
  using assms(2)
proof (induction rs arbitrary: s)
  case (Cons r rs)
  then obtain s1 where "migrate_one (tr_slug r) s = (None, s1)" "migrate_each migrate_one rs s1 = (None, s')"
    by (auto split: prod.splits option.splits)
  with assms(1) [of "tr_slug r" s s1] Cons.IH [of s1] show ?case by auto
qed simp

text \<open>
  A successful start-up migration has migrated every tenant that is active at the end, each under the URL
  that \<open>with_path\<close> gives for its database; \<open>migrated s\<close> is the set of database URLs migrated so far, which a
  migration that returns nil extends by its URL.
\<close>

lemma migrations_cover_active:
  assumes conf: "registry_conforms rd"
    and migrate: "\<forall>u s s'. migrate u s = (None, s') \<longrightarrow> registry rd s' = registry rd s \<and> insert u (migrated s) \<subseteq> migrated s'"
    and run: "tenant_migrations_run lo (mongo_repository rd) slugs (migrate_tenant with_path migrate uri base) ctx s = (None, s')"
  shows "\<forall>slug \<in> active_set (registry rd s').
    \<exists>u. with_path uri (''/'' @ tenant_database base slug) = Inr u \<and> u \<in> migrated s'"
proof -
  obtain act s1 where sync: "tenant_sync lo (mongo_repository rd) slugs ctx s = (Inr act, s1)"
    using run by (auto simp: tenant_migrations_run_def split: prod.splits sum.splits)
  obtain rs s2 where q: "repo_active (mongo_repository rd) ctx s1 = (Inr rs, s2)"
    and each: "migrate_each (migrate_tenant with_path migrate uri base) rs s2 = (None, s')"
    using run sync by (fastforce simp: tenant_migrations_run_def split: prod.splits sum.splits if_splits)
  note law = mongo_tenants.active_law [OF conf q]
  let ?done = "\<lambda>slug t. \<exists>u. with_path uri (''/'' @ tenant_database base slug) = Inr u \<and> u \<in> migrated t"
  have one: "migrate_tenant with_path migrate uri base slug t = (None, t') \<Longrightarrow>
      registry rd t' = registry rd t \<and> insert slug {x. ?done x t} \<subseteq> {x. ?done x t'}" for slug t t'
    using migrate by (fastforce simp: migrate_tenant_def Let_def split: sum.splits)
  note m = migrate_each_ok [of "migrate_tenant with_path migrate uri base" "registry rd" "\<lambda>slug. slug"
      "\<lambda>t. {x. ?done x t}", OF one each]
  have "tr_slug ` set rs = active_set (registry rd s1)"
    using mongo_tenants.slugs_of [OF conf, of rs s1] law by (simp add: active_set_def)
  moreover have "registry rd s' = registry rd s1" using m law by simp
  ultimately show ?thesis using m by auto
qed

theorem startup_migrates_all_active:
  assumes conf: "registry_conforms rd"
    and path: "\<forall>p. with_path uri p = Inr (uri @ p)"
    and migrate: "\<forall>u s s'. migrate u s = (None, s') \<longrightarrow> registry rd s' = registry rd s \<and> insert u (migrated s) \<subseteq> migrated s'"
    and run: "tenant_migrations_run lo (mongo_repository rd) slugs (migrate_tenant with_path migrate uri base) ctx s = (None, s')"
  shows "\<forall>slug \<in> active_set (registry rd s'). uri @ ''/'' @ tenant_database base slug \<in> migrated s'"
  using migrations_cover_active [OF conf migrate run] by (simp add: path)

definition demo_migrate :: "string \<Rightarrow> mem_registry \<Rightarrow> go_error option \<times> mem_registry" where
  "demo_migrate u s = (None, s\<lparr>mr_migrated := u # mr_migrated s\<rparr>)"

theorem startup_migrates_all_active_witness:
  "\<exists>s'. tenant_migrations_run std_lo (mongo_repository mem_rd) (demo_provider [''a'', ''c''])
       (migrate_tenant (\<lambda>u p. Inr (u @ p)) demo_migrate ''m'' ''shop'')
       ctx_background two_tenants = (None, s')
     \<and> ''c'' \<in> active_set (registry mem_rd s') \<and> ''m/shop_c'' \<in> set (mr_migrated s')"
proof -
  let ?run = "tenant_migrations_run std_lo (mongo_repository mem_rd) (demo_provider [''a'', ''c''])
       (migrate_tenant (\<lambda>u p. Inr (u @ p)) demo_migrate ''m'' ''shop'')
       ctx_background two_tenants"
  obtain s' where run: "?run = (None, s')" and act: "''c'' \<in> active_set (registry mem_rd s')"
    by (simp add: tenant_migrations_run_def tenant_sync_def slugs_from_registry_def sync_registry_def
        migrate_tenant_def demo_migrate_def demo_provider_def mem_rd_eval Let_def active_set_def)
  have "\<forall>slug \<in> active_set (registry mem_rd s'). ''m'' @ ''/'' @ tenant_database ''shop'' slug \<in> set (mr_migrated s')"
    by (rule startup_migrates_all_active [OF mem_rd_conforms _ _ run, where migrated = "\<lambda>s. set (mr_migrated s)"])
      (auto simp: mem_rd_def demo_migrate_def)
  with run act show ?thesis by (auto simp: tenant_database_def)
qed

end
