(* ===== verification/Interceptors.thy ===== *)
theory Interceptors
  imports Request_Context
begin

section \<open>RPC interceptors (pkg/http/connect/interceptor)\<close>

text \<open>
  A unary handler takes the context, the request and the state \<open>'s\<close> of everything it can affect, and
  panics or returns a response and an error. An interceptor maps handlers to handlers. The rate
  limiter, the semaphore and the message validator are library code and parameters; a request's
  header is read by canonical name. The loggers' output is a change of the state given as a
  parameter where the code logs a request.
\<close>

subsection \<open>Handlers\<close>

record 'b rpc_request =
  rq_procedure :: string
  rq_header :: "string \<Rightarrow> string"
  rq_peer :: string
  rq_message :: 'b

type_synonym 'r rpc_outcome = "(string, 'r option \<times> go_error option) result"
type_synonym ('b, 'r, 's) rpc_handler = "go_ctx \<Rightarrow> 'b rpc_request \<Rightarrow> 's \<Rightarrow> 'r rpc_outcome \<times> 's"
type_synonym ('b, 'r, 's) rpc_interceptor = "('b, 'r, 's) rpc_handler \<Rightarrow> ('b, 'r, 's) rpc_handler"

text \<open>\<^verbatim>\<open>return nil, connect.NewError(code, err)\<close>.\<close>

definition rpc_fail :: "connect_code \<Rightarrow> go_error \<Rightarrow> 's \<Rightarrow> 'r rpc_outcome \<times> 's" where
  "rpc_fail code e s = (Inr (None, Some (Connect_error code e)), s)"

subsection \<open>The interceptors\<close>

definition recovery_interceptor :: "('b, 'r, 's) rpc_interceptor" where
  "recovery_interceptor next_h ctx req s =
     (case next_h ctx req s of
        (Inl p, s') \<Rightarrow> rpc_fail CodeInternal (New_error ''internal server error'') s'
      | (Inr r, s') \<Rightarrow> (Inr r, s'))"

text \<open>\<open>log_rpc logger procedure peer code err\<close> is the log line; a panic passes without one.\<close>

definition logger_interceptor ::
  "(logger option \<Rightarrow> string \<Rightarrow> string \<Rightarrow> connect_code option \<Rightarrow> go_error option \<Rightarrow> 's \<Rightarrow> 's) \<Rightarrow> logger option
   \<Rightarrow> ('b, 'r, 's) rpc_interceptor" where
  "logger_interceptor log_rpc dflt next_h ctx req s =
     (case next_h ctx req s of
        (Inl p, s') \<Rightarrow> (Inl p, s')
      | (Inr (resp, err), s') \<Rightarrow>
          (Inr (resp, err), log_rpc (logger_get dflt (Some ctx)) (rq_procedure req) (rq_peer req)
             (case err of None \<Rightarrow> None | Some e \<Rightarrow> errors_as_connect e) err s'))"

text \<open>\<open>as_proto\<close> is the type assertion to \<^verbatim>\<open>proto.Message\<close>, \<open>validate\<close> the validator.\<close>

definition validation_interceptor ::
  "('b \<Rightarrow> 'p option) \<Rightarrow> ('p \<Rightarrow> go_error option) \<Rightarrow> ('b, 'r, 's) rpc_interceptor" where
  "validation_interceptor as_proto validate next_h ctx req s =
     (case as_proto (rq_message req) of
        None \<Rightarrow> next_h ctx req s
      | Some msg \<Rightarrow>
          (case validate msg of
             Some e \<Rightarrow> rpc_fail CodeInvalidArgument e s
           | None \<Rightarrow> next_h ctx req s))"

text \<open>
  \<open>err_after s s'\<close> is \<^verbatim>\<open>ctx.Err()\<close> of the context with the timeout, for a call that took the state from
  \<open>s\<close> to \<open>s'\<close>. The derived context has the values of its parent.
\<close>

definition timeout_interceptor :: "('s \<Rightarrow> 's \<Rightarrow> go_error option) \<Rightarrow> ('b, 'r, 's) rpc_interceptor" where
  "timeout_interceptor err_after next_h ctx req s =
     (case next_h ctx req s of
        (Inl p, s') \<Rightarrow> (Inl p, s')
      | (Inr (resp, err), s') \<Rightarrow>
          (if (case err_after s s' of None \<Rightarrow> False | Some e \<Rightarrow> errors_is e ContextDeadlineExceeded)
           then (Inr (resp, Some (Connect_error CodeDeadlineExceeded (New_error ''request timeout''))), s')
           else (Inr (resp, err), s')))"

text \<open>\<open>allow\<close> is the limiter's \<^verbatim>\<open>Allow\<close>.\<close>

definition rate_limit_interceptor :: "('s \<Rightarrow> bool \<times> 's) \<Rightarrow> ('b, 'r, 's) rpc_interceptor" where
  "rate_limit_interceptor allow next_h ctx req s =
     (case allow s of
        (False, s') \<Rightarrow> rpc_fail CodeResourceExhausted (New_error ''rate limit exceeded'') s'
      | (True, s') \<Rightarrow> next_h ctx req s')"

text \<open>
  \<open>new_weighted\<close> is \<^verbatim>\<open>semaphore.NewWeighted\<close>: its \<^verbatim>\<open>Acquire\<close>, under the context with the given timeout, and its \<^verbatim>\<open>Release\<close>, of
  one slot. The release is deferred, so a panic runs it too.
\<close>

type_synonym 's semaphore = "(duration \<Rightarrow> go_ctx \<Rightarrow> 's \<Rightarrow> go_error option \<times> 's) \<times> ('s \<Rightarrow> 's)"

definition bulkhead_interceptor :: "(int \<Rightarrow> 's semaphore) \<Rightarrow> int \<Rightarrow> duration \<Rightarrow> ('b, 'r, 's) rpc_interceptor" where
  "bulkhead_interceptor new_weighted maxConcurrent timeout next_h ctx req s =
     (case new_weighted maxConcurrent of
        (acquire, release) \<Rightarrow>
          (case acquire timeout ctx s of
             (Some e, s') \<Rightarrow> rpc_fail CodeUnavailable (New_error ''too many concurrent requests'') s'
           | (None, s') \<Rightarrow> apsnd release (next_h ctx req s')))"

text \<open>\<^verbatim>\<open>observability/interceptor.go\<close>: the trace and span IDs of the context, if any, in the logger.\<close>

definition trace_ids :: "go_ctx \<Rightarrow> string \<times> string" where
  "trace_ids ctx = (case ctx_span ctx of None \<Rightarrow> ([], []) | Some ids \<Rightarrow> ids)"

definition get_trace_id :: "go_ctx \<Rightarrow> string" where
  "get_trace_id ctx = (case ctx_span ctx of None \<Rightarrow> [] | Some (traceID, spanID) \<Rightarrow> traceID)"

definition get_span_id :: "go_ctx \<Rightarrow> string" where
  "get_span_id ctx = (case ctx_span ctx of None \<Rightarrow> [] | Some (traceID, spanID) \<Rightarrow> spanID)"

lemma trace_ids_split: "trace_ids ctx = (get_trace_id ctx, get_span_id ctx)"
  by (simp add: trace_ids_def get_trace_id_def get_span_id_def split: option.splits)

definition trace_context_interceptor :: "logger option \<Rightarrow> ('b, 'r, 's) rpc_interceptor" where
  "trace_context_interceptor dflt next_h ctx req s =
     (let (traceID, spanID) = trace_ids ctx;
          ctx = (if traceID \<noteq> [] then
                   (let scoped = map_option (\<lambda>l. l @ [(''trace_id'', traceID), (''span_id'', spanID)])
                                   (logger_get dflt (Some ctx))
                    in logger_with (Some ctx) scoped)
                 else ctx)
      in next_h ctx req s)"

subsection \<open>The chain\<close>

text \<open>
  An entry of the group: its priority and handler, nil when the feature is off. \<^verbatim>\<open>sort.Slice\<close> is not
  stable; \<open>sort_key\<close> is one of its results, and \<open>chain_any_sort\<close> covers the others. \<open>lo_filter_map\<close> is the
  library's \<^verbatim>\<open>lo.FilterMap\<close>, documented to be \<open>List.map_filter\<close>.
\<close>

record 'i chain_entry =
  ce_priority :: int
  ce_handler :: "'i option"

definition no_entry :: "'i chain_entry" where
  "no_entry = \<lparr>ce_priority = 0, ce_handler = None\<rparr>"

definition entry :: "int \<Rightarrow> 'i \<Rightarrow> 'i chain_entry" where
  "entry p i = \<lparr>ce_priority = p, ce_handler = Some i\<rparr>"

definition provide_interceptor_chain ::
  "(('i chain_entry \<Rightarrow> 'i option) \<Rightarrow> 'i chain_entry list \<Rightarrow> 'i list) \<Rightarrow> 'i chain_entry list \<Rightarrow> 'i list" where
  "provide_interceptor_chain lo_filter_map es = lo_filter_map ce_handler (sort_key ce_priority es)"

text \<open>The documented way Connect applies a list of interceptors: the first is the outermost.\<close>

definition wrap_chain :: "('b, 'r, 's) rpc_interceptor list \<Rightarrow> ('b, 'r, 's) rpc_handler \<Rightarrow> ('b, 'r, 's) rpc_handler" where
  "wrap_chain is h = foldr (\<lambda>i h. i h) is h"

lemma wrap_chain_simps [simp]:
  "wrap_chain [] h = h" "wrap_chain (i # is) h = i (wrap_chain is h)"
  by (simp_all add: wrap_chain_def)

lemma wrap_chain_append: "wrap_chain (is @ js) h = wrap_chain is (wrap_chain js h)"
  by (simp add: wrap_chain_def)

text \<open>Any sorted arrangement of the entries gives the chain, if the handlers' priorities differ.\<close>

lemma map_filter_filter: "List.map_filter f xs = List.map_filter f (filter (\<lambda>x. f x \<noteq> None) xs)"
  by (induction xs) (auto simp: map_filter_simps split: option.splits)

lemma chain_any_sort:
  assumes "mset (filter (\<lambda>e. ce_handler e \<noteq> None) es') = mset (filter (\<lambda>e. ce_handler e \<noteq> None) es)"
    and "sorted (map ce_priority (filter (\<lambda>e. ce_handler e \<noteq> None) es'))"
    and "distinct (map ce_priority (filter (\<lambda>e. ce_handler e \<noteq> None) es))"
  shows "List.map_filter ce_handler es' = provide_interceptor_chain List.map_filter es"
proof -
  let ?on = "\<lambda>e. ce_handler e \<noteq> None"
  have "filter ?on es' = sort_key ce_priority (filter ?on es)"
  proof (rule properties_for_sort_key [symmetric])
    show "mset (filter ?on es') = mset (filter ?on es)" using assms(1) .
    show "sorted (map ce_priority (filter ?on es'))" using assms(2) .
    fix k assume k: "k \<in> set (filter ?on es')"
    have "inj_on ce_priority (set (filter ?on es))" using assms(3) by (simp add: distinct_map)
    moreover have sets: "set (filter ?on es') = set (filter ?on es)" using assms(1) by (metis set_mset_mset)
    ultimately have only: "x \<in> set (filter ?on es) \<Longrightarrow> ce_priority k = ce_priority x \<Longrightarrow> x = k" for x
      using k by (auto dest: inj_onD)
    have dist: "distinct (filter ?on es)" using assms(3) by (simp add: distinct_map)
    have dist': "distinct (filter ?on es')" using dist assms(1) by (metis mset_eq_imp_distinct_iff)
    have one: "distinct xs \<Longrightarrow> k \<in> set xs \<Longrightarrow> (\<And>x. x \<in> set xs \<Longrightarrow> ce_priority k = ce_priority x \<Longrightarrow> x = k) \<Longrightarrow>
        filter (\<lambda>x. ce_priority k = ce_priority x) xs = [k]" for xs
      by (induction xs) (auto simp: filter_empty_conv)
    show "filter (\<lambda>x. ce_priority k = ce_priority x) (filter ?on es')
        = filter (\<lambda>x. ce_priority k = ce_priority x) (filter ?on es)"
    proof -
      have "filter (\<lambda>x. ce_priority k = ce_priority x) (filter ?on es') = [k]"
        by (rule one [OF dist' k]) (use only sets in blast)
      moreover have "filter (\<lambda>x. ce_priority k = ce_priority x) (filter ?on es) = [k]"
        by (rule one [OF dist]) (use k sets only in blast)+
      ultimately show ?thesis by simp
    qed
  qed
  then have "List.map_filter ce_handler es' = List.map_filter ce_handler (filter ?on (sort_key ce_priority es))"
    by (simp add: map_filter_filter [of _ es'] filter_sort)
  then show ?thesis unfolding provide_interceptor_chain_def map_filter_filter [symmetric] .
qed

subsection \<open>Reasoning about chains\<close>

text \<open>
  \<open>guards req P i Q\<close>: on contexts with \<open>P\<close>, what \<open>i\<close> does with a handler for the request depends only
  on what the handler does on contexts with \<open>Q\<close>, so the handler is called on such contexts only.
\<close>

definition guards :: "'b rpc_request \<Rightarrow> (go_ctx \<Rightarrow> bool) \<Rightarrow> ('b, 'r, 's) rpc_interceptor \<Rightarrow> (go_ctx \<Rightarrow> bool) \<Rightarrow> bool" where
  "guards req P i Q \<longleftrightarrow> (\<forall>h h'. (\<forall>ctx s. Q ctx \<longrightarrow> h ctx req s = h' ctx req s)
     \<longrightarrow> (\<forall>ctx s. P ctx \<longrightarrow> i h ctx req s = i h' ctx req s))"

lemma guardsD:
  "guards req P i Q \<Longrightarrow> (\<And>ctx s. Q ctx \<Longrightarrow> h ctx req s = h' ctx req s) \<Longrightarrow> P ctx \<Longrightarrow> i h ctx req s = i h' ctx req s"
  unfolding guards_def by blast

lemma guards_seq: "guards req P i Q \<Longrightarrow> guards req Q j R \<Longrightarrow> guards req P (\<lambda>h. i (j h)) R"
  unfolding guards_def by blast

lemma guards_mono: "guards req P i Q \<Longrightarrow> (\<And>c. P' c \<Longrightarrow> P c) \<Longrightarrow> (\<And>c. Q c \<Longrightarrow> Q' c) \<Longrightarrow> guards req P' i Q'"
  unfolding guards_def by blast

lemma guards_Nil: "guards req P (wrap_chain []) P"
  by (simp add: guards_def)

lemma guards_Cons: "guards req P i Q \<Longrightarrow> guards req Q (wrap_chain is) R \<Longrightarrow> guards req P (wrap_chain (i # is)) R"
  unfolding guards_def by simp

lemma guards_keep:
  "guards req P recovery_interceptor P"
  "guards req P (logger_interceptor log_rpc dflt) P"
  "guards req P (validation_interceptor as_proto validate) P"
  "guards req P (timeout_interceptor err_after) P"
  "guards req P (rate_limit_interceptor allow) P"
  "guards req P (bulkhead_interceptor new_weighted maxConcurrent timeout) P"
  unfolding guards_def recovery_interceptor_def logger_interceptor_def validation_interceptor_def
    timeout_interceptor_def rate_limit_interceptor_def bulkhead_interceptor_def
  by (auto split: option.splits prod.splits bool.splits)

subsection \<open>Properties\<close>

text \<open>
  With the recovery interceptor outermost no panic of a handler or of an inner interceptor
  escapes: the chain returns an outcome for every request, an internal error in place of the
  panic, and outcomes that are not panics are passed on unchanged.
\<close>

theorem recovery_contains_panics:
  "(\<exists>out s'. wrap_chain (recovery_interceptor # is) h ctx req s = (Inr out, s'))
   \<and> (\<forall>p s'. wrap_chain is h ctx req s = (Inl p, s') \<longrightarrow> wrap_chain (recovery_interceptor # is) h ctx req s =
        (Inr (None, Some (Connect_error CodeInternal (New_error ''internal server error''))), s'))
   \<and> (\<forall>out s'. wrap_chain is h ctx req s = (Inr out, s') \<longrightarrow>
        wrap_chain (recovery_interceptor # is) h ctx req s = (Inr out, s'))"
  by (cases "wrap_chain is h ctx req s"; cases "fst (wrap_chain is h ctx req s)")
    (auto simp: recovery_interceptor_def rpc_fail_def split: prod.splits)

definition demo_request :: "unit rpc_request" where
  "demo_request = \<lparr>rq_procedure = ''p'', rq_header = (\<lambda>_. []), rq_peer = [], rq_message = ()\<rparr>"

definition panicking :: "(unit, nat, nat) rpc_handler" where
  "panicking ctx req s = (Inl ''boom'', s)"

theorem recovery_contains_panics_witness:
  "\<exists>out s'. wrap_chain [recovery_interceptor] panicking ctx_background demo_request 0 = (Inr out, s')"
  using recovery_contains_panics [of "[]" panicking ctx_background demo_request 0] by blast

text \<open>
  C31. The bulkhead is balanced: for a semaphore of the configured number of slots whose acquire takes one of them and
  whose release gives one back, the handler runs only while it holds a slot, at most that number are ever taken, and the number
  taken is the same after the call as before, also when the handler panics.
\<close>

theorem bulkhead_balanced:
  assumes sem: "new_weighted maxConcurrent = (acquire, release)"
    and acq: "\<forall>s s'. acquire timeout ctx s = (None, s') \<longrightarrow> taken s' = taken s + 1 \<and> int (taken s') \<le> maxConcurrent"
    and fail: "\<forall>s s' e. acquire timeout ctx s = (Some e, s') \<longrightarrow> taken s' = taken s"
    and rel: "\<forall>s. 0 < taken s \<longrightarrow> taken (release s) = taken s - (1 :: nat)"
    and inner: "\<forall>s. 0 < taken s \<longrightarrow> int (taken s) \<le> maxConcurrent \<longrightarrow> taken (snd (h ctx req s)) = taken s"
  shows "taken (snd (bulkhead_interceptor new_weighted maxConcurrent timeout h ctx req s)) = taken s
    \<and> (\<forall>h'. (\<forall>t. 0 < taken t \<longrightarrow> int (taken t) \<le> maxConcurrent \<longrightarrow> h' ctx req t = h ctx req t) \<longrightarrow>
         bulkhead_interceptor new_weighted maxConcurrent timeout h' ctx req s
           = bulkhead_interceptor new_weighted maxConcurrent timeout h ctx req s)"
proof (cases "acquire timeout ctx s")
  case (Pair r s')
  show ?thesis
  proof (cases r)
    case None
    then have t: "taken s' = taken s + 1 \<and> int (taken s') \<le> maxConcurrent" using acq Pair by blast
    then have held: "0 < taken s'" "int (taken s') \<le> maxConcurrent" by auto
    then have "taken (snd (h ctx req s')) = taken s'" using inner by blast
    moreover from this held have "taken (release (snd (h ctx req s'))) = taken s'  - 1" using rel by simp
    ultimately show ?thesis using Pair None t held sem by (simp add: bulkhead_interceptor_def)
  qed (use Pair fail sem in \<open>auto simp: bulkhead_interceptor_def rpc_fail_def\<close>)
qed

text \<open>A semaphore over the number of slots taken.\<close>

definition slots :: "int \<Rightarrow> nat semaphore" where
  "slots n = ((\<lambda>timeout ctx s. if int s < n then (None, s + 1) else (Some (New_error ''busy''), s)), (\<lambda>s. s - 1))"

theorem bulkhead_balanced_witness:
  "snd (bulkhead_interceptor slots 2 second panicking ctx_background demo_request 1) = 1
   \<and> bulkhead_interceptor slots 2 second panicking ctx_background demo_request 2
       = (Inr (None, Some (Connect_error CodeUnavailable (New_error ''too many concurrent requests''))), 2)"
proof -
  let ?acquire = "\<lambda>(timeout :: duration) (ctx :: go_ctx) s. if int s < 2 then (None, s + 1) else (Some (New_error ''busy''), s)"
  have 0: "slots 2 = (?acquire, \<lambda>s. s - 1)" by (simp add: slots_def)
  have 1: "\<forall>s s'. ?acquire second ctx_background s = (None, s') \<longrightarrow> id s' = id s + 1 \<and> int (id s') \<le> 2" by simp
  have 2: "\<forall>s s' e. ?acquire second ctx_background s = (Some e, s') \<longrightarrow> id s' = id s" by simp
  have 3: "\<forall>s :: nat. 0 < id s \<longrightarrow> id (s - 1) = id s - (1 :: nat)" by simp
  have 4: "\<forall>s. 0 < id s \<longrightarrow> int (id s) \<le> 2 \<longrightarrow> id (snd (panicking ctx_background demo_request s)) = id s"
    by (simp add: panicking_def)
  have "snd (bulkhead_interceptor slots 2 second panicking ctx_background demo_request 1) = 1"
    using bulkhead_balanced [where taken = id and h = panicking and req = demo_request and s = 1 and new_weighted = slots and maxConcurrent = 2
        and timeout = second and ctx = ctx_background and acquire = ?acquire and release = "\<lambda>s. s - 1", OF 0 1 2 3 4, THEN conjunct1] by simp
  then show ?thesis by (simp add: bulkhead_interceptor_def slots_def rpc_fail_def)
qed

end
