(* ===== verification/Server_Config.thy ===== *)
theory Server_Config
  imports Core_Config
begin

section \<open>The HTTP server's configuration (pkg/http/server)\<close>

text \<open>
  \<^verbatim>\<open>config.go\<close> and the settings \<^verbatim>\<open>server.go\<close> copies into \<^verbatim>\<open>http.Server\<close>. The write timeout is computed
  with 64-bit wrap-around; the theorems show that it does not happen for a loaded configuration.
\<close>

subsection \<open>Constants and types\<close>

abbreviation writeTimeoutBuffer :: duration where "writeTimeoutBuffer \<equiv> 5 * second"
abbreviation maxReadHeaderTimeout :: duration where "maxReadHeaderTimeout \<equiv> 1 * minute"
abbreviation maxReadTimeout :: duration where "maxReadTimeout \<equiv> 5 * minute"
abbreviation maxIdleTimeout :: duration where "maxIdleTimeout \<equiv> 10 * minute"
abbreviation maxRequestTimeout :: duration where "maxRequestTimeout \<equiv> 5 * minute"
abbreviation maxHeaderBytes :: int where "maxHeaderBytes \<equiv> 10 * 2 ^ 20"
abbreviation maxRequestsPerSecond :: int where "maxRequestsPerSecond \<equiv> 1000000"
abbreviation maxBurst :: int where "maxBurst \<equiv> 100000"
abbreviation maxConcurrent :: int where "maxConcurrent \<equiv> 100000"
abbreviation maxBulkheadTimeout :: duration where "maxBulkheadTimeout \<equiv> 1 * minute"

record connection_config =
  read_header_timeout :: duration
  read_timeout :: duration
  write_timeout :: duration
  idle_timeout :: duration
  max_header_bytes :: int

record rate_limit_config =
  rl_enabled :: bool
  rl_requests_per_second :: int
  rl_burst :: int

record bulkhead_config =
  bh_enabled :: bool
  bh_max_concurrent :: int
  bh_timeout :: duration

text \<open>\<open>request_timeout\<close> is the one field of \<^verbatim>\<open>TimeoutConfig\<close>.\<close>

record server_config =
  sv_port :: int
  sv_connection :: connection_config
  request_timeout :: duration
  sv_rate_limit :: rate_limit_config
  sv_bulkhead :: bulkhead_config

definition server_zero :: server_config where
  "server_zero = \<lparr>sv_port = 0,
     sv_connection = \<lparr>read_header_timeout = 0, read_timeout = 0, write_timeout = 0, idle_timeout = 0,
       max_header_bytes = 0\<rparr>,
     request_timeout = 0,
     sv_rate_limit = \<lparr>rl_enabled = False, rl_requests_per_second = 0, rl_burst = 0\<rparr>,
     sv_bulkhead = \<lparr>bh_enabled = False, bh_max_concurrent = 0, bh_timeout = 0\<rparr>\<rparr>"

subsection \<open>Defaults\<close>

text \<open>\<^verbatim>\<open>if x <= 0 { x = d }\<close>.\<close>

definition if_not_positive :: "int \<Rightarrow> int \<Rightarrow> int" where
  "if_not_positive d x = (if x \<le> 0 then d else x)"

lemma if_not_positive_simps [simp]:
  "0 < d \<Longrightarrow> if_not_positive d (if_not_positive d x) = if_not_positive d x"
  "0 < d \<Longrightarrow> 0 < if_not_positive d x"
  by (auto simp: if_not_positive_def)

definition connection_defaults :: "duration \<Rightarrow> connection_config \<Rightarrow> connection_config" where
  [cfg_defs]: "connection_defaults request c =
     (let c = c\<lparr>read_header_timeout := if_not_positive (10 * second) (read_header_timeout c),
          read_timeout := if_not_positive (30 * second) (read_timeout c),
          idle_timeout := if_not_positive (120 * second) (idle_timeout c),
          max_header_bytes := if_not_positive (2 ^ 20) (max_header_bytes c)\<rparr>
      in if request > 0 then c\<lparr>write_timeout := wrap64 (request + writeTimeoutBuffer)\<rparr> else c)"

definition rate_limit_defaults :: "rate_limit_config \<Rightarrow> rate_limit_config" where
  [cfg_defs]: "rate_limit_defaults c =
     (if \<not> rl_enabled c then c
      else c\<lparr>rl_requests_per_second := if_not_positive 1000 (rl_requests_per_second c),
             rl_burst := if_not_positive 100 (rl_burst c)\<rparr>)"

definition bulkhead_defaults :: "bulkhead_config \<Rightarrow> bulkhead_config" where
  [cfg_defs]: "bulkhead_defaults c =
     (if \<not> bh_enabled c then c
      else c\<lparr>bh_max_concurrent := if_not_positive 500 (bh_max_concurrent c),
             bh_timeout := if_not_positive (100 * millisecond) (bh_timeout c)\<rparr>)"

definition server_apply_defaults :: "server_config \<Rightarrow> server_config" where
  [cfg_defs]: "server_apply_defaults c = c\<lparr>
     sv_port := if_zero 8080 (sv_port c),
     sv_connection := connection_defaults (request_timeout c) (sv_connection c),
     sv_rate_limit := rate_limit_defaults (sv_rate_limit c),
     sv_bulkhead := bulkhead_defaults (sv_bulkhead c)\<rparr>"

subsection \<open>Validation\<close>

definition connection_validate :: "connection_config \<Rightarrow> go_error option" where
  [cfg_defs]: "connection_validate c = first_error [
     failing (read_header_timeout c < 0) ''read-header-timeout cannot be negative'',
     failing (read_header_timeout c > maxReadHeaderTimeout) (''read-header-timeout cannot exceed '' @ duration_text maxReadHeaderTimeout),
     failing (read_timeout c < 0) ''read-timeout cannot be negative'',
     failing (read_timeout c > maxReadTimeout) (''read-timeout cannot exceed '' @ duration_text maxReadTimeout),
     failing (idle_timeout c < 0) ''idle-timeout cannot be negative'',
     failing (idle_timeout c > maxIdleTimeout) (''idle-timeout cannot exceed '' @ duration_text maxIdleTimeout),
     failing (max_header_bytes c < 0) ''max-header-bytes cannot be negative'',
     failing (max_header_bytes c > maxHeaderBytes) (''max-header-bytes cannot exceed '' @ int_text maxHeaderBytes)]"

definition timeout_validate :: "duration \<Rightarrow> go_error option" where
  [cfg_defs]: "timeout_validate request = first_error [
     failing (request < 0) ''request-timeout cannot be negative'',
     failing (request > maxRequestTimeout) (''request-timeout cannot exceed '' @ duration_text maxRequestTimeout)]"

definition rate_limit_validate :: "rate_limit_config \<Rightarrow> go_error option" where
  [cfg_defs]: "rate_limit_validate c =
     (if \<not> rl_enabled c then None
      else first_error [
        failing (rl_requests_per_second c < 0) ''requests-per-second cannot be negative'',
        failing (rl_requests_per_second c > maxRequestsPerSecond) (''requests-per-second cannot exceed '' @ int_text maxRequestsPerSecond),
        failing (rl_burst c < 0) ''burst cannot be negative'',
        failing (rl_burst c > maxBurst) (''burst cannot exceed '' @ int_text maxBurst)])"

definition bulkhead_validate :: "bulkhead_config \<Rightarrow> go_error option" where
  [cfg_defs]: "bulkhead_validate c =
     (if \<not> bh_enabled c then None
      else first_error [
        failing (bh_max_concurrent c < 0) ''max-concurrent cannot be negative'',
        failing (bh_max_concurrent c > maxConcurrent) (''max-concurrent cannot exceed '' @ int_text maxConcurrent),
        failing (bh_timeout c < 0) ''timeout cannot be negative'',
        failing (bh_timeout c > maxBulkheadTimeout) (''timeout cannot exceed '' @ duration_text maxBulkheadTimeout)])"

definition server_validate :: "server_config \<Rightarrow> go_error option" where
  [cfg_defs]: "server_validate c =
     (let section = (\<lambda>name err. map_option (\<lambda>e. Wrapf (name @ '': '') e []) err)
      in first_error [
        failing (sv_port c < 0 \<or> sv_port c > 65535)
          (''port must be between 0 and 65535, got '' @ int_text (sv_port c)),
        section ''connection'' (connection_validate (sv_connection c)),
        section ''timeout'' (timeout_validate (request_timeout c)),
        section ''rate-limit'' (rate_limit_validate (sv_rate_limit c)),
        section ''bulkhead'' (bulkhead_validate (sv_bulkhead c))])"

interpretation server_cfg: configurable server_apply_defaults "validating server_validate"
  by (rule configurable_checked) (simp add: cfg_defs Let_def)

subsection \<open>The server's settings\<close>

record http_server =
  srv_read_header_timeout :: duration
  srv_read_timeout :: duration
  srv_write_timeout :: duration
  srv_idle_timeout :: duration
  srv_max_header_bytes :: int
  srv_http1 :: bool
  srv_http2 :: bool
  srv_unencrypted_http2 :: bool

definition new_server :: "server_config \<Rightarrow> http_server" where
  "new_server conf = \<lparr>
     srv_read_header_timeout = read_header_timeout (sv_connection conf),
     srv_read_timeout = read_timeout (sv_connection conf),
     srv_write_timeout = write_timeout (sv_connection conf),
     srv_idle_timeout = idle_timeout (sv_connection conf),
     srv_max_header_bytes = max_header_bytes (sv_connection conf),
     srv_http1 = True, srv_http2 = True, srv_unencrypted_http2 = True\<rparr>"

subsection \<open>Properties\<close>

text \<open>Which configurations load: only the port, the upper bounds and the request timeout decide.\<close>

definition server_loadable :: "server_config \<Rightarrow> bool" where
  "server_loadable c \<longleftrightarrow> 0 \<le> sv_port c \<and> sv_port c \<le> 65535
     \<and> 0 \<le> request_timeout c \<and> request_timeout c \<le> 5 * minute
     \<and> read_header_timeout (sv_connection c) \<le> minute \<and> read_timeout (sv_connection c) \<le> 5 * minute
     \<and> idle_timeout (sv_connection c) \<le> 10 * minute \<and> max_header_bytes (sv_connection c) \<le> 10 * 2 ^ 20
     \<and> (rl_enabled (sv_rate_limit c) \<longrightarrow>
          rl_requests_per_second (sv_rate_limit c) \<le> 1000000 \<and> rl_burst (sv_rate_limit c) \<le> 100000)
     \<and> (bh_enabled (sv_bulkhead c) \<longrightarrow>
          bh_max_concurrent (sv_bulkhead c) \<le> 100000 \<and> bh_timeout (sv_bulkhead c) \<le> minute)"

lemma connection_validate_defaults:
  "connection_validate (connection_defaults request c) = None \<longleftrightarrow>
     read_header_timeout c \<le> minute \<and> read_timeout c \<le> 5 * minute
     \<and> idle_timeout c \<le> 10 * minute \<and> max_header_bytes c \<le> 10 * 2 ^ 20"
  unfolding connection_validate_def connection_defaults_def Let_def
  by (cases "request > 0") (auto simp: if_not_positive_def not_less)

lemma rate_limit_validate_defaults:
  "rate_limit_validate (rate_limit_defaults c) = None \<longleftrightarrow>
     (rl_enabled c \<longrightarrow> rl_requests_per_second c \<le> 1000000 \<and> rl_burst c \<le> 100000)"
  by (auto simp: rate_limit_validate_def rate_limit_defaults_def if_not_positive_def not_less)

lemma bulkhead_validate_defaults:
  "bulkhead_validate (bulkhead_defaults c) = None \<longleftrightarrow>
     (bh_enabled c \<longrightarrow> bh_max_concurrent c \<le> 100000 \<and> bh_timeout c \<le> minute)"
  by (auto simp: bulkhead_validate_def bulkhead_defaults_def if_not_positive_def not_less)

lemma timeout_validate_ok: "timeout_validate t = None \<longleftrightarrow> 0 \<le> t \<and> t \<le> 5 * minute"
  by (auto simp: timeout_validate_def not_less)

lemma server_validate_defaults: "server_validate (server_apply_defaults c) = None \<longleftrightarrow> server_loadable c"
  unfolding server_validate_def server_apply_defaults_def server_loadable_def Let_def first_error_None failing_None
  by (simp add: connection_validate_defaults rate_limit_validate_defaults bulkhead_validate_defaults
      timeout_validate_ok not_less if_zero_def) blast

text \<open>
  C36. A server configuration given to \<^verbatim>\<open>Load\<close> loads exactly when its port, its request timeout and
  its upper bounds are in range; a negative connection setting, rate or concurrency is replaced
  by its default, not refused.
\<close>

theorem server_load_iff:
  "(\<exists>c'. load_config server_apply_defaults (validating server_validate) server_zero k key (Some c) = Inr c')
     \<longleftrightarrow> server_loadable c"
proof -
  have "validating server_validate (server_apply_defaults c) =
      (case server_validate (server_apply_defaults c) of None \<Rightarrow> Inr (server_apply_defaults c) | Some e \<Rightarrow> Inl e)"
    by (simp add: validating_def)
  then show ?thesis
    unfolding load_config_override using server_validate_defaults [of c]
    by (auto split: option.splits)
qed

text \<open>
  The \<^verbatim>\<open>http.Server\<close> built from a loaded configuration has positive read, idle and header limits
  within their bounds, accepts HTTP/2 without TLS, and whenever the request timeout is enabled its
  write timeout is exactly 5 seconds longer, so that the timeout's response can still be written;
  no 64-bit addition wraps.
\<close>

theorem new_server_settings:
  assumes "load_config server_apply_defaults (validating server_validate) server_zero k key ov = Inr c"
  shows "0 < srv_read_header_timeout (new_server c) \<and> srv_read_header_timeout (new_server c) \<le> minute
    \<and> 0 < srv_read_timeout (new_server c) \<and> srv_read_timeout (new_server c) \<le> 5 * minute
    \<and> 0 < srv_idle_timeout (new_server c) \<and> srv_idle_timeout (new_server c) \<le> 10 * minute
    \<and> 0 < srv_max_header_bytes (new_server c) \<and> srv_unencrypted_http2 (new_server c)
    \<and> (0 < request_timeout c \<longrightarrow>
         srv_write_timeout (new_server c) = request_timeout c + 5 * second)"
proof -
  note complete = server_cfg.loaded_complete [OF assms]
  from complete have "server_loadable c" using server_validate_defaults [of c] by simp
  then have bounds: "request_timeout c \<le> 5 * minute" "read_header_timeout (sv_connection c) \<le> minute"
    "read_timeout (sv_connection c) \<le> 5 * minute" "idle_timeout (sv_connection c) \<le> 10 * minute"
    by (simp_all add: server_loadable_def)
  have conn: "sv_connection c = connection_defaults (request_timeout c) (sv_connection c)"
    using arg_cong [OF complete(1), of sv_connection] by (simp add: server_apply_defaults_def)
  have pos: "0 < read_header_timeout (sv_connection c)" "0 < read_timeout (sv_connection c)"
    "0 < idle_timeout (sv_connection c)" "0 < max_header_bytes (sv_connection c)"
    by (subst conn, simp add: connection_defaults_def Let_def)+
  have "write_timeout (sv_connection c) = request_timeout c + 5 * second" if "0 < request_timeout c"
    using that bounds(1) by (subst conn) (simp add: connection_defaults_def Let_def wrap64_id)
  with pos bounds show ?thesis by (simp add: new_server_def)
qed

theorem new_server_settings_witness:
  "srv_write_timeout (new_server (server_apply_defaults (server_zero\<lparr>request_timeout := 30 * second\<rparr>)))
     = 35 * second"
proof -
  let ?c = "server_zero\<lparr>request_timeout := 30 * second\<rparr>"
  have "server_loadable ?c" by (simp add: server_loadable_def server_zero_def)
  then have "load_config server_apply_defaults (validating server_validate) server_zero
      \<lparr>exists_key = \<lambda>_. False, unmarshal = \<lambda>_. Inr\<rparr> ''server'' (Some ?c) = Inr (server_apply_defaults ?c)"
    using server_validate_defaults [of ?c] by (simp add: load_config_override validating_def)
  from new_server_settings [OF this] show ?thesis
    by (simp add: server_apply_defaults_def server_zero_def)
qed

end
