(* ===== verification/Service_Configs.thy ===== *)
theory Service_Configs
  imports Server_Config
begin

section \<open>The smaller configurations\<close>

text \<open>
  The \<^verbatim>\<open>Configurable\<close> values of \<^verbatim>\<open>kafka/outbox/config.go\<close>, \<^verbatim>\<open>http/grpc/client/config.go\<close>,
  \<^verbatim>\<open>security/token/config.go\<close>, \<^verbatim>\<open>security/validation/config.go\<close>, \<^verbatim>\<open>tenant/config.go\<close>,
  \<^verbatim>\<open>observability/config.go\<close>, \<^verbatim>\<open>core/logger/config.go\<close> and \<^verbatim>\<open>http/client/client.go\<close>, each an
  interpretation of \<open>configurable\<close>.
\<close>

subsection \<open>Outbox, tenancy, gRPC client\<close>

text \<open>The outbox configuration is its one field \<^verbatim>\<open>MaxBackoff\<close>; the tenancy one is \<^verbatim>\<open>Enabled\<close>.\<close>

definition outbox_apply_defaults :: "duration \<Rightarrow> duration" where
  [cfg_defs]: "outbox_apply_defaults max_backoff = if_not_positive (10 * hour) max_backoff"

definition outbox_validate :: "duration \<Rightarrow> go_error option" where
  "outbox_validate max_backoff = None"

interpretation outbox_cfg: configurable outbox_apply_defaults "validating outbox_validate"
  by (rule configurable_checked) (simp add: cfg_defs)

definition tenant_apply_defaults :: "bool \<Rightarrow> bool" where
  "tenant_apply_defaults enabled = enabled"

definition tenant_validate :: "bool \<Rightarrow> go_error option" where
  "tenant_validate enabled = None"

interpretation tenant_cfg: configurable tenant_apply_defaults "validating tenant_validate"
  by (rule configurable_checked) (simp add: tenant_apply_defaults_def)

record grpc_client_config =
  grpc_address :: string
  grpc_timeout :: duration

definition grpc_zero :: grpc_client_config where
  "grpc_zero = \<lparr>grpc_address = [], grpc_timeout = 0\<rparr>"

definition grpc_apply_defaults :: "grpc_client_config \<Rightarrow> grpc_client_config" where
  [cfg_defs]: "grpc_apply_defaults c = c\<lparr>grpc_timeout := if_not_positive (10 * second) (grpc_timeout c)\<rparr>"

definition grpc_validate :: "grpc_client_config \<Rightarrow> go_error option" where
  [cfg_defs]: "grpc_validate c = failing (grpc_address c = []) ''grpc client config: address is required''"

interpretation grpc_cfg: configurable grpc_apply_defaults "validating grpc_validate"
  by (rule configurable_checked) (simp add: cfg_defs)

definition grpc_load_config :: "grpc_client_config source \<Rightarrow> string \<Rightarrow> (go_error, grpc_client_config) result" where
  "grpc_load_config k key =
     (case load_config grpc_apply_defaults (validating grpc_validate) grpc_zero k key None of
        Inl e \<Rightarrow> Inl (Wrapf (''load '' @ key @ '' config: '') e [])
      | Inr c \<Rightarrow> Inr c)"

subsection \<open>Security\<close>

record token_config =
  tc_enabled :: "bool option"
  tc_client_id :: string
  tc_client_secret :: string
  tc_token_url :: string
  tc_resource :: string
  tc_scopes :: "string list"

definition token_apply_defaults :: "token_config \<Rightarrow> token_config" where
  [cfg_defs]: "token_apply_defaults c =
     (let c = (if tc_enabled c = None
               then c\<lparr>tc_enabled := Some (\<not> (tc_client_id c = [] \<and> tc_client_secret c = []
                        \<and> tc_token_url c = [] \<and> tc_resource c = [] \<and> tc_scopes c = []))\<rparr>
               else c)
      in if tc_scopes c = [] then c\<lparr>tc_scopes := [''openid'']\<rparr> else c)"

definition token_validate :: "token_config \<Rightarrow> go_error option" where
  [cfg_defs]: "token_validate c =
     (if tc_enabled c = Some False then None
      else first_error [
        failing (tc_client_id c = []) ''security.client-credentials.client-id is required'',
        failing (tc_client_secret c = []) ''security.client-credentials.client-secret is required'',
        failing (tc_token_url c = []) ''security.client-credentials.token-url is required''])"

interpretation token_cfg: configurable token_apply_defaults "validating token_validate"
  by (rule configurable_checked) (simp add: cfg_defs Let_def)

text \<open>
  \<^verbatim>\<open>NewTokenSource\<close> builds the library's client-credentials configuration; the source itself is the
  library's. The record holds what is passed on.
\<close>

record client_credentials =
  cred_id :: string
  cred_secret :: string
  cred_url :: string
  cred_scopes :: "string list"
  cred_params :: "(string, string list) go_map"

definition new_token_source :: "token_config \<Rightarrow> (go_error, client_credentials) result" where
  "new_token_source c =
     (if tc_client_id c = [] \<or> tc_client_secret c = [] \<or> tc_token_url c = []
      then Inl (New_error (''client-credentials not configured: set client-id, client-secret, ''
             @ ''and token-url in security.client-credentials''))
      else Inr \<lparr>cred_id = tc_client_id c, cred_secret = tc_client_secret c, cred_url = tc_token_url c,
             cred_scopes = tc_scopes c,
             cred_params = (if tc_resource c \<noteq> [] then [(''resource'', [tc_resource c])] else [])\<rparr>)"

text \<open>\<^verbatim>\<open>provideTokenSource\<close>: nil when disabled.\<close>

definition provide_token_source :: "token_config \<Rightarrow> (go_error, client_credentials option) result" where
  "provide_token_source c =
     (if tc_enabled c = Some False then Inr None
      else (case new_token_source c of Inl e \<Rightarrow> Inl e | Inr s \<Rightarrow> Inr (Some s)))"

record jwks_config =
  jc_enabled :: "bool option"
  jc_jwks_url :: string
  jc_issuer :: string
  jc_audience :: string

definition jwks_apply_defaults :: "jwks_config \<Rightarrow> jwks_config" where
  [cfg_defs]: "jwks_apply_defaults c =
     (if jc_enabled c = None
      then c\<lparr>jc_enabled := Some (\<not> (jc_jwks_url c = [] \<and> jc_issuer c = [] \<and> jc_audience c = []))\<rparr>
      else c)"

definition jwks_validate :: "jwks_config \<Rightarrow> go_error option" where
  [cfg_defs]: "jwks_validate c =
     (if jc_enabled c = Some False then None
      else first_error [
        failing (jc_jwks_url c = []) ''security.jwks.jwks-url is required'',
        failing (jc_issuer c = []) ''security.jwks.issuer is required'',
        failing (jc_audience c = []) ''security.jwks.audience is required''])"

interpretation jwks_cfg: configurable jwks_apply_defaults "validating jwks_validate"
  by (rule configurable_checked) (simp add: cfg_defs)

subsection \<open>Observability\<close>

text \<open>
  A \<^verbatim>\<open>float64\<close> is not a number, an infinity (with its sign) or the dyadic rational \<open>m / 2 ^ k\<close>.
  Comparisons with not-a-number are false.
\<close>

datatype float64 = Not_a_number | Infinity bool | Dyadic int nat

fun float_less_0 :: "float64 \<Rightarrow> bool" where
  "float_less_0 Not_a_number = False"
| "float_less_0 (Infinity positive) = (\<not> positive)"
| "float_less_0 (Dyadic m k) = (m < 0)"

fun float_greater_1 :: "float64 \<Rightarrow> bool" where
  "float_greater_1 Not_a_number = False"
| "float_greater_1 (Infinity positive) = positive"
| "float_greater_1 (Dyadic m k) = (m > 2 ^ k)"

fun float_is_0 :: "float64 \<Rightarrow> bool" where
  "float_is_0 (Dyadic m k) = (m = 0)"
| "float_is_0 _ = False"

text \<open>\<^verbatim>\<open>%f\<close>: six decimals, rounded to the nearest, ties to even.\<close>

fun float_text :: "float64 \<Rightarrow> string" where
  "float_text Not_a_number = ''NaN''"
| "float_text (Infinity positive) = (if positive then ''+Inf'' else ''-Inf'')"
| "float_text (Dyadic m k) =
     (let scaled = nat \<bar>m\<bar> * 1000000; q = scaled div 2 ^ k; r = 2 * (scaled mod 2 ^ k);
          n = (if r > 2 ^ k \<or> r = 2 ^ k \<and> odd q then q + 1 else q)
      in (if m < 0 then ''-'' else []) @ nat_digits (n div 1000000) @ CHR ''.'' # tl (nat_digits (1000000 + n mod 1000000)))"

abbreviation DefaultMetricsInterval :: duration where "DefaultMetricsInterval \<equiv> 10 * second"
abbreviation DefaultSampleRatio :: float64 where "DefaultSampleRatio \<equiv> Dyadic 1 0"
abbreviation DefaultMutexProfileFraction :: int where "DefaultMutexProfileFraction \<equiv> 5"
abbreviation DefaultBlockProfileRate :: int where "DefaultBlockProfileRate \<equiv> 5"

record profiling_config =
  prof_enabled :: bool
  prof_endpoint :: string
  prof_cpu :: "bool option"
  prof_heap :: "bool option"
  prof_goroutines :: "bool option"
  prof_mutex :: "bool option"
  prof_block :: "bool option"
  prof_mutex_fraction :: int
  prof_block_rate :: int

record observability_config =
  ob_endpoint :: string
  ob_tracing_enabled :: bool
  ob_sample_ratio :: float64
  ob_metrics_enabled :: bool
  ob_metrics_interval :: duration
  ob_profiling :: profiling_config

definition if_nil :: "'a \<Rightarrow> 'a option \<Rightarrow> 'a option" where
  "if_nil d x = (if x = None then Some d else x)"

lemma if_nil_simps [simp]: "if_nil d (if_nil d x) = if_nil d x" "if_nil d x \<noteq> None"
  "if_nil d x = x \<longleftrightarrow> x \<noteq> None"
  by (auto simp: if_nil_def)

definition profiling_defaults :: "profiling_config \<Rightarrow> profiling_config" where
  [cfg_defs]: "profiling_defaults c =
     (let c = c\<lparr>prof_cpu := if_nil True (prof_cpu c), prof_heap := if_nil True (prof_heap c),
            prof_goroutines := if_nil True (prof_goroutines c), prof_mutex := if_nil False (prof_mutex c),
            prof_block := if_nil False (prof_block c)\<rparr>;
          c = (if prof_mutex c = Some True then c\<lparr>prof_mutex_fraction := if_zero DefaultMutexProfileFraction (prof_mutex_fraction c)\<rparr> else c)
      in if prof_block c = Some True then c\<lparr>prof_block_rate := if_zero DefaultBlockProfileRate (prof_block_rate c)\<rparr> else c)"

definition observability_apply_defaults :: "observability_config \<Rightarrow> observability_config" where
  [cfg_defs]: "observability_apply_defaults c = c\<lparr>
     ob_metrics_interval := if_zero DefaultMetricsInterval (ob_metrics_interval c),
     ob_sample_ratio := (if float_is_0 (ob_sample_ratio c) then DefaultSampleRatio else ob_sample_ratio c),
     ob_profiling := (if prof_enabled (ob_profiling c) then profiling_defaults (ob_profiling c) else ob_profiling c)\<rparr>"

definition observability_validate :: "observability_config \<Rightarrow> go_error option" where
  [cfg_defs]: "observability_validate c =
     failing (float_less_0 (ob_sample_ratio c) \<or> float_greater_1 (ob_sample_ratio c))
       (''tracing sample-ratio must be between 0 and 1, got '' @ float_text (ob_sample_ratio c))"

lemma profiling_defaults_idem: "profiling_defaults (profiling_defaults c) = profiling_defaults c"
  by (cases "if_nil False (prof_mutex c) = Some True"; cases "if_nil False (prof_block c) = Some True")
    (simp_all add: profiling_defaults_def Let_def)

lemma profiling_defaults_enabled [simp]: "prof_enabled (profiling_defaults c) = prof_enabled c"
  by (simp add: profiling_defaults_def Let_def)

interpretation observability_cfg: configurable observability_apply_defaults "validating observability_validate"
  by (rule configurable_checked) (simp add: observability_apply_defaults_def profiling_defaults_idem)

subsection \<open>Logger\<close>

text \<open>
  \<^verbatim>\<open>Validate\<close> stores the parsed level; \<open>parse\<close> is \<^verbatim>\<open>zapcore.ParseLevel\<close> and a level is a number.
\<close>

record logger_config =
  lg_level :: string
  lg_development :: bool
  lg_parsed :: int

definition logger_apply_defaults :: "logger_config \<Rightarrow> logger_config" where
  [cfg_defs]: "logger_apply_defaults c = c\<lparr>lg_level := if_empty ''info'' (lg_level c)\<rparr>"

definition logger_validate ::
  "(string \<Rightarrow> (go_error, int) result) \<Rightarrow> logger_config \<Rightarrow> (go_error, logger_config) result" where
  [cfg_defs]: "logger_validate parse c =
     (case parse (lg_level c) of
        Inl e \<Rightarrow> Inl (Wrapf (''invalid log level '' @ [CHR 0x27] @ lg_level c @ [CHR 0x27] @ '': '') e [])
      | Inr l \<Rightarrow> Inr (c\<lparr>lg_parsed := l\<rparr>))"

interpretation logger_cfg: configurable logger_apply_defaults "logger_validate parse" for parse
proof (unfold_locales, goal_cases)
  case (2 c c')
  then show ?case
    by (cases c) (auto simp: logger_apply_defaults_def logger_validate_def split: sum.splits)
qed (auto simp: cfg_defs split: sum.splits)

subsection \<open>HTTP client\<close>

abbreviation DefaultTimeout :: duration where "DefaultTimeout \<equiv> 10 * second"
abbreviation DefaultMaxIdleConnsPerHost :: int where "DefaultMaxIdleConnsPerHost \<equiv> 100"
abbreviation DefaultIdleConnTimeout :: duration where "DefaultIdleConnTimeout \<equiv> 90 * second"
abbreviation DefaultMaxConnLifetime :: duration where "DefaultMaxConnLifetime \<equiv> 60 * second"

text \<open>A nil pointer is \<open>None\<close>; a duration set to 0 disables, it is not replaced.\<close>

record http_client_config =
  hc_base_url :: string
  hc_timeout :: "duration option"
  hc_max_idle_per_host :: "int option"
  hc_idle_timeout :: "duration option"
  hc_max_conn_lifetime :: "duration option"

definition http_client_apply_defaults :: "http_client_config \<Rightarrow> http_client_config" where
  [cfg_defs]: "http_client_apply_defaults c = c\<lparr>
     hc_timeout := if_nil DefaultTimeout (hc_timeout c),
     hc_max_idle_per_host := if_nil DefaultMaxIdleConnsPerHost (hc_max_idle_per_host c),
     hc_idle_timeout := if_nil DefaultIdleConnTimeout (hc_idle_timeout c),
     hc_max_conn_lifetime := if_nil DefaultMaxConnLifetime (hc_max_conn_lifetime c)\<rparr>"

definition http_client_validate :: "http_client_config \<Rightarrow> go_error option" where
  [cfg_defs]: "http_client_validate c = failing (hc_base_url c = []) ''base-url is required''"

interpretation http_client_cfg: configurable http_client_apply_defaults "validating http_client_validate"
  by (rule configurable_checked) (simp add: cfg_defs)

subsection \<open>Properties\<close>

lemma jwks_loaded_complete:
  assumes "load_config jwks_apply_defaults (validating jwks_validate) z k key ov = Inr c"
  shows "jc_enabled c = Some True \<and> jc_jwks_url c \<noteq> [] \<and> jc_issuer c \<noteq> [] \<and> jc_audience c \<noteq> []
    \<or> jc_enabled c = Some False"
proof -
  note complete = jwks_cfg.loaded_complete [OF assms]
  have "jc_enabled c \<noteq> None"
    by (subst complete(1) [symmetric]) (simp add: jwks_apply_defaults_def)
  with complete(2) show ?thesis by (auto simp: jwks_validate_def)
qed

lemma token_loaded_complete:
  assumes "load_config token_apply_defaults (validating token_validate) z k key ov = Inr c"
  shows "tc_enabled c = Some True \<and> tc_client_id c \<noteq> [] \<and> tc_client_secret c \<noteq> [] \<and> tc_token_url c \<noteq> []
      \<and> tc_scopes c \<noteq> []
    \<or> tc_enabled c = Some False"
proof -
  note complete = token_cfg.loaded_complete [OF assms]
  have "tc_enabled c \<noteq> None" "tc_scopes c \<noteq> []"
    by (subst complete(1) [symmetric], simp add: token_apply_defaults_def Let_def)+
  with complete(2) show ?thesis by (auto simp: token_validate_def)
qed

text \<open>
  Security cannot be half configured: a loaded JWKS configuration is either switched off or
  complete, and it is switched off only if that was asked for or nothing at all was configured;
  the same holds for the client credentials, for which \<^verbatim>\<open>provideTokenSource\<close> then never fails
  and yields a source exactly when they are enabled.
\<close>

theorem security_configs_all_or_nothing:
  assumes "load_config jwks_apply_defaults (validating jwks_validate) z k key (Some c0) = Inr c"
    and "load_config token_apply_defaults (validating token_validate) z' k' key' ov = Inr t"
  shows "(jc_enabled c = Some True \<longrightarrow> jc_jwks_url c \<noteq> [] \<and> jc_issuer c \<noteq> [] \<and> jc_audience c \<noteq> [])
    \<and> (jc_enabled c \<noteq> Some True \<longrightarrow> jc_enabled c = Some False \<and>
         (jc_enabled c0 = Some False \<or> jc_jwks_url c0 = [] \<and> jc_issuer c0 = [] \<and> jc_audience c0 = []))
    \<and> (\<exists>src. provide_token_source t = Inr src \<and> (src \<noteq> None \<longleftrightarrow> tc_enabled t = Some True))"
proof -
  have c: "c = jwks_apply_defaults c0"
    using assms(1) by (auto simp: load_config_override validating_def split: option.splits)
  have "jc_enabled c \<noteq> Some True \<longrightarrow> jc_enabled c = Some False \<and>
      (jc_enabled c0 = Some False \<or> jc_jwks_url c0 = [] \<and> jc_issuer c0 = [] \<and> jc_audience c0 = [])"
    unfolding c jwks_apply_defaults_def by auto
  moreover have "\<exists>src. provide_token_source t = Inr src \<and> (src \<noteq> None \<longleftrightarrow> tc_enabled t = Some True)"
    using token_loaded_complete [OF assms(2)]
    by (auto simp: provide_token_source_def new_token_source_def)
  ultimately show ?thesis using jwks_loaded_complete [OF assms(1)] by auto
qed

definition demo_jwks :: jwks_config where
  "demo_jwks = \<lparr>jc_enabled = None, jc_jwks_url = ''u'', jc_issuer = ''i'', jc_audience = ''a''\<rparr>"

definition demo_token :: token_config where
  "demo_token = \<lparr>tc_enabled = None, tc_client_id = ''id'', tc_client_secret = ''s'', tc_token_url = ''u'',
     tc_resource = [], tc_scopes = []\<rparr>"

theorem security_configs_all_or_nothing_witness:
  "\<exists>src. provide_token_source (token_apply_defaults demo_token) = Inr (Some src)"
proof -
  have j: "load_config jwks_apply_defaults (validating jwks_validate) demo_jwks
      \<lparr>exists_key = \<lambda>_. False, unmarshal = \<lambda>_. Inr\<rparr> ''security.jwks'' (Some demo_jwks)
      = Inr (jwks_apply_defaults demo_jwks)"
    by (rule load_valid) (simp add: cfg_defs demo_jwks_def)
  have t: "load_config token_apply_defaults (validating token_validate) demo_token
      \<lparr>exists_key = \<lambda>_. False, unmarshal = \<lambda>_. Inr\<rparr> ''security.client-credentials'' (Some demo_token)
      = Inr (token_apply_defaults demo_token)"
    by (rule load_valid) (simp add: cfg_defs demo_token_def Let_def)
  show ?thesis
    using security_configs_all_or_nothing [OF j t] by (auto simp: token_apply_defaults_def demo_token_def Let_def)
qed

text \<open>
  The sampling ratio of a loaded observability configuration is never zero and is either between
  0 and 1 or not a number: the range check lets \<^verbatim>\<open>NaN\<close> pass.
\<close>

theorem sample_ratio_range:
  assumes "load_config observability_apply_defaults (validating observability_validate) z k key ov = Inr c"
  shows "(ob_sample_ratio c = Not_a_number \<or>
           (\<exists>m e. ob_sample_ratio c = Dyadic m e \<and> 0 < m \<and> m \<le> 2 ^ e))
    \<and> (\<forall>c0. ob_sample_ratio c0 = Not_a_number \<longrightarrow>
         (\<exists>c'. load_config observability_apply_defaults (validating observability_validate) z k key (Some c0) = Inr c'
            \<and> ob_sample_ratio c' = Not_a_number))"
proof
  note complete = observability_cfg.loaded_complete [OF assms]
  have nz: "\<not> float_is_0 (ob_sample_ratio c)"
    by (subst complete(1) [symmetric]) (simp add: observability_apply_defaults_def)
  with complete(2) show "ob_sample_ratio c = Not_a_number \<or>
      (\<exists>m e. ob_sample_ratio c = Dyadic m e \<and> 0 < m \<and> m \<le> 2 ^ e)"
    by (cases "ob_sample_ratio c") (auto simp: observability_validate_def)
  show "\<forall>c0. ob_sample_ratio c0 = Not_a_number \<longrightarrow>
      (\<exists>c'. load_config observability_apply_defaults (validating observability_validate) z k key (Some c0) = Inr c'
          \<and> ob_sample_ratio c' = Not_a_number)"
  proof (intro allI impI exI conjI)
    fix c0 :: observability_config assume "ob_sample_ratio c0 = Not_a_number"
    then show "ob_sample_ratio (observability_apply_defaults c0) = Not_a_number"
      by (simp add: observability_apply_defaults_def)
    then show "load_config observability_apply_defaults (validating observability_validate) z k key (Some c0)
        = Inr (observability_apply_defaults c0)"
      by (intro load_valid) (simp add: observability_validate_def)
  qed
qed

definition demo_observability :: observability_config where
  "demo_observability = \<lparr>ob_endpoint = [], ob_tracing_enabled = True, ob_sample_ratio = Dyadic 1 1,
     ob_metrics_enabled = False, ob_metrics_interval = 0,
     ob_profiling = \<lparr>prof_enabled = False, prof_endpoint = [], prof_cpu = None, prof_heap = None,
       prof_goroutines = None, prof_mutex = None, prof_block = None, prof_mutex_fraction = 0,
       prof_block_rate = 0\<rparr>\<rparr>"

theorem sample_ratio_range_witness:
  "\<exists>m e. ob_sample_ratio (observability_apply_defaults demo_observability) = Dyadic m e \<and> 0 < m \<and> m \<le> 2 ^ e"
proof -
  have "load_config observability_apply_defaults (validating observability_validate) demo_observability
      \<lparr>exists_key = \<lambda>_. False, unmarshal = \<lambda>_. Inr\<rparr> ''observability'' (Some demo_observability)
      = Inr (observability_apply_defaults demo_observability)"
    by (rule load_valid) (simp add: observability_validate_def observability_apply_defaults_def demo_observability_def)
  from sample_ratio_range [OF this] show ?thesis
    by (simp add: observability_apply_defaults_def demo_observability_def)
qed

end
