(* ===== verification/Rpc_Security.thy ===== *)
theory Rpc_Security
  imports Interceptors Service_Configs
begin

section \<open>Authentication and tenant isolation of RPCs\<close>

text \<open>
  \<^verbatim>\<open>security/validation/validator.go\<close> and \<^verbatim>\<open>interceptor.go\<close>, \<^verbatim>\<open>tenant/interceptor.go\<close>, the providers of
  the interceptor entries in the modules' \<^verbatim>\<open>fxconfig\<close>, and the chain a service runs.
\<close>

subsection \<open>Token validation\<close>

text \<open>
  \<^verbatim>\<open>jwtClaims\<close>: of the registered claims those that are used, an absent expiration is \<open>None\<close> (else in seconds), and the custom ones.
\<close>

record jwt_claims =
  jwt_subject :: string
  jwt_issuer :: string
  jwt_audience :: "string list"
  jwt_expires :: "int option"
  jwt_role :: string
  jwt_tenant :: string
  jwt_scope :: string

record 'k jwt_validator =
  jv_jwks :: 'k
  jv_issuer :: string
  jv_audience :: string

text \<open>The options of a parser.\<close>

record parser_options =
  po_valid_methods :: "string list"
  po_expiration_required :: bool
  po_issuer :: string
  po_audience :: "string list"

definition parser_opts :: "'k jwt_validator \<Rightarrow> parser_options" where
  "parser_opts v = \<lparr>po_valid_methods = [''RS256'', ''ES256'', ''ES384''], po_expiration_required = True,
     po_issuer = jv_issuer v, po_audience = [jv_audience v]\<rparr>"

text \<open>
  \<^verbatim>\<open>jwt.ParseWithClaims\<close> with options and a set of keys: an error, or whether the
  token is valid and its claims, if they are of the expected type.
\<close>

type_synonym 'k jwt_parser = "parser_options \<Rightarrow> 'k \<Rightarrow> string \<Rightarrow> (go_error, bool \<times> jwt_claims option) result"

definition oidc_scopes :: "string list" where
  "oidc_scopes = [''openid'', ''profile'', ''email'', ''offline_access'', ''all'']"

definition parse_scopes :: "string \<Rightarrow> string list" where
  "parse_scopes scope =
     (if scope = [] then []
      else filter (\<lambda>s. s \<noteq> [] \<and> s \<notin> set oidc_scopes) (split_char (CHR '' '') scope))"

definition validate_token :: "'k jwt_parser \<Rightarrow> 'k jwt_validator \<Rightarrow> string \<Rightarrow> (go_error, claims) result" where
  "validate_token parse v tokenString =
     (case parse (parser_opts v) (jv_jwks v) tokenString of
        Inl e \<Rightarrow> Inl (New_error ''invalid token'')
      | Inr (valid, c) \<Rightarrow>
          if \<not> valid then Inl (New_error ''invalid token'')
          else (case c of
                  None \<Rightarrow> Inl (New_error ''invalid token claims'')
                | Some c \<Rightarrow>
                    if jwt_subject c = [] then Inl (New_error ''invalid token claims'')
                    else Inr \<lparr>claim_tenant = jwt_tenant c, claim_role = jwt_role c,
                           claim_permissions = parse_scopes (jwt_scope c)\<rparr>))"

text \<open>
  \<^verbatim>\<open>NewTokenValidator\<close>, with \<^verbatim>\<open>keyfunc.NewDefault\<close> as \<open>new_keyfunc\<close>, and its provider, nil when authentication is
  disabled.
\<close>

definition new_token_validator :: "(string list \<Rightarrow> (go_error, 'k) result) \<Rightarrow> jwks_config \<Rightarrow> (go_error, 'k jwt_validator) result" where
  "new_token_validator new_keyfunc config =
     (case new_keyfunc [jc_jwks_url config] of
        Inl e \<Rightarrow> Inl (New_error ''invalid public key'')
      | Inr jwks \<Rightarrow> Inr \<lparr>jv_jwks = jwks, jv_issuer = jc_issuer config, jv_audience = jc_audience config\<rparr>)"

definition provide_token_validator ::
  "(string list \<Rightarrow> (go_error, 'k) result) \<Rightarrow> jwks_config \<Rightarrow> (go_error, 'k jwt_validator option) result" where
  "provide_token_validator new_keyfunc cfg =
     (if jc_enabled cfg = Some False then Inr None
      else (case new_token_validator new_keyfunc cfg of Inl e \<Rightarrow> Inl e | Inr v \<Rightarrow> Inr (Some v)))"

subsection \<open>The authentication interceptor\<close>

text \<open>
  \<^verbatim>\<open>ProcedurePermissions\<close>: a nil slice (\<open>None\<close>) marks a public procedure. A validator is a function;
  a \<^verbatim>\<open>%v\<close> of a slice of strings is written with brackets and spaces.
\<close>

type_synonym procedure_permissions = "(string, string list option) go_map"
type_synonym token_validator = "string \<Rightarrow> (go_error, claims) result"

definition slice_text :: "string list \<Rightarrow> string" where
  "slice_text xs = ''['' @ join_with '' '' xs @ '']''"

definition auth_interceptor :: "token_validator \<Rightarrow> procedure_permissions \<Rightarrow> ('b, 'r, 's) rpc_interceptor" where
  "auth_interceptor validate procedurePermissions next_h ctx req s =
     (case map_of procedurePermissions (rq_procedure req) of
        None \<Rightarrow> rpc_fail CodePermissionDenied (New_error (''procedure not registered: '' @ rq_procedure req)) s
      | Some None \<Rightarrow> next_h ctx req s
      | Some (Some perms) \<Rightarrow>
          (let auth = rq_header req ''Authorization'';
               token = trim_prefix auth ''Bearer ''
           in if token = [] then rpc_fail CodeUnauthenticated (New_error ''missing bearer token'') s
              else (case validate token of
                      Inl e \<Rightarrow> rpc_fail CodeUnauthenticated (Wrapf ''invalid token: '' e []) s
                    | Inr c \<Rightarrow>
                        if \<not> has_any_permission c perms
                        then rpc_fail CodePermissionDenied (New_error (''missing required permissions: '' @ slice_text perms)) s
                        else next_h (context_with_claims ctx (Some c)) req s)))"

subsection \<open>The tenant interceptors\<close>

definition tenant_slug_header :: string where
  "tenant_slug_header = ''X-Tenant-Slug''"

definition resolver_interceptor :: "logger option \<Rightarrow> ('b, 'r, 's) rpc_interceptor" where
  "resolver_interceptor dflt next_h ctx req s =
     (let slug = rq_header req tenant_slug_header
      in if slug = [] then rpc_fail CodeInvalidArgument (New_error ''tenant not found in request header'') s
         else (let ctx = context_with_slug ctx slug;
                   reqLog = map_option (\<lambda>l. l @ [(''tenant'', slug)]) (logger_get dflt (Some ctx));
                   ctx = logger_with (Some ctx) reqLog
               in next_h ctx req s))"

definition tenant_validator_interceptor :: "('b, 'r, 's) rpc_interceptor" where
  "tenant_validator_interceptor next_h ctx req s =
     (case claims_from_context ctx of
        None \<Rightarrow> next_h ctx req s
      | Some c \<Rightarrow>
          (case must_slug_from_context ctx of
             Inl p \<Rightarrow> (Inl p, s)
           | Inr slug \<Rightarrow>
               if is_tenant_scoped c \<and> claim_tenant c \<noteq> slug then
                 rpc_fail CodePermissionDenied (New_error (''token tenant '' @ quoted (claim_tenant c)
                   @ '' does not match request tenant '' @ quoted slug)) s
               else if \<not> is_tenant_scoped c \<and> \<not> can_access_any_tenant c then
                 rpc_fail CodePermissionDenied (New_error ''token is not authorized for cross-tenant access'') s
               else next_h ctx req s))"

subsection \<open>The entries of the chain\<close>

text \<open>
  The providers: an empty entry when the feature is off. \<open>lim\<close>, \<open>sem\<close> and \<open>err_after\<close> build the library
  objects from the configured numbers.
\<close>

definition provide_bulkhead_interceptor where
  "provide_bulkhead_interceptor sem cfg =
     (if \<not> bh_enabled (sv_bulkhead cfg) then no_entry
      else entry 50 (bulkhead_interceptor sem (bh_max_concurrent (sv_bulkhead cfg)) (bh_timeout (sv_bulkhead cfg))))"

definition provide_rate_limit_interceptor where
  "provide_rate_limit_interceptor lim cfg =
     (if \<not> rl_enabled (sv_rate_limit cfg) then no_entry
      else entry 40 (rate_limit_interceptor
             (lim (rl_requests_per_second (sv_rate_limit cfg)) (rl_burst (sv_rate_limit cfg)))))"

definition provide_timeout_interceptor where
  "provide_timeout_interceptor err_after cfg =
     (if request_timeout cfg \<le> 0 then no_entry
      else entry 30 (timeout_interceptor (err_after (request_timeout cfg))))"

text \<open>\<open>created\<close> is what \<^verbatim>\<open>protovalidate.New\<close> returns.\<close>

definition provide_validation_interceptor ::
  "('b \<Rightarrow> 'p option) \<Rightarrow> (go_error, 'p \<Rightarrow> go_error option) result \<Rightarrow> (go_error, ('b, 'r, 's) rpc_interceptor chain_entry) result" where
  "provide_validation_interceptor as_proto created =
     (case created of Inl err \<Rightarrow> Inl err | Inr validator \<Rightarrow> Inr (entry 25 (validation_interceptor as_proto validator)))"

text \<open>The priorities the security and tenant modules choose.\<close>

abbreviation AuthInterceptorPriority :: int where "AuthInterceptorPriority \<equiv> 22"
abbreviation ResolverInterceptorPriority :: int where "ResolverInterceptorPriority \<equiv> 18"
abbreviation ValidatorInterceptorPriority :: int where "ValidatorInterceptorPriority \<equiv> 26"

definition provide_auth_interceptor ::
  "jwks_config \<Rightarrow> token_validator \<Rightarrow> procedure_permissions \<Rightarrow> ('b, 'r, 's) rpc_interceptor chain_entry" where
  "provide_auth_interceptor cfg validate perms =
     (if jc_enabled cfg = Some False then no_entry else entry AuthInterceptorPriority (auth_interceptor validate perms))"

definition provide_resolver_interceptor :: "bool \<Rightarrow> logger option \<Rightarrow> ('b, 'r, 's) rpc_interceptor chain_entry" where
  "provide_resolver_interceptor enabled dflt =
     (if \<not> enabled then no_entry else entry ResolverInterceptorPriority (resolver_interceptor dflt))"

definition provide_validator_interceptor :: "bool \<Rightarrow> ('b, 'r, 's) rpc_interceptor chain_entry" where
  "provide_validator_interceptor enabled =
     (if \<not> enabled then no_entry else entry ValidatorInterceptorPriority tenant_validator_interceptor)"

text \<open>The interceptor that authenticates is there exactly when the validator it calls is.\<close>

lemma auth_interceptor_has_validator:
  "provide_token_validator new_keyfunc cfg = Inr v \<Longrightarrow>
     (ce_handler (provide_auth_interceptor cfg validate perms) = None \<longleftrightarrow> v = None)"
  by (auto simp: provide_token_validator_def provide_auth_interceptor_def no_entry_def entry_def split: sum.splits if_splits)

text \<open>The entry the observability module supplies.\<close>

definition trace_context_entry :: "logger option \<Rightarrow> ('b, 'r, 's) rpc_interceptor chain_entry" where
  [simp]: "trace_context_entry dflt = entry 15 (trace_context_interceptor dflt)"

text \<open>
  The group of a service with all modules. \<open>lib\<close> holds the library parts.
\<close>

record ('b, 'r, 's) rpc_lib =
  lib_logger :: "logger option"
  lib_log_rpc :: "logger option \<Rightarrow> string \<Rightarrow> string \<Rightarrow> connect_code option \<Rightarrow> go_error option \<Rightarrow> 's \<Rightarrow> 's"
  lib_validate :: "'b \<Rightarrow> go_error option"
  lib_err_after :: "duration \<Rightarrow> 's \<Rightarrow> 's \<Rightarrow> go_error option"
  lib_limiter :: "int \<Rightarrow> int \<Rightarrow> 's \<Rightarrow> bool \<times> 's"
  lib_semaphore :: "int \<Rightarrow> 's semaphore"
  lib_filter_map :: "(('b, 'r, 's) rpc_interceptor chain_entry \<Rightarrow> ('b, 'r, 's) rpc_interceptor option)
    \<Rightarrow> ('b, 'r, 's) rpc_interceptor chain_entry list \<Rightarrow> ('b, 'r, 's) rpc_interceptor list"

definition service_entries ::
  "('b, 'r, 's) rpc_lib \<Rightarrow> server_config \<Rightarrow> bool \<Rightarrow> jwks_config \<Rightarrow> token_validator \<Rightarrow> procedure_permissions
   \<Rightarrow> ('b, 'r, 's) rpc_interceptor chain_entry list" where
  "service_entries lib cfg multi_tenant jwks validate perms =
     [entry 10 recovery_interceptor,
      trace_context_entry (lib_logger lib),
      entry 20 (logger_interceptor (lib_log_rpc lib) (lib_logger lib)),
      entry 25 (validation_interceptor Some (lib_validate lib)),
      provide_timeout_interceptor (lib_err_after lib) cfg,
      provide_rate_limit_interceptor (lib_limiter lib) cfg,
      provide_bulkhead_interceptor (lib_semaphore lib) cfg,
      provide_resolver_interceptor multi_tenant (lib_logger lib),
      provide_validator_interceptor multi_tenant,
      provide_auth_interceptor jwks validate perms]"

lemmas provide_defs = provide_bulkhead_interceptor_def provide_rate_limit_interceptor_def
  provide_timeout_interceptor_def provide_auth_interceptor_def provide_resolver_interceptor_def
  provide_validator_interceptor_def

text \<open>The same entries in the order they run, and the interceptors of those that are on.\<close>

definition ordered_entries ::
  "('b, 'r, 's) rpc_lib \<Rightarrow> server_config \<Rightarrow> bool \<Rightarrow> jwks_config \<Rightarrow> token_validator \<Rightarrow> procedure_permissions
   \<Rightarrow> ('b, 'r, 's) rpc_interceptor chain_entry list" where
  "ordered_entries lib cfg multi_tenant jwks validate perms =
      [entry 10 recovery_interceptor,
       trace_context_entry (lib_logger lib),
       provide_resolver_interceptor multi_tenant (lib_logger lib),
       entry 20 (logger_interceptor (lib_log_rpc lib) (lib_logger lib)),
       provide_auth_interceptor jwks validate perms,
       entry 25 (validation_interceptor Some (lib_validate lib)),
       provide_validator_interceptor multi_tenant,
       provide_timeout_interceptor (lib_err_after lib) cfg,
       provide_rate_limit_interceptor (lib_limiter lib) cfg,
       provide_bulkhead_interceptor (lib_semaphore lib) cfg]"

definition service_chain ::
  "('b, 'r, 's) rpc_lib \<Rightarrow> server_config \<Rightarrow> bool \<Rightarrow> jwks_config \<Rightarrow> token_validator \<Rightarrow> procedure_permissions
   \<Rightarrow> ('b, 'r, 's) rpc_interceptor list" where
  "service_chain lib cfg multi_tenant jwks validate perms =
     List.map_filter ce_handler (ordered_entries lib cfg multi_tenant jwks validate perms)"

lemma map_filter_entries [simp]:
  "List.map_filter ce_handler [] = []"
  "List.map_filter ce_handler (e # es) =
     (case ce_handler e of None \<Rightarrow> List.map_filter ce_handler es | Some i \<Rightarrow> i # List.map_filter ce_handler es)"
  by (simp_all add: map_filter_simps)

lemma entry_simps [simp]:
  "ce_handler (entry p i) = Some i" "ce_priority (entry p i) = p"
  "ce_handler no_entry = None" "ce_priority no_entry = 0"
  by (simp_all add: entry_def no_entry_def)

subsection \<open>What the chain guards\<close>

text \<open>The trace identifiers only go into the logger.\<close>

lemma guards_trace_context:
  "guards req (\<lambda>ctx. ctx_claims ctx = None) (trace_context_interceptor dflt) (\<lambda>ctx. ctx_claims ctx = None)"
  unfolding guards_def trace_context_interceptor_def
  by (auto simp: Let_def logger_with_def split: prod.splits option.splits)

lemma guards_resolver:
  "slug = rq_header req tenant_slug_header \<Longrightarrow>
   guards req (\<lambda>ctx. ctx_claims ctx = None) (resolver_interceptor dflt)
     (\<lambda>ctx. ctx_claims ctx = None \<and> slug_from_context ctx = Some slug)"
  unfolding guards_def resolver_interceptor_def Let_def
  by (auto simp: context_with_slug_def slug_from_context_def)

text \<open>
  A public procedure, and what the authentication establishes for a request of any other: claims the validator returned for the
  request's token, with one of the procedure's permissions if it has any.
\<close>

definition public_procedure :: "procedure_permissions \<Rightarrow> 'b rpc_request \<Rightarrow> bool" where
  "public_procedure perms req \<longleftrightarrow> map_of perms (rq_procedure req) = Some None"

definition authenticated ::
  "token_validator \<Rightarrow> procedure_permissions \<Rightarrow> 'b rpc_request \<Rightarrow> go_ctx \<Rightarrow> bool" where
  "authenticated validate perms req ctx \<longleftrightarrow>
     (\<exists>required token c. map_of perms (rq_procedure req) = Some (Some required)
        \<and> (rq_header req ''Authorization'' = ''Bearer '' @ token \<or> rq_header req ''Authorization'' = token) \<and> token \<noteq> []
        \<and> validate token = Inr c \<and> ctx_claims ctx = Some c
        \<and> (required \<noteq> [] \<longrightarrow> set required \<inter> set (claim_permissions c) \<noteq> {}))"

lemma trim_prefix_cases: "s = p @ trim_prefix s p \<or> s = trim_prefix s p"
  using trim_prefix_append [of p] trim_prefix_none [of s p] by metis

lemma guards_auth:
  "guards req (\<lambda>ctx. ctx_claims ctx = None \<and> slug_from_context ctx = Some slug) (auth_interceptor validate perms)
     (\<lambda>ctx. (public_procedure perms req \<and> ctx_claims ctx = None \<or> authenticated validate perms req ctx)
        \<and> slug_from_context ctx = Some slug)"
proof (cases "map_of perms (rq_procedure req)")
  case None
  then show ?thesis by (simp add: guards_def auth_interceptor_def)
next
  case (Some p)
  show ?thesis
  proof (cases p)
    case None
    with Some show ?thesis by (simp add: guards_def auth_interceptor_def public_procedure_def)
  next
    case (Some required)
    let ?token = "trim_prefix (rq_header req ''Authorization'') ''Bearer ''"
    have "authenticated validate perms req (context_with_claims ctx (Some c))"
      if "?token \<noteq> []" "validate ?token = Inr c" "has_any_permission c required" for c ctx
      unfolding authenticated_def
      using that Some \<open>map_of perms (rq_procedure req) = Some p\<close> trim_prefix_cases [of "rq_header req ''Authorization''" "''Bearer ''"]
      by (intro exI [of _ required] exI [of _ ?token] exI [of _ c]) (auto simp: has_any_permission_iff)
    then show ?thesis
      using Some \<open>map_of perms (rq_procedure req) = Some p\<close>
      unfolding guards_def auth_interceptor_def by (auto simp: Let_def split: sum.splits)
  qed
qed

definition tenant_allowed :: "go_ctx \<Rightarrow> string \<Rightarrow> bool" where
  "tenant_allowed ctx slug \<longleftrightarrow>
     (case ctx_claims ctx of
        None \<Rightarrow> True
      | Some c \<Rightarrow> claim_tenant c = slug \<or> claim_tenant c = [] \<and> cross_tenant_scope \<in> set (claim_permissions c))"

lemma guards_tenant_validator:
  "guards req (\<lambda>ctx. A ctx \<and> slug_from_context ctx = Some slug) tenant_validator_interceptor
     (\<lambda>ctx. A ctx \<and> slug_from_context ctx = Some slug \<and> tenant_allowed ctx slug)"
  unfolding guards_def tenant_validator_interceptor_def tenant_allowed_def claims_from_context_def
    must_slug_from_context_def is_tenant_scoped_def can_access_any_tenant_def
  by (auto split: option.splits)

subsection \<open>Properties\<close>

text \<open>
  C23. The interceptors that are on run in the documented order, whatever order the group lists them
  in and whatever the unstable sort does with the entries that are off: recovery, the trace
  identifiers of the logger, tenant resolution, logging, authentication, message validation, tenant validation, timeout, rate
  limit, bulkhead.
\<close>

theorem service_chain_order:
  assumes "lib_filter_map lib = List.map_filter"
    and "mset es = mset (service_entries lib cfg multi_tenant jwks validate perms)"
  shows "provide_interceptor_chain (lib_filter_map lib) es = service_chain lib cfg multi_tenant jwks validate perms
    \<and> hd (service_chain lib cfg multi_tenant jwks validate perms) = recovery_interceptor"
proof -
  let ?on = "\<lambda>e. ce_handler e \<noteq> None"
  let ?sorted = "ordered_entries lib cfg multi_tenant jwks validate perms"
  have perm: "mset (filter ?on ?sorted) = mset (filter ?on es)"
    unfolding mset_filter assms(2) by (simp add: service_entries_def ordered_entries_def)
  have sorted: "sorted (map ce_priority (filter ?on ?sorted))"
    by (simp add: provide_defs ordered_entries_def split: prod.split)
  have "distinct (map ce_priority (filter ?on ?sorted))"
    by (simp add: provide_defs ordered_entries_def split: prod.split)
  moreover have "mset (map ce_priority (filter ?on ?sorted)) = mset (map ce_priority (filter ?on es))"
    unfolding mset_map by (rule arg_cong [OF perm])
  ultimately have "distinct (map ce_priority (filter ?on es))"
    by (metis mset_eq_imp_distinct_iff)
  from chain_any_sort [OF perm sorted this]
  have "provide_interceptor_chain (lib_filter_map lib) es = service_chain lib cfg multi_tenant jwks validate perms"
    using assms(1) by (simp only: service_chain_def)
  then show ?thesis by (simp add: service_chain_def ordered_entries_def)
qed

definition demo_lib :: "(unit, nat, nat) rpc_lib" where
  "demo_lib = \<lparr>lib_logger = Some [], lib_log_rpc = (\<lambda>_ _ _ _ _ s. s), lib_validate = (\<lambda>_. None),
     lib_err_after = (\<lambda>_ _ _. None), lib_limiter = (\<lambda>_ _ s. (True, s)),
     lib_semaphore = (\<lambda>_. (\<lambda>_ _ s. (None, s), id)), lib_filter_map = List.map_filter\<rparr>"

theorem service_chain_order_witness:
  "provide_interceptor_chain List.map_filter (rev (service_entries demo_lib server_zero True demo_jwks (\<lambda>_. Inl (New_error [])) []))
     = service_chain demo_lib server_zero True demo_jwks (\<lambda>_. Inl (New_error [])) []"
proof -
  have "lib_filter_map demo_lib = List.map_filter" by (simp add: demo_lib_def)
  from service_chain_order [OF this, of "rev (service_entries demo_lib server_zero True demo_jwks (\<lambda>_. Inl (New_error [])) [])"]
    this show ?thesis by simp
qed

lemma guards_all_keep: "(\<And>i. i \<in> set is \<Longrightarrow> guards req P i P) \<Longrightarrow> guards req P (wrap_chain is) P"
  by (induction "is") (auto intro: guards_Nil guards_Cons)

lemma guards_append: "guards req P (wrap_chain is) Q \<Longrightarrow> guards req Q (wrap_chain js) R \<Longrightarrow> guards req P (wrap_chain (is @ js)) R"
  unfolding guards_def wrap_chain_append by blast

text \<open>
  C4. Tenant isolation of a service with authentication and multi-tenancy on: for a request that
  enters without claims, its handler runs only in contexts whose tenant is the non-empty tenant
  header, and only in one of two cases. Either the procedure is registered as public, and then the context has no claims
  and whoever calls may name any tenant; or the context has the claims the validator returned for the request's token, with one of the
  procedure's permissions if it has any, and these claims belong to that tenant
  or are cross-tenant. Two handlers that agree on such contexts cannot be told apart; and in such
  a context a tenant-scoped token reaches only the database of its own tenant.
\<close>

theorem rpc_tenant_isolation:
  fixes lib :: "('b, 'r, 's) rpc_lib" and h h' :: "('b, 'r, 's) rpc_handler"
  assumes fresh: "ctx_claims ctx = None" and on: "jc_enabled jwks \<noteq> Some False"
    and slug: "slug = rq_header req tenant_slug_header"
    and agree: "\<And>c s. public_procedure perms req \<and> ctx_claims c = None \<or> authenticated validate perms req c \<Longrightarrow>
      slug_from_context c = Some slug \<Longrightarrow> tenant_allowed c slug \<Longrightarrow> h c req s = h' c req s"
  shows "wrap_chain (service_chain lib cfg True jwks validate perms) h ctx req s
       = wrap_chain (service_chain lib cfg True jwks validate perms) h' ctx req s
    \<and> (\<forall>c cl. slug_from_context c = Some slug \<longrightarrow> tenant_allowed c slug \<longrightarrow> ctx_claims c = Some cl \<longrightarrow>
         is_tenant_scoped cl \<longrightarrow>
         multi_tenant_collection base coll c = Inr (tenant_database base (claim_tenant cl), coll))"
proof
  let ?P = "\<lambda>c. ctx_claims c = None"
  let ?Q = "\<lambda>c. ctx_claims c = None \<and> slug_from_context c = Some slug"
  let ?A = "\<lambda>c. public_procedure perms req \<and> ctx_claims c = None \<or> authenticated validate perms req c"
  let ?T = "\<lambda>c. ?A c \<and> slug_from_context c = Some slug \<and> tenant_allowed c slug"
  define rest :: "('b, 'r, 's) rpc_interceptor list" where "rest = List.map_filter ce_handler
    [provide_timeout_interceptor (lib_err_after lib) cfg, provide_rate_limit_interceptor (lib_limiter lib) cfg,
     provide_bulkhead_interceptor (lib_semaphore lib) cfg]"
  have chain: "service_chain lib cfg True jwks validate perms =
      [recovery_interceptor, trace_context_interceptor (lib_logger lib), resolver_interceptor (lib_logger lib), logger_interceptor (lib_log_rpc lib) (lib_logger lib),
       auth_interceptor validate perms, validation_interceptor Some (lib_validate lib), tenant_validator_interceptor] @ rest"
    using on by (simp add: service_chain_def ordered_entries_def rest_def provide_resolver_interceptor_def
        provide_validator_interceptor_def provide_auth_interceptor_def)
  have "guards req ?T i ?T" if "i \<in> set rest" for i
    using that guards_keep(4-6) [of req ?T]
    by (auto simp: rest_def provide_timeout_interceptor_def provide_rate_limit_interceptor_def
        provide_bulkhead_interceptor_def split: if_splits prod.splits)
  then have "guards req ?T (wrap_chain rest) ?T" by (rule guards_all_keep)
  then have "guards req ?P (wrap_chain (service_chain lib cfg True jwks validate perms)) ?T"
    unfolding chain append_Cons append_Nil
    by (intro guards_Cons [OF guards_keep(1)] guards_Cons [OF guards_trace_context] guards_Cons [OF guards_resolver [OF slug]] guards_Cons [OF guards_keep(2)]
        guards_Cons [OF guards_auth] guards_Cons [OF guards_keep(3)] guards_Cons [OF guards_tenant_validator])
  from guardsD [OF this] agree fresh
  show "wrap_chain (service_chain lib cfg True jwks validate perms) h ctx req s
       = wrap_chain (service_chain lib cfg True jwks validate perms) h' ctx req s" by blast
  show "\<forall>c cl. slug_from_context c = Some slug \<longrightarrow> tenant_allowed c slug \<longrightarrow> ctx_claims c = Some cl \<longrightarrow>
         is_tenant_scoped cl \<longrightarrow>
         multi_tenant_collection base coll c = Inr (tenant_database base (claim_tenant cl), coll)"
    by (auto simp: multi_tenant_collection_eq tenant_allowed_def is_tenant_scoped_def)
qed

definition acme_claims :: claims where
  "acme_claims = \<lparr>claim_tenant = ''acme'', claim_role = ''admin'', claim_permissions = [''items:read'']\<rparr>"

definition acme_request :: "unit rpc_request" where
  "acme_request = \<lparr>rq_procedure = ''p'', rq_header = (\<lambda>k. if k = ''X-Tenant-Slug'' then ''acme''
     else if k = ''Authorization'' then ''Bearer t'' else []), rq_peer = [], rq_message = ()\<rparr>"

definition acme_validator :: token_validator where
  "acme_validator t = (if t = ''t'' then Inr acme_claims else Inl (New_error ''invalid token''))"

definition only_acme :: "(unit, nat, nat) rpc_handler" where
  "only_acme ctx req s = (if slug_from_context ctx = Some ''acme'' then (Inr (Some 1, None), s + 1) else (Inl ''leak'', s))"

theorem rpc_tenant_isolation_witness:
  "wrap_chain (service_chain demo_lib server_zero True demo_jwks acme_validator [(''p'', Some [''items:read''])])
     only_acme ctx_background acme_request 0
   = wrap_chain (service_chain demo_lib server_zero True demo_jwks acme_validator [(''p'', Some [''items:read''])])
     (\<lambda>ctx req s. (Inr (Some 1, None), s + 1)) ctx_background acme_request 0"
proof -
  have fresh: "ctx_claims ctx_background = None" by (simp add: ctx_background_def)
  have on: "jc_enabled demo_jwks \<noteq> Some False" by (simp add: demo_jwks_def)
  have slug: "''acme'' = rq_header acme_request tenant_slug_header"
    by (simp add: acme_request_def tenant_slug_header_def)
  show ?thesis
    by (rule rpc_tenant_isolation [OF fresh on slug, THEN conjunct1]) (simp add: only_acme_def)
qed

text \<open>
  What the library documents: a token it reports valid is a JWT of one of the valid methods, signed by a key of the set; it expires
  later than now, and has an expiration if that is required; and its issuer and audience are the expected ones, where one is expected.
  \<open>signed keys alg t j\<close> means that \<open>t\<close> is a JWT with the claims \<open>j\<close> signed with the method \<open>alg\<close> by a key of \<open>keys\<close>.
\<close>

definition jwt_documented :: "('k \<Rightarrow> string \<Rightarrow> string \<Rightarrow> jwt_claims \<Rightarrow> bool) \<Rightarrow> int \<Rightarrow> 'k jwt_parser \<Rightarrow> bool" where
  "jwt_documented signed now parse \<longleftrightarrow> (\<forall>opts keys t j. parse opts keys t = Inr (True, Some j) \<longrightarrow>
     (\<exists>alg. signed keys alg t j \<and> (po_valid_methods opts \<noteq> [] \<longrightarrow> alg \<in> set (po_valid_methods opts)))
   \<and> (case jwt_expires j of None \<Rightarrow> \<not> po_expiration_required opts | Some e \<Rightarrow> now < e)
   \<and> (po_issuer opts \<noteq> [] \<longrightarrow> jwt_issuer j = po_issuer opts)
   \<and> (po_audience opts \<noteq> [] \<longrightarrow> set (po_audience opts) \<inter> set (jwt_audience j) \<noteq> {}))"

text \<open>
  C25. What the validator of a configuration that passes validation accepts: the token is a JWT signed with RS256, ES256 or ES384 by
  a key of the configured set, it has an expiration which has not passed, its issuer is the configured one, the configured audience is among its
  own, and it has a subject. Its claims give the token's tenant and role, and as permissions the
  words of its scope that are not OIDC scopes, in their order; they are non-empty, without spaces and never
  an OIDC scope, and access to any tenant needs an empty tenant and the cross-tenant scope.
\<close>

theorem validate_token_claims:
  assumes doc: "jwt_documented signed now parse"
    and cfg: "jwks_validate cfg = None" and v: "provide_token_validator new_keyfunc cfg = Inr (Some v)"
    and ok: "validate_token parse v t = Inr c"
  shows "\<exists>j alg e. new_keyfunc [jc_jwks_url cfg] = Inr (jv_jwks v) \<and> signed (jv_jwks v) alg t j
      \<and> alg \<in> {''RS256'', ''ES256'', ''ES384''} \<and> jwt_expires j = Some e \<and> now < e
      \<and> jwt_issuer j = jc_issuer cfg \<and> jc_issuer cfg \<noteq> [] \<and> jc_audience cfg \<in> set (jwt_audience j) \<and> jc_audience cfg \<noteq> []
      \<and> jwt_subject j \<noteq> [] \<and> claim_tenant c = jwt_tenant j \<and> claim_role c = jwt_role j
      \<and> claim_permissions c = filter (\<lambda>w. w \<noteq> [] \<and> w \<notin> {''openid'', ''profile'', ''email'', ''offline_access'', ''all''})
           (split_char (CHR '' '') (jwt_scope j))
      \<and> (\<forall>w \<in> set (claim_permissions c). w \<noteq> [] \<and> CHR '' '' \<notin> set w \<and> w \<notin> set oidc_scopes)
      \<and> (can_access_any_tenant c \<longleftrightarrow> jwt_tenant j = [] \<and> ''cross-tenant'' \<in> set (split_char (CHR '' '') (jwt_scope j)))"
proof -
  have keys: "new_keyfunc [jc_jwks_url cfg] = Inr (jv_jwks v)" "jv_issuer v = jc_issuer cfg" "jv_audience v = jc_audience cfg"
    and on: "jc_enabled cfg \<noteq> Some False"
    using v by (auto simp: provide_token_validator_def new_token_validator_def split: if_splits sum.splits)
  have set_: "jc_issuer cfg \<noteq> []" "jc_audience cfg \<noteq> []"
    using cfg on by (auto simp: jwks_validate_def split: if_splits)
  from ok obtain j where j: "parse (parser_opts v) (jv_jwks v) t = Inr (True, Some j)" "jwt_subject j \<noteq> []"
    and c: "c = \<lparr>claim_tenant = jwt_tenant j, claim_role = jwt_role j, claim_permissions = parse_scopes (jwt_scope j)\<rparr>"
    by (auto simp: validate_token_def split: sum.splits prod.splits option.splits if_splits)
  note lib = doc [unfolded jwt_documented_def, rule_format, OF j(1), unfolded parser_opts_def parser_options.simps keys(2,3)]
  from lib obtain alg where alg: "signed (jv_jwks v) alg t j" "alg \<in> {''RS256'', ''ES256'', ''ES384''}" by auto
  from lib obtain e where e: "jwt_expires j = Some e" "now < e" by (auto split: option.splits)
  have iss: "jwt_issuer j = jc_issuer cfg" "jc_audience cfg \<in> set (jwt_audience j)" using lib set_ by auto
  have perms: "claim_permissions c = filter (\<lambda>w. w \<noteq> [] \<and> w \<notin> {''openid'', ''profile'', ''email'', ''offline_access'', ''all''})
      (split_char (CHR '' '') (jwt_scope j))"
    by (simp add: c parse_scopes_def oidc_scopes_def)
  have words: "\<forall>w \<in> set (claim_permissions c). w \<noteq> [] \<and> CHR '' '' \<notin> set w \<and> w \<notin> set oidc_scopes"
    using split_char_free by (auto simp: perms oidc_scopes_def)
  have any: "can_access_any_tenant c \<longleftrightarrow> jwt_tenant j = [] \<and> ''cross-tenant'' \<in> set (split_char (CHR '' '') (jwt_scope j))"
    unfolding can_access_any_tenant_def perms by (auto simp: c cross_tenant_scope_def)
  show ?thesis using keys(1) alg e iss set_ j(2) perms words any by (intro exI [of _ j] exI [of _ alg] exI [of _ e]) (simp add: c)
qed

definition demo_jwt :: jwt_claims where
  "demo_jwt = \<lparr>jwt_subject = ''svc'', jwt_issuer = ''i'', jwt_audience = [''b'', ''a''], jwt_expires = Some 200, jwt_role = ''admin'',
     jwt_tenant = [], jwt_scope = ''openid cross-tenant''\<rparr>"

definition demo_signed :: "unit \<Rightarrow> string \<Rightarrow> string \<Rightarrow> jwt_claims \<Rightarrow> bool" where
  "demo_signed keys alg t j \<longleftrightarrow> alg = ''ES256'' \<and> t = ''t'' \<and> j = demo_jwt"

definition demo_parse :: "unit jwt_parser" where
  "demo_parse opts keys t =
     (if t = ''t'' \<and> ''ES256'' \<in> set (po_valid_methods opts) \<and> po_issuer opts = ''i'' \<and> ''a'' \<in> set (po_audience opts)
      then Inr (True, Some demo_jwt) else Inl (New_error ''token is invalid''))"

theorem validate_token_claims_witness:
  "\<exists>v c. provide_token_validator (\<lambda>urls. Inr ()) demo_jwks = Inr (Some v) \<and> validate_token demo_parse v ''t'' = Inr c
     \<and> claim_role c = ''admin'' \<and> claim_permissions c = [''cross-tenant''] \<and> can_access_any_tenant c"
proof -
  let ?v = "\<lparr>jv_jwks = (), jv_issuer = ''i'', jv_audience = ''a''\<rparr>"
  have doc: "jwt_documented demo_signed 100 demo_parse"
    by (auto simp: jwt_documented_def demo_parse_def demo_signed_def split: if_splits) (simp_all add: demo_jwt_def)
  have cfg: "jwks_validate demo_jwks = None" by (simp add: jwks_validate_def demo_jwks_def)
  have v: "provide_token_validator (\<lambda>urls. Inr ()) demo_jwks = Inr (Some ?v)"
    by (simp add: provide_token_validator_def new_token_validator_def demo_jwks_def)
  obtain c where c: "validate_token demo_parse ?v ''t'' = Inr c"
    by (simp add: validate_token_def demo_parse_def parser_opts_def demo_jwt_def)
  from validate_token_claims [OF doc cfg v c] obtain j alg where j: "demo_signed (jv_jwks ?v) alg ''t'' j"
    "claim_role c = jwt_role j" "claim_permissions c = filter (\<lambda>w. w \<noteq> [] \<and> w \<notin> {''openid'', ''profile'', ''email'', ''offline_access'', ''all''})
           (split_char (CHR '' '') (jwt_scope j))"
    "can_access_any_tenant c \<longleftrightarrow> jwt_tenant j = [] \<and> ''cross-tenant'' \<in> set (split_char (CHR '' '') (jwt_scope j))" by blast
  then have "j = demo_jwt" by (simp add: demo_signed_def)
  with j c v show ?thesis by (auto simp: demo_jwt_def)
qed

text \<open>
  C24. What the authentication interceptor does with a request, in every case. A procedure that is not registered is refused. A
  public one runs with the context as it is: no token is looked at and no claims are added. Any other needs a token, which is the header after
  \<^verbatim>\<open>Bearer\<close>, or the whole header if it does not start so: it is refused without a token, with a token the validator refuses, and without one of the
  required permissions, each with its Connect code, the state unchanged and the handler not called; otherwise the handler runs with
  the claims the validator returned for this token in its context.
\<close>

theorem auth_interceptor_fail_closed:
  "(map_of perms (rq_procedure req) = None \<longrightarrow>
      (\<exists>e. auth_interceptor validate perms h ctx req s = (Inr (None, Some (Connect_error CodePermissionDenied e)), s)))
   \<and> (map_of perms (rq_procedure req) = Some None \<longrightarrow> auth_interceptor validate perms h ctx req s = h ctx req s)
   \<and> (\<forall>required token. map_of perms (rq_procedure req) = Some (Some required) \<longrightarrow>
        rq_header req ''Authorization'' = ''Bearer '' @ token
          \<or> (\<nexists>r. rq_header req ''Authorization'' = ''Bearer '' @ r) \<and> rq_header req ''Authorization'' = token \<longrightarrow>
        (token = [] \<or> (\<exists>e. validate token = Inl e) \<longrightarrow>
           (\<exists>e. auth_interceptor validate perms h ctx req s = (Inr (None, Some (Connect_error CodeUnauthenticated e)), s)))
      \<and> (\<forall>c. token \<noteq> [] \<longrightarrow> validate token = Inr c \<longrightarrow>
           (if required = [] \<or> set required \<inter> set (claim_permissions c) \<noteq> {}
            then auth_interceptor validate perms h ctx req s = h (ctx\<lparr>ctx_claims := Some c\<rparr>) req s
            else (\<exists>e. auth_interceptor validate perms h ctx req s = (Inr (None, Some (Connect_error CodePermissionDenied e)), s)))))"
proof (intro conjI impI allI)
  fix required token
  assume reg: "map_of perms (rq_procedure req) = Some (Some required)"
    and hdr: "rq_header req ''Authorization'' = ''Bearer '' @ token
      \<or> (\<nexists>r. rq_header req ''Authorization'' = ''Bearer '' @ r) \<and> rq_header req ''Authorization'' = token"
  from hdr have tok: "trim_prefix (rq_header req ''Authorization'') ''Bearer '' = token"
    by (metis trim_prefix_append trim_prefix_none)
  note run = auth_interceptor_def [of validate perms h ctx req s] reg tok
  show "\<exists>e. auth_interceptor validate perms h ctx req s = (Inr (None, Some (Connect_error CodeUnauthenticated e)), s)"
    if "token = [] \<or> (\<exists>e. validate token = Inl e)"
    using that by (auto simp: run rpc_fail_def Let_def)
  show "if required = [] \<or> set required \<inter> set (claim_permissions c) \<noteq> {}
      then auth_interceptor validate perms h ctx req s = h (ctx\<lparr>ctx_claims := Some c\<rparr>) req s
      else (\<exists>e. auth_interceptor validate perms h ctx req s = (Inr (None, Some (Connect_error CodePermissionDenied e)), s))"
    if "token \<noteq> []" "validate token = Inr c" for c
    using that by (simp add: run rpc_fail_def has_any_permission_iff context_with_claims_def)
qed (simp_all add: auth_interceptor_def rpc_fail_def)

theorem auth_interceptor_fail_closed_witness:
  "(\<exists>e. auth_interceptor acme_validator [] only_acme ctx_background acme_request 0
     = (Inr (None, Some (Connect_error CodePermissionDenied e)), 0))
   \<and> auth_interceptor acme_validator [(''p'', Some [''items:read''])] only_acme ctx_background acme_request 0
     = only_acme (ctx_background\<lparr>ctx_claims := Some acme_claims\<rparr>) acme_request 0"
proof -
  have hdr: "rq_header acme_request ''Authorization'' = ''Bearer '' @ ''t''" by (simp add: acme_request_def)
  have valid: "acme_validator ''t'' = Inr acme_claims" by (simp add: acme_validator_def)
  from auth_interceptor_fail_closed [of "[(''p'', Some [''items:read''])]" acme_request acme_validator only_acme ctx_background 0,
      THEN conjunct2, THEN conjunct2, rule_format, of "[''items:read'']" "''t''", THEN conjunct2, rule_format, of acme_claims]
  have "auth_interceptor acme_validator [(''p'', Some [''items:read''])] only_acme ctx_background acme_request 0
      = only_acme (ctx_background\<lparr>ctx_claims := Some acme_claims\<rparr>) acme_request 0"
    using hdr valid by (simp add: acme_claims_def) (simp add: acme_request_def)
  with auth_interceptor_fail_closed [of "[]" acme_request acme_validator only_acme ctx_background 0] show ?thesis by simp
qed

end
