(* ===== verification/Http_Client.thy ===== *)
theory Http_Client
  imports Service_Configs Request_Context
begin

section \<open>Outgoing calls (pkg/http/client and pkg/http/grpc/client)\<close>

text \<open>
  \<^verbatim>\<open>retry.go\<close>, \<^verbatim>\<open>conn.go\<close>, \<^verbatim>\<open>auth.go\<close>, \<^verbatim>\<open>tenant.go\<close>, \<^verbatim>\<open>client.go\<close>, \<^verbatim>\<open>registry.go\<close> and the gRPC client's
  interceptors. A round tripper takes a request and the state \<open>'s\<close> of the network and returns a
  response or an error; the retry loop may not end, so its result is an option, \<open>None\<close> when it
  does not return.
\<close>

subsection \<open>Requests\<close>

text \<open>
  \<open>hr_get_body\<close> is \<^verbatim>\<open>GetBody\<close>: nil, or what it returns. \<^verbatim>\<open>Clone\<close> copies the request with the same
  body, which may be consumed.
\<close>

record 'b http_request =
  hr_ctx :: go_ctx
  hr_header :: "string \<Rightarrow> string"
  hr_body :: 'b
  hr_get_body :: "(go_error, 'b) result option"

type_synonym ('b, 'r, 's) transport = "'b http_request \<Rightarrow> 's \<Rightarrow> (go_error, 'r) result \<times> 's"
type_synonym ('b, 'r, 's) round_tripper = "'b http_request \<Rightarrow> 's \<Rightarrow> ((go_error, 'r) result \<times> 's) option"

subsection \<open>Retries\<close>

definition is_retryable_error :: "go_error \<Rightarrow> bool" where
  "is_retryable_error err \<longleftrightarrow>
     errors_is err ECONNREFUSED \<or> errors_is err ECONNRESET \<or> errors_is err ENETUNREACH
     \<or> errors_is err IoEOF \<or> errors_is err IoErrUnexpectedEOF \<or> errors_is err EPIPE \<or> errors_is err NetErrClosed"

definition do_request :: "('b, 'r, 's) transport \<Rightarrow> 'b http_request \<Rightarrow> int \<Rightarrow> 's \<Rightarrow> (go_error, 'r) result \<times> 's" where
  "do_request base req attempt s =
     (if attempt > 0 then
        (case hr_get_body req of
           None \<Rightarrow> base req s
         | Some (Inl e) \<Rightarrow> (Inl e, s)
         | Some (Inr body) \<Rightarrow> base (req\<lparr>hr_body := body\<rparr>) s)
      else base req s)"

text \<open>The loop of \<^verbatim>\<open>RoundTrip\<close> over \<open>send = doRequest(req, _)\<close>: \<open>Some (None, s)\<close> when it falls through.\<close>

partial_function (option) retry_loop ::
  "(int \<Rightarrow> 's \<Rightarrow> (go_error, 'r) result \<times> 's) \<Rightarrow> int \<Rightarrow> int \<Rightarrow> 's \<Rightarrow> ((go_error, 'r) result option \<times> 's) option" where
  "retry_loop send maxRetries attempt s =
     (if attempt \<le> maxRetries then
        (case send attempt s of
           (Inr resp, s') \<Rightarrow> Some (Some (Inr resp), s')
         | (Inl err, s') \<Rightarrow>
             if errors_is err ErrConnExpired then retry_loop send maxRetries attempt s'
             else if \<not> is_retryable_error err then Some (Some (Inl err), s')
             else retry_loop send maxRetries (attempt + 1) s')
      else Some (None, s))"

text \<open>\<open>close_idle\<close> is \<^verbatim>\<open>CloseIdleConnections\<close>, the identity if the transport is nil.\<close>

definition retry_round_trip ::
  "('s \<Rightarrow> 's) \<Rightarrow> ('b, 'r, 's) transport \<Rightarrow> int \<Rightarrow> ('b, 'r, 's) round_tripper" where
  "retry_round_trip close_idle base maxRetries req s =
     (case retry_loop (do_request base req) maxRetries 0 s of
        None \<Rightarrow> None
      | Some (Some r, s') \<Rightarrow> Some (r, s')
      | Some (None, s') \<Rightarrow> Some (do_request base req (maxRetries + 1) (close_idle s')))"

subsection \<open>Connections with a lifetime\<close>

text \<open>
  \<open>now\<close> is the clock; a connection is its creation time and its lifetime. The inner \<^verbatim>\<open>Read\<close> or \<^verbatim>\<open>Write\<close>
  is a parameter, and \<open>close\<close> the best-effort \<^verbatim>\<open>Close\<close>.
\<close>

record timed_conn =
  created_at :: time
  max_lifetime :: duration

definition is_expired :: "time \<Rightarrow> timed_conn \<Rightarrow> bool" where
  "is_expired now c \<longleftrightarrow> now - created_at c > max_lifetime c"

definition conn_io ::
  "('s \<Rightarrow> (go_error, nat) result \<times> 's) \<Rightarrow> ('s \<Rightarrow> 's) \<Rightarrow> time \<Rightarrow> timed_conn \<Rightarrow> 's \<Rightarrow> (go_error, nat) result \<times> 's" where
  "conn_io inner close now c s =
     (if is_expired now c then (Inl (Sentinel ErrConnExpired), close s) else inner s)"

subsection \<open>Tenant and token propagation\<close>

definition http_tenant_header :: string where "http_tenant_header = ''X-Tenant-Slug''"

definition tenant_round_trip :: "('b, 'r, 's) round_tripper \<Rightarrow> ('b, 'r, 's) round_tripper" where
  "tenant_round_trip base req s =
     (case slug_from_context (hr_ctx req) of
        None \<Rightarrow> base req s
      | Some slug \<Rightarrow> base (req\<lparr>hr_header := (hr_header req)(http_tenant_header := slug)\<rparr>) s)"

text \<open>\<open>token\<close> is the OAuth2 token source.\<close>

definition auth_round_trip ::
  "('s \<Rightarrow> (go_error, string) result \<times> 's) \<Rightarrow> ('b, 'r, 's) round_tripper \<Rightarrow> ('b, 'r, 's) round_tripper" where
  "auth_round_trip token base req s =
     (case token s of
        (Inl e, s') \<Rightarrow> Some (Inl (Wrapf ''failed to obtain access token: '' e []), s')
      | (Inr tok, s') \<Rightarrow> base (req\<lparr>hr_header := (hr_header req)(''Authorization'' := ''Bearer '' @ tok)\<rparr>) s')"

subsection \<open>The client\<close>

text \<open>
  \<^verbatim>\<open>newHTTPClient\<close> dereferences the configuration's pointers, so a nil one panics. The settings are
  those of the transport and of the client; connections are timed when the lifetime is positive.
\<close>

record client_settings =
  cl_timeout :: duration
  cl_max_idle_per_host :: int
  cl_idle_timeout :: duration
  cl_conn_lifetime :: "duration option"
  cl_max_retries :: int

definition max_retries_cap :: int where "max_retries_cap = 5"

definition new_http_client :: "http_client_config \<Rightarrow> client_settings may_panic" where
  "new_http_client cfg =
     and_then (deref (hc_max_conn_lifetime cfg)) (\<lambda>lifetime.
     and_then (deref (hc_idle_timeout cfg)) (\<lambda>idle.
     and_then (deref (hc_max_idle_per_host cfg)) (\<lambda>per_host.
     and_then (deref (hc_timeout cfg)) (\<lambda>timeout.
       Inr \<lparr>cl_timeout = timeout, cl_max_idle_per_host = per_host, cl_idle_timeout = idle,
            cl_conn_lifetime = (if lifetime > 0 then Some lifetime else None),
            cl_max_retries = min per_host max_retries_cap\<rparr>))))"

text \<open>The transport chain: the token (if there is a source) outside, then the tenant, then the retries.\<close>

definition client_chain ::
  "('s \<Rightarrow> (go_error, string) result \<times> 's) option \<Rightarrow> ('s \<Rightarrow> 's) \<Rightarrow> ('b, 'r, 's) transport \<Rightarrow> client_settings
   \<Rightarrow> ('b, 'r, 's) round_tripper" where
  "client_chain token close_idle base cl =
     (let chain = tenant_round_trip (retry_round_trip close_idle base (cl_max_retries cl))
      in case token of None \<Rightarrow> chain | Some t \<Rightarrow> auth_round_trip t chain)"

subsection \<open>The registry\<close>

text \<open>
  \<open>keys\<close> are koanf's keys below \<^verbatim>\<open>clients\<close>; \<open>load name\<close> is \<^verbatim>\<open>config.Load\<close> for \<^verbatim>\<open>"clients."+name\<close>. An entry is
  the client's settings and its configuration; a panic of \<^verbatim>\<open>newHTTPClient\<close> is \<open>Inl\<close> outside.
\<close>

type_synonym registry = "(string, client_settings \<times> http_client_config) go_map"

definition client_name :: "string \<Rightarrow> string" where
  "client_name key = hd (split_char (CHR ''.'') key)"

fun build_registry ::
  "(string \<Rightarrow> (go_error, http_client_config) result) \<Rightarrow> string list \<Rightarrow> string list \<Rightarrow> registry
   \<Rightarrow> (go_error, registry) result may_panic" where
  "build_registry load seen [] r = Inr (Inr r)"
| "build_registry load seen (key # keys) r =
     (let name = client_name key
      in if name \<in> set seen then build_registry load seen keys r
         else (case load name of
                 Inl e \<Rightarrow> Inr (Inl (Wrapf (''http client '' @ quoted name @ '': '') e []))
               | Inr cfg \<Rightarrow>
                   and_then (new_http_client cfg)
                     (\<lambda>client. build_registry load (name # seen) keys (map_put name (client, cfg) r))))"

definition new_registry ::
  "(string \<Rightarrow> (go_error, http_client_config) result) \<Rightarrow> string list \<Rightarrow> (go_error, registry) result may_panic" where
  "new_registry load keys = build_registry load [] keys []"

definition registry_client :: "registry \<Rightarrow> string \<Rightarrow> (go_error, client_settings) result" where
  "registry_client r name =
     (case map_of r name of
        None \<Rightarrow> Inl (New_error (''http client '' @ quoted name @ '' not found in registry''))
      | Some e \<Rightarrow> Inr (fst e))"

definition registry_config :: "registry \<Rightarrow> string \<Rightarrow> (go_error, http_client_config) result" where
  "registry_config r name =
     (case map_of r name of
        None \<Rightarrow> Inl (New_error (''http client config '' @ quoted name @ '' not found in registry''))
      | Some e \<Rightarrow> Inr (snd e))"

subsection \<open>gRPC\<close>

text \<open>
  \<^verbatim>\<open>TenantSlugUnaryInterceptor\<close>: \<open>md_set\<close> is the library's \<^verbatim>\<open>MD.Set\<close>; the invoker sees the context.
\<close>

definition grpc_tenant_interceptor where
  "grpc_tenant_interceptor md_set dflt ctx method invoker s =
     (let ctx = (case slug_from_context ctx of
            None \<Rightarrow> ctx
          | Some slug \<Rightarrow>
              (let md = (case ctx_metadata ctx of None \<Rightarrow> [] | Some md \<Rightarrow> md)
               in ctx\<lparr>ctx_metadata := Some (md_set md http_tenant_header slug)\<rparr>));
          ctx = (case logger_get dflt (Some ctx) of
            None \<Rightarrow> ctx
          | Some log \<Rightarrow> logger_with (Some ctx) (Some (log @ [(''grpc_method'', method)])))
      in invoker ctx s)"

definition grpc_request_metadata ::
  "('s \<Rightarrow> (go_error, string) result \<times> 's) \<Rightarrow> 's \<Rightarrow> (go_error, (string, string) go_map) result \<times> 's" where
  "grpc_request_metadata token s =
     (case token s of
        (Inl e, s') \<Rightarrow> (Inl e, s')
      | (Inr tok, s') \<Rightarrow> (Inr [(''authorization'', ''Bearer '' @ tok)], s'))"

subsection \<open>Termination of the retries\<close>

text \<open>
  \<open>sent\<close> counts the requests that reach the network; \<open>stale\<close> bounds the expired connections left: a
  send that fails with \<^verbatim>\<open>ErrConnExpired\<close> has closed one.
\<close>

definition expired_result :: "(go_error, 'r) result \<Rightarrow> bool" where
  "expired_result r \<longleftrightarrow> (case r of Inl e \<Rightarrow> errors_is e ErrConnExpired | Inr _ \<Rightarrow> False)"

definition network_ok :: "('s \<Rightarrow> nat) \<Rightarrow> ('s \<Rightarrow> nat) \<Rightarrow> ('s \<Rightarrow> 's) \<Rightarrow> ('b, 'r, 's) transport \<Rightarrow> bool" where
  "network_ok sent stale close_idle base \<longleftrightarrow>
     (\<forall>req s. (let (r, s') = base req s in sent s' = sent s + 1
        \<and> stale s' + (if expired_result r then 1 else 0) \<le> stale s))
   \<and> (\<forall>s. sent (close_idle s) = sent s)"

lemma do_request_cost:
  assumes "network_ok sent stale close_idle base" and "\<forall>e. hr_get_body req = Some (Inl e) \<longrightarrow> \<not> errors_is e ErrConnExpired"
    and "do_request base req attempt s = (r, s')"
  shows "sent s' \<le> sent s + 1 \<and> stale s' + (if expired_result r then 1 else 0) \<le> stale s"
proof -
  have base: "sent (snd (base q s)) = sent s + 1 \<and> stale (snd (base q s)) + (if expired_result (fst (base q s)) then 1 else 0) \<le> stale s" for q
    using assms(1) by (simp add: network_ok_def Let_def split_beta)
  have "do_request base req attempt s = base req s
      \<or> (\<exists>b. do_request base req attempt s = base (req\<lparr>hr_body := b\<rparr>) s)
      \<or> (\<exists>e. hr_get_body req = Some (Inl e) \<and> do_request base req attempt s = (Inl e, s))"
    by (auto simp: do_request_def split: option.splits sum.splits)
  then show ?thesis
  proof (elim disjE exE conjE)
    fix e assume "hr_get_body req = Some (Inl e)" "do_request base req attempt s = (Inl e, s)"
    then show ?thesis using assms(2,3) by (auto simp: expired_result_def)
  qed (use base assms(3) in \<open>metis fst_conv snd_conv order_refl\<close>)+
qed

lemma retry_loop_terminates:
  assumes cost: "\<And>a s r s'. send a s = (r, s') \<Longrightarrow>
      sent s' \<le> sent s + (1 :: nat) \<and> stale s' + (if expired_result r then 1 else 0) \<le> (stale s :: nat)"
  shows "\<exists>r s'. retry_loop send maxr a s = Some (r, s') \<and> sent s' + stale s' \<le> sent s + stale s + nat (maxr + 1 - a)"
proof (induction "(nat (maxr + 1 - a), stale s)" arbitrary: a s rule: wf_induct [OF wf_lex_prod [OF wf_less_than wf_less_than]])
  case (1 a s)
  show ?case
  proof (cases "a \<le> maxr")
    case True
    obtain q s1 where q: "send a s = (q, s1)" by (cases "send a s")
    note c = cost [OF q]
    show ?thesis
    proof (cases q)
      case (Inr r)
      then show ?thesis using True q c by (subst retry_loop.simps) auto
    next
      case (Inl e)
      consider "errors_is e ErrConnExpired" | "\<not> errors_is e ErrConnExpired" "\<not> is_retryable_error e"
        | "\<not> errors_is e ErrConnExpired" "is_retryable_error e" by blast
      then show ?thesis
      proof cases
        case 1
        then have exp: "expired_result q" using Inl by (simp add: expired_result_def)
        with c have "stale s1 < stale s" by simp
        then have "((nat (maxr + 1 - a), stale s1), (nat (maxr + 1 - a), stale s)) \<in> less_than <*lex*> less_than" by simp
        from "1.hyps" [rule_format, OF this] obtain r s' where
          "retry_loop send maxr a s1 = Some (r, s')" "sent s' + stale s' \<le> sent s1 + stale s1 + nat (maxr + 1 - a)" by blast
        then show ?thesis using True q Inl 1 c exp by (subst retry_loop.simps) auto
      next
        case 2
        then show ?thesis using True q Inl c by (subst retry_loop.simps) auto
      next
        case 3
        have "nat (maxr + 1 - (a + 1)) < nat (maxr + 1 - a)" using True by simp
        then have "((nat (maxr + 1 - (a + 1)), stale s1), (nat (maxr + 1 - a), stale s)) \<in> less_than <*lex*> less_than" by simp
        from "1.hyps" [rule_format, OF this] obtain r s' where
          "retry_loop send maxr (a + 1) s1 = Some (r, s')"
          "sent s' + stale s' \<le> sent s1 + stale s1 + nat (maxr + 1 - (a + 1))" by blast
        then show ?thesis using True q Inl 3 c by (subst retry_loop.simps) auto
      qed
    qed
  qed (subst retry_loop.simps, auto)
qed

subsection \<open>Properties\<close>

text \<open>The errors that are tried again, and the request of a retry, with its body fetched anew.\<close>

definition transient :: "go_error \<Rightarrow> bool" where
  "transient e \<longleftrightarrow> \<not> errors_is e ErrConnExpired
     \<and> (\<exists>c \<in> {ECONNREFUSED, ECONNRESET, ENETUNREACH, IoEOF, IoErrUnexpectedEOF, EPIPE, NetErrClosed}. errors_is e c)"

definition request_again :: "'b http_request \<Rightarrow> 'b http_request" where
  "request_again req = (case hr_get_body req of Some (Inr body) \<Rightarrow> req\<lparr>hr_body := body\<rparr> | _ \<Rightarrow> req)"

lemma transient_retryable: "transient e \<longleftrightarrow> \<not> errors_is e ErrConnExpired \<and> is_retryable_error e"
  by (auto simp: transient_def is_retryable_error_def)

lemma do_request_sends:
  assumes "\<nexists>e. hr_get_body req = Some (Inl e)"
  shows "do_request base req a s = base (if a > 0 then request_again req else req) s"
  using assms by (auto simp: do_request_def request_again_def split: option.splits sum.splits)

lemma retry_loop_transient:
  assumes "\<forall>j < k. \<exists>e. send (a + int j) (st j) = (Inl e, st (Suc j)) \<and> transient e" and "a + int k \<le> maxr + 1"
  shows "retry_loop send maxr a (st 0) = retry_loop send maxr (a + int k) (st k)"
  using assms
proof (induction k)
  case (Suc k)
  obtain e where e: "send (a + int k) (st k) = (Inl e, st (Suc k))" "transient e" using Suc.prems(1) by blast
  have "retry_loop send maxr (a + int k) (st k) = retry_loop send maxr (a + int (Suc k)) (st (Suc k))"
    using Suc.prems(2) e by (subst retry_loop.simps) (simp add: transient_retryable add.commute add.left_commute)
  with Suc.IH Suc.prems show ?case by simp
qed simp

text \<open>
  C20. Over a network on which only finitely many connections are found expired, each once, a request is answered after
  finitely many sends: at most the allowed retries, the first and
  the final attempt, and one for each connection that expired. A response, or an error that is neither expiry nor transient, is
  returned at once, without any retry. A transient error (a connection refused, reset or closed, an unreachable network, an early
  end of input, a broken pipe) is tried again, with the body fetched anew, up to the limit, and the first answer is returned; when all
  attempts failed so, the idle connections are closed and the last attempt's outcome is returned.
\<close>

theorem retry_round_trip_bounded:
  assumes net: "network_ok sent stale close_idle base"
    and body: "\<forall>e. hr_get_body req = Some (Inl e) \<longrightarrow> \<not> errors_is e ErrConnExpired" and max: "0 \<le> maxr"
  shows "(\<exists>r s'. retry_round_trip close_idle base maxr req s = Some (r, s')
       \<and> sent s' \<le> sent s + nat maxr + 2 + stale s)
    \<and> (\<forall>resp s'. base req s = (Inr resp, s') \<longrightarrow> retry_round_trip close_idle base maxr req s = Some (Inr resp, s'))
    \<and> (\<forall>e s'. base req s = (Inl e, s') \<longrightarrow> \<not> errors_is e ErrConnExpired \<longrightarrow> \<not> transient e \<longrightarrow>
          retry_round_trip close_idle base maxr req s = Some (Inl e, s'))
    \<and> (\<forall>k st. (\<nexists>e. hr_get_body req = Some (Inl e)) \<longrightarrow> st 0 = s \<longrightarrow>
          (\<forall>j < k. \<exists>e. base (if j > 0 then request_again req else req) (st j) = (Inl e, st (Suc j)) \<and> transient e) \<longrightarrow>
          (\<forall>resp s'. int k \<le> maxr \<longrightarrow> base (if k > 0 then request_again req else req) (st k) = (Inr resp, s') \<longrightarrow>
             retry_round_trip close_idle base maxr req s = Some (Inr resp, s'))
          \<and> (int k = maxr + 1 \<longrightarrow>
             retry_round_trip close_idle base maxr req s = Some (base (request_again req) (close_idle (st k)))))"
proof -
  note cost = do_request_cost [OF net body]
  have "\<exists>r s'. retry_loop (do_request base req) maxr 0 s = Some (r, s')
      \<and> sent s' + stale s' \<le> sent s + stale s + nat (maxr + 1 - 0)"
    by (rule retry_loop_terminates) (erule cost)
  then obtain r s1 where loop: "retry_loop (do_request base req) maxr 0 s = Some (r, s1)"
    and bound: "sent s1 + stale s1 \<le> sent s + stale s + nat (maxr + 1)" by auto
  have "\<exists>r s'. retry_round_trip close_idle base maxr req s = Some (r, s') \<and> sent s' \<le> sent s + nat maxr + 2 + stale s"
  proof (cases r)
    case None
    obtain q s2 where q: "do_request base req (maxr + 1) (close_idle s1) = (q, s2)"
      by (cases "do_request base req (maxr + 1) (close_idle s1)")
    have "sent (close_idle s1) = sent s1" using net by (simp add: network_ok_def)
    with cost [OF q] bound max have "sent s2 \<le> sent s + nat maxr + 2 + stale s" by (simp add: nat_add_distrib)
    then show ?thesis using loop None q by (simp add: retry_round_trip_def)
  next
    case (Some r')
    then show ?thesis using loop bound max by (simp add: retry_round_trip_def nat_add_distrib)
  qed
  moreover have "base req s = (Inr resp, s') \<Longrightarrow> retry_round_trip close_idle base maxr req s = Some (Inr resp, s')" for resp s'
    using max by (simp add: retry_round_trip_def do_request_def retry_loop.simps)
  moreover have "base req s = (Inl e, s') \<Longrightarrow> \<not> errors_is e ErrConnExpired \<Longrightarrow> \<not> transient e \<Longrightarrow>
      retry_round_trip close_idle base maxr req s = Some (Inl e, s')" for e s'
    using max by (simp add: retry_round_trip_def do_request_def retry_loop.simps transient_retryable)
  moreover have "(int k \<le> maxr \<longrightarrow> base (if k > 0 then request_again req else req) (st k) = (Inr resp, s') \<longrightarrow>
             retry_round_trip close_idle base maxr req s = Some (Inr resp, s'))
          \<and> (int k = maxr + 1 \<longrightarrow>
             retry_round_trip close_idle base maxr req s = Some (base (request_again req) (close_idle (st k))))"
    if get: "\<nexists>e. hr_get_body req = Some (Inl e)" and st: "st 0 = s"
      "\<forall>j < k. \<exists>e. base (if j > 0 then request_again req else req) (st j) = (Inl e, st (Suc j)) \<and> transient e" for k st resp s'
  proof -
    note sends = do_request_sends [OF get]
    have "\<forall>j < k. \<exists>e. do_request base req (0 + int j) (st j) = (Inl e, st (Suc j)) \<and> transient e"
      using st(2) by (simp add: sends)
    note run = retry_loop_transient [OF this, of maxr, unfolded st(1)]
    show ?thesis
    proof (intro conjI impI)
      assume k: "int k \<le> maxr" and ok: "base (if k > 0 then request_again req else req) (st k) = (Inr resp, s')"
      have "retry_loop (do_request base req) maxr (int k) (st k) = Some (Some (Inr resp), s')"
        using k ok by (subst retry_loop.simps) (simp add: sends)
      with run k show "retry_round_trip close_idle base maxr req s = Some (Inr resp, s')" by (simp add: retry_round_trip_def)
    next
      assume k: "int k = maxr + 1"
      have "retry_loop (do_request base req) maxr (int k) (st k) = Some (None, st k)"
        using k by (subst retry_loop.simps) simp
      with run k have "retry_round_trip close_idle base maxr req s = Some (do_request base req (maxr + 1) (close_idle (st k)))"
        by (simp add: retry_round_trip_def)
      with max show "retry_round_trip close_idle base maxr req s = Some (base (request_again req) (close_idle (st k)))"
        by (simp add: sends)
    qed
  qed
  ultimately show ?thesis by blast
qed

text \<open>A network of a counter of sends, whose first \<open>n\<close> connections are expired.\<close>

definition demo_http_request :: "nat http_request" where
  "demo_http_request = \<lparr>hr_ctx = context_with_slug ctx_background ''acme'', hr_header = (\<lambda>_. []), hr_body = 0,
     hr_get_body = Some (Inr 1)\<rparr>"

definition expiring :: "(nat, string, nat \<times> nat \<times> nat list) transport" where
  "expiring req s = (let (n, stale, bodies) = s in
     if stale > 0 then (Inl (Sentinel ErrConnExpired), (n + 1, stale - 1, bodies @ [hr_body req]))
     else (Inr ''ok'', (n + 1, 0, bodies @ [hr_body req])))"

text \<open>A network whose first \<open>n\<close> connections are refused.\<close>

definition refusing :: "(nat, string, nat \<times> nat \<times> nat list) transport" where
  "refusing req s = (let (n, down, bodies) = s in
     if down > 0 then (Inl (Sentinel ECONNREFUSED), (n + 1, down - 1, bodies @ [hr_body req]))
     else (Inr ''ok'', (n + 1, 0, bodies @ [hr_body req])))"

theorem retry_round_trip_bounded_witness:
  "(\<exists>r s'. retry_round_trip id expiring 5 demo_http_request (0, 2, []) = Some (r, s') \<and> fst s' \<le> 9)
   \<and> retry_round_trip id refusing 5 demo_http_request (0, 2, []) = Some (Inr ''ok'', (3, 0, [0, 1, 1]))"
proof -
  have body: "\<forall>e. hr_get_body demo_http_request = Some (Inl e) \<longrightarrow> \<not> errors_is e ErrConnExpired"
    by (simp add: demo_http_request_def)
  have net: "network_ok fst (fst \<circ> snd) id expiring" "network_ok fst (\<lambda>s. 0) id refusing"
    by (auto simp: network_ok_def expiring_def refusing_def expired_result_def Let_def split: prod.splits)
  let ?st = "\<lambda>j :: nat. [(0, 2, []), (1, 1, [0]), (2, 0, [0, 1])] ! j"
  have again: "request_again demo_http_request = demo_http_request\<lparr>hr_body := 1\<rparr>" and get: "\<nexists>e. hr_get_body demo_http_request = Some (Inl e)"
    by (simp_all add: request_again_def demo_http_request_def)
  have refused: "\<exists>e. refusing (if j > 0 then request_again demo_http_request else demo_http_request) (?st j) = (Inl e, ?st (Suc j)) \<and> transient e"
    if "j < 2" for j
  proof -
    have "j = 0 \<or> j = 1" using that by auto
    then show ?thesis by (auto simp: refusing_def again transient_def) (simp_all add: demo_http_request_def)
  qed
  have ok: "refusing (if (2 :: nat) > 0 then request_again demo_http_request else demo_http_request) (?st 2) = (Inr ''ok'', (3, 0, [0, 1, 1]))"
    by (simp add: refusing_def again)
  from retry_round_trip_bounded [OF net(2) body, of 5 "(0, 2, [])", THEN conjunct2, THEN conjunct2, THEN conjunct2, rule_format,
      of "?st" 2, THEN conjunct1, rule_format, of "''ok''" "(3, 0, [0, 1, 1])"] get refused ok
  have "retry_round_trip id refusing 5 demo_http_request (0, 2, []) = Some (Inr ''ok'', (3, 0, [0, 1, 1]))" by simp
  with retry_round_trip_bounded [OF net(1) body, of 5 "(0, 2, [])"] show ?thesis by simp
qed

definition always_expired :: "('b, 'r, 's) transport" where
  "always_expired req s = (Inl (Sentinel ErrConnExpired), s)"

lemma retry_loop_diverges:
  assumes "a \<le> maxr" and "\<And>s. \<exists>e s'. send a s = (Inl e, s') \<and> errors_is e ErrConnExpired"
  shows "retry_loop send maxr a s = None"
proof (rule ccontr)
  assume "retry_loop send maxr a s \<noteq> None"
  then obtain y where y: "retry_loop send maxr a s = Some y" by blast
  have "\<not> (a \<le> maxr \<and> (\<forall>s. \<exists>e s'. send a s = (Inl e, s') \<and> errors_is e ErrConnExpired))"
  proof (rule retry_loop.raw_induct [OF _ y])
    fix rec :: "(int \<Rightarrow> 's \<Rightarrow> (go_error, 'r) result \<times> 's) \<Rightarrow> int \<Rightarrow> int \<Rightarrow> 's \<Rightarrow> ((go_error, 'r) result option \<times> 's) option"
    fix send :: "int \<Rightarrow> 's \<Rightarrow> (go_error, 'r) result \<times> 's" and maxr a :: int and s :: 's and y
    assume ih: "\<And>send maxr a s y. rec send maxr a s = Some y \<Longrightarrow>
        \<not> (a \<le> maxr \<and> (\<forall>s. \<exists>e s'. send a s = (Inl e, s') \<and> errors_is e ErrConnExpired))"
      and body: "(if a \<le> maxr then
        (case send a s of
           (Inr resp, s') \<Rightarrow> Some (Some (Inr resp), s')
         | (Inl err, s') \<Rightarrow>
             if errors_is err ErrConnExpired then rec send maxr a s'
             else if \<not> is_retryable_error err then Some (Some (Inl err), s')
             else rec send maxr (a + 1) s')
      else Some (None, s)) = Some y"
    show "\<not> (a \<le> maxr \<and> (\<forall>s. \<exists>e s'. send a s = (Inl e, s') \<and> errors_is e ErrConnExpired))"
    proof
      assume all: "a \<le> maxr \<and> (\<forall>s. \<exists>e s'. send a s = (Inl e, s') \<and> errors_is e ErrConnExpired)"
      then obtain e s' where "send a s = (Inl e, s')" "errors_is e ErrConnExpired" by blast
      with body all have "rec send maxr a s' = Some y" by simp
      from ih [OF this] all show False by blast
    qed
  qed
  with assms show False by blast
qed

text \<open>
  Without that proviso there is no bound: over a transport that answers every send with an
  expired connection, \<^verbatim>\<open>RoundTrip\<close> never returns, whatever the retry limit. And an expired first
  attempt is sent again as it is: the body is not fetched anew, although \<^verbatim>\<open>GetBody\<close> could, until a
  retry has been counted.
\<close>

theorem retry_expired_unbounded:
  "(0 \<le> maxr \<longrightarrow> retry_round_trip close_idle always_expired maxr req s = None)
   \<and> retry_round_trip id expiring 5 demo_http_request (0, 1, []) = Some (Inr ''ok'', (2, 0, [0, 0]))"
proof
  show "0 \<le> maxr \<longrightarrow> retry_round_trip close_idle always_expired maxr req s = None"
    unfolding retry_round_trip_def
    by (intro impI, subst retry_loop_diverges) (simp_all add: do_request_def always_expired_def)
  show "retry_round_trip id expiring 5 demo_http_request (0, 1, []) = Some (Inr ''ok'', (2, 0, [0, 0]))"
    by (simp add: retry_round_trip_def retry_loop.simps do_request_def expiring_def demo_http_request_def)
qed

theorem retry_expired_unbounded_witness:
  "(retry_round_trip id always_expired 5 demo_http_request (0 :: nat) :: ((go_error, string) result \<times> nat) option) = None"
  by (rule retry_expired_unbounded [THEN conjunct1, rule_format]) simp

lemma loaded_client:
  assumes "load_config http_client_apply_defaults (validating http_client_validate) z k key ov = Inr cfg"
  shows "\<exists>cl. new_http_client cfg = Inr cl \<and> cl_max_retries cl \<le> 5"
proof -
  note complete = http_client_cfg.loaded_complete(1) [OF assms]
  have "hc_timeout cfg \<noteq> None" "hc_max_idle_per_host cfg \<noteq> None" "hc_idle_timeout cfg \<noteq> None"
    "hc_max_conn_lifetime cfg \<noteq> None"
    by (subst complete [symmetric], simp add: http_client_apply_defaults_def)+
  then show ?thesis
    by (auto simp: new_http_client_def deref_def max_retries_cap_def simp del: and_then_Inr)
qed

definition carries :: "('s \<Rightarrow> (go_error, string) result \<times> 's) option \<Rightarrow> 'b http_request \<Rightarrow> bool" where
  "carries token req \<longleftrightarrow>
     (\<forall>slug. slug_from_context (hr_ctx req) = Some slug \<longrightarrow> hr_header req http_tenant_header = slug)
   \<and> (\<forall>t. token = Some t \<longrightarrow> (\<exists>s tok s'. t s = (Inr tok, s') \<and> hr_header req ''Authorization'' = ''Bearer '' @ tok))"

lemma do_request_agree:
  assumes "\<And>req s. carries token req \<Longrightarrow> base req s = base' req s" and "carries token req"
  shows "do_request base req = do_request base' req"
proof (intro ext)
  fix a s
  have "carries token (req\<lparr>hr_body := b\<rparr>)" for b using assms(2) by (simp add: carries_def)
  with assms show "do_request base req a s = do_request base' req a s"
    by (simp add: do_request_def split: option.split sum.split)
qed

lemma tenant_agree:
  assumes "\<And>req s. carries token req \<Longrightarrow> base req s = base' req s"
    and "\<forall>t. token = Some t \<longrightarrow> (\<exists>s tok s'. t s = (Inr tok, s') \<and> hr_header req ''Authorization'' = ''Bearer '' @ tok)"
  shows "tenant_round_trip (retry_round_trip close_idle base n) req s
       = tenant_round_trip (retry_round_trip close_idle base' n) req s"
proof -
  have "retry_round_trip close_idle base n q s = retry_round_trip close_idle base' n q s" if "carries token q" for q s
  proof -
    have agree: "do_request base q = do_request base' q" by (rule do_request_agree [OF _ that]) (rule assms(1))
    show ?thesis unfolding retry_round_trip_def agree ..
  qed
  moreover have "http_tenant_header \<noteq> ''Authorization''" by (simp add: http_tenant_header_def)
  ultimately show ?thesis
    using assms(2) by (auto simp: tenant_round_trip_def carries_def split: option.split)
qed

text \<open>
  C32. Whatever the configuration loader returns, building the client does not panic, and its retry
  limit is between 0 and 5 unless the configured pool size is negative. Every request the chain
  puts on the network, first attempt or retry, carries the tenant of its context and, with a token
  source, a token of that source: two transports that agree on such requests cannot be told apart.
\<close>

theorem client_chain_propagates:
  assumes loaded: "load_config http_client_apply_defaults (validating http_client_validate) z k key ov = Inr cfg"
    and agree: "\<And>req s. carries token req \<Longrightarrow> base req s = base' req s"
  shows "\<exists>cl. new_http_client cfg = Inr cl \<and> cl_max_retries cl \<le> 5
    \<and> (0 \<le> the (hc_max_idle_per_host cfg) \<longrightarrow> 0 \<le> cl_max_retries cl)
    \<and> client_chain token close_idle base cl req s = client_chain token close_idle base' cl req s"
proof -
  from loaded_client [OF loaded] obtain cl where cl: "new_http_client cfg = Inr cl" "cl_max_retries cl \<le> 5" by blast
  then have "0 \<le> the (hc_max_idle_per_host cfg) \<longrightarrow> 0 \<le> cl_max_retries cl"
    by (auto simp: new_http_client_def deref_def max_retries_cap_def split: option.splits)
  moreover have "client_chain token close_idle base cl req s = client_chain token close_idle base' cl req s"
  proof (cases token)
    case None
    then show ?thesis using tenant_agree [of token base base' req] agree by (simp add: client_chain_def)
  next
    case (Some t)
    have "tenant_round_trip (retry_round_trip close_idle base (cl_max_retries cl))
          (req\<lparr>hr_header := (hr_header req)(''Authorization'' := ''Bearer '' @ tok)\<rparr>) s'
        = tenant_round_trip (retry_round_trip close_idle base' (cl_max_retries cl))
          (req\<lparr>hr_header := (hr_header req)(''Authorization'' := ''Bearer '' @ tok)\<rparr>) s'"
      if "t s = (Inr tok, s')" for tok s'
      using that Some by (intro tenant_agree [OF agree]) auto
    then show ?thesis using Some
      by (auto simp: client_chain_def Let_def auth_round_trip_def split: prod.split sum.split)
  qed
  ultimately show ?thesis using cl by blast
qed

definition demo_client_config :: http_client_config where
  "demo_client_config = \<lparr>hc_base_url = ''http://catalog'', hc_timeout = None, hc_max_idle_per_host = Some 3,
     hc_idle_timeout = None, hc_max_conn_lifetime = None\<rparr>"

definition tenant_checking :: "(nat, string, nat) transport" where
  "tenant_checking req s =
     (if \<exists>slug. slug_from_context (hr_ctx req) = Some slug \<and> hr_header req http_tenant_header \<noteq> slug
      then (Inl (New_error ''leak''), s) else (Inr ''ok'', s + 1))"

theorem client_chain_propagates_witness:
  "\<exists>cl. new_http_client (http_client_apply_defaults demo_client_config) = Inr cl \<and>
     client_chain None id tenant_checking cl demo_http_request 0
       = client_chain None id (\<lambda>req s. (Inr ''ok'', s + 1)) cl demo_http_request 0"
proof -
  have l: "load_config http_client_apply_defaults (validating http_client_validate) demo_client_config
      \<lparr>exists_key = \<lambda>_. False, unmarshal = \<lambda>_. Inr\<rparr> ''clients.catalog'' (Some demo_client_config)
      = Inr (http_client_apply_defaults demo_client_config)"
    by (rule load_valid) (simp add: cfg_defs demo_client_config_def)
  have "\<And>req s. carries None req \<Longrightarrow> tenant_checking req s = (Inr ''ok'', s + 1)"
    by (auto simp: carries_def tenant_checking_def)
  then show ?thesis
    using client_chain_propagates [where base = tenant_checking and base' = "\<lambda>req s. (Inr ''ok'', s + 1)"
        and token = None and close_idle = id and req = demo_http_request and s = 0, OF l] by blast
qed

end
