(* ===== verification/Outbox.thy ===== *)
theory Outbox
  imports Request_Context Service_Configs
begin

section \<open>The transactional outbox (pkg/kafka/outbox and pkg/kafka/kafkaproto)\<close>

text \<open>
  \<^verbatim>\<open>model.go\<close>, \<^verbatim>\<open>outbox.go\<close>, \<^verbatim>\<open>repository.go\<close>, \<^verbatim>\<open>fetcher.go\<close>, \<^verbatim>\<open>sender.go\<close>, \<^verbatim>\<open>confirmer.go\<close>,
  \<^verbatim>\<open>trace_propagator.go\<close> and \<^verbatim>\<open>header_populator.go\<close>. The collection is a parameter with its documented
  behaviour; a filter is the predicate it denotes, an update the function and a sort its keys. Stored times are
  milliseconds, the precision of a BSON date. Logging is left out.
\<close>

subsection \<open>Entities\<close>

definition status_processing :: string where "status_processing = ''PROCESSING''"
definition status_sent :: string where "status_sent = ''SENT''"

lemma status_sent_neq [simp]: "status_sent \<noteq> status_processing" "status_processing \<noteq> status_sent"
  by (simp_all add: status_sent_def status_processing_def)

text \<open>A field that \<^verbatim>\<open>$unset\<close> removed is \<open>None\<close>.\<close>

record outbox_entity =
  ob_id :: string
  ob_payload :: string
  ob_key :: string
  ob_topic :: string
  ob_headers :: "(string, string) go_map"
  ob_status :: string
  ob_created_at :: int
  ob_sent_at :: "int option"
  ob_lock_expires_at :: "int option"
  ob_next_attempt_after :: "int option"
  ob_attempts :: nat
  ob_confirmations :: nat

subsection \<open>The collection\<close>

record 's outbox_driver =
  od_docs :: "'s \<Rightarrow> string \<Rightarrow> outbox_entity option"
  od_now :: "'s \<Rightarrow> int"
  od_insert :: "go_ctx \<Rightarrow> outbox_entity \<Rightarrow> 's \<Rightarrow> go_error option \<times> 's"
  od_find_and_update :: "go_ctx \<Rightarrow> (outbox_entity \<Rightarrow> bool) \<Rightarrow> (outbox_entity \<Rightarrow> outbox_entity)
    \<Rightarrow> (outbox_entity \<Rightarrow> int option) list \<Rightarrow> 's \<Rightarrow> (go_error, outbox_entity) result \<times> 's"
  od_update_many :: "go_ctx \<Rightarrow> string list \<Rightarrow> (outbox_entity \<Rightarrow> outbox_entity) \<Rightarrow> 's \<Rightarrow> go_error option \<times> 's"

text \<open>
  A sort is a list of ascending keys, a missing value sorting first; among the matching documents the driver takes one that
  no other sorts before.
\<close>

fun sorts_before :: "('e \<Rightarrow> int option) list \<Rightarrow> 'e \<Rightarrow> 'e \<Rightarrow> bool" where
  "sorts_before [] d e = False"
| "sorts_before (key # keys) d e =
     (case (key d, key e) of
        (None, None) \<Rightarrow> sorts_before keys d e
      | (None, Some b) \<Rightarrow> True
      | (Some a, None) \<Rightarrow> False
      | (Some a, Some b) \<Rightarrow> a < b \<or> a = b \<and> sorts_before keys d e)"

definition sorted_match ::
  "('e \<Rightarrow> int option) list \<Rightarrow> ('e \<Rightarrow> bool) \<Rightarrow> (string \<Rightarrow> 'e option) \<Rightarrow> string \<Rightarrow> 'e \<Rightarrow> bool" where
  "sorted_match sort_keys P docs i e \<longleftrightarrow>
     docs i = Some e \<and> P e \<and> (\<forall>j d. docs j = Some d \<longrightarrow> P d \<longrightarrow> \<not> sorts_before sort_keys d e)"

definition updated :: "string \<Rightarrow> (outbox_entity \<Rightarrow> outbox_entity) \<Rightarrow> (string \<Rightarrow> outbox_entity option) \<Rightarrow> string \<Rightarrow> outbox_entity option" where
  "updated i f docs = docs(i := map_option f (docs i))"

definition updated_many :: "string set \<Rightarrow> (outbox_entity \<Rightarrow> outbox_entity) \<Rightarrow> (string \<Rightarrow> outbox_entity option) \<Rightarrow> string \<Rightarrow> outbox_entity option" where
  "updated_many ids f docs = (\<lambda>i. if i \<in> ids then map_option f (docs i) else docs i)"

text \<open>
  The documented behaviour: inserting needs a fresh \<^verbatim>\<open>_id\<close>; a find-and-update is atomic on one
  matching document and returns it updated, and reports no documents only if none matches; a call
  that returns an error may have been applied, an update of many documents to some of them.
\<close>

definition outbox_conforms :: "'s outbox_driver \<Rightarrow> bool" where
  "outbox_conforms od \<longleftrightarrow>
     (\<forall>s i e. od_docs od s i = Some e \<longrightarrow> ob_id e = i)
   \<and> (\<forall>ctx e s. (let (r, s') = od_insert od ctx e s; applied = (od_docs od s)(ob_id e \<mapsto> e)
        in (r = None \<longrightarrow> od_docs od s (ob_id e) = None \<and> od_docs od s' = applied)
         \<and> (od_docs od s' = od_docs od s \<or> od_docs od s (ob_id e) = None \<and> od_docs od s' = applied)))
   \<and> (\<forall>ctx P f sort_keys s. (\<forall>e. ob_id (f e) = ob_id e) \<longrightarrow> (let (r, s') = od_find_and_update od ctx P f sort_keys s
        in (\<forall>e'. r = Inr e' \<longrightarrow> (\<exists>i e. sorted_match sort_keys P (od_docs od s) i e \<and> e' = f e
              \<and> od_docs od s' = updated i f (od_docs od s)))
         \<and> (od_docs od s' = od_docs od s
              \<or> (\<exists>i e. od_docs od s i = Some e \<and> P e \<and> od_docs od s' = updated i f (od_docs od s)))
         \<and> (\<forall>err. r = Inl err \<longrightarrow> \<not> errors_is err ErrOutboxEntityNotFound
              \<and> (errors_is_lib err MongoErrNoDocuments \<longrightarrow>
                   od_docs od s' = od_docs od s \<and> (\<forall>i e. od_docs od s i = Some e \<longrightarrow> \<not> P e)))))
   \<and> (\<forall>ctx ids f s. (\<forall>e. ob_id (f e) = ob_id e) \<longrightarrow> (let (r, s') = od_update_many od ctx ids f s
        in (r = None \<longrightarrow> od_docs od s' = updated_many (set ids) f (od_docs od s))
         \<and> (\<exists>some \<subseteq> set ids. od_docs od s' = updated_many some f (od_docs od s))))"

subsection \<open>The repository\<close>

definition max_backoff_millis :: "duration \<Rightarrow> int" where
  "max_backoff_millis max_backoff = go_quot max_backoff millisecond"

text \<open>The filter and the pipeline of \<^verbatim>\<open>FetchAndLock\<close>. A missing date does not compare as less.\<close>

definition before :: "int option \<Rightarrow> int \<Rightarrow> bool" where
  "before t now = (case t of None \<Rightarrow> False | Some t \<Rightarrow> t < now)"

definition fetchable :: "int \<Rightarrow> outbox_entity \<Rightarrow> bool" where
  "fetchable now e \<longleftrightarrow> before (ob_next_attempt_after e) now \<and> before (ob_lock_expires_at e) now
     \<and> ob_status e = status_processing"

definition retry_delay :: "int \<Rightarrow> nat \<Rightarrow> int" where
  "retry_delay maxms attempts = min (30000 * 2 ^ attempts) maxms"

definition lock_update :: "int \<Rightarrow> int \<Rightarrow> outbox_entity \<Rightarrow> outbox_entity" where
  "lock_update maxms now e = e\<lparr>
     ob_lock_expires_at := Some (now + 30000),
     ob_attempts := ob_attempts e + 1,
     ob_next_attempt_after := Some (now + retry_delay maxms (ob_attempts e))\<rparr>"

text \<open>\<^verbatim>\<open>SetSort\<close>.\<close>

definition fetch_sort :: "(outbox_entity \<Rightarrow> int option) list" where
  "fetch_sort = [ob_next_attempt_after, \<lambda>e. Some (ob_created_at e)]"

definition repo_fetch_and_lock :: "'s outbox_driver \<Rightarrow> int \<Rightarrow> go_ctx \<Rightarrow> 's \<Rightarrow> (go_error, outbox_entity) result \<times> 's" where
  "repo_fetch_and_lock od maxms ctx s =
     (let now = od_now od s;
          (r, s') = od_find_and_update od ctx (fetchable now) (lock_update maxms now) fetch_sort s
      in (case r of
            Inl e \<Rightarrow> if errors_is_lib e MongoErrNoDocuments
                     then Inl (Wrapf ''failed to fetch outbox entity: '' (Sentinel ErrOutboxEntityNotFound) [])
                     else Inl (Wrapf ''failed to fetch outbox entity: '' e [])
          | Inr e \<Rightarrow> Inr e, s'))"

definition new_entity :: "int \<Rightarrow> string \<Rightarrow> string \<Rightarrow> string \<Rightarrow> string \<Rightarrow> (string, string) go_map \<Rightarrow> outbox_entity" where
  "new_entity now payload i key topic headers = \<lparr>ob_id = i, ob_payload = payload, ob_key = key, ob_topic = topic,
     ob_headers = headers, ob_status = status_processing, ob_created_at = now, ob_sent_at = None,
     ob_lock_expires_at = Some (now + 10000), ob_next_attempt_after = Some (now + 10000), ob_attempts = 0,
     ob_confirmations = 0\<rparr>"

definition repo_create where
  "repo_create od ctx payload i key topic headers s =
     (let entity = new_entity (od_now od s) payload i key topic headers;
          (r, s') = od_insert od ctx entity s
      in (case r of Some e \<Rightarrow> Inl (Wrapf ''failed to insert outbox entity: '' e []) | None \<Rightarrow> Inr entity, s'))"

definition sent_update :: "int \<Rightarrow> outbox_entity \<Rightarrow> outbox_entity" where
  "sent_update now e = e\<lparr>ob_status := status_sent, ob_sent_at := Some now,
     ob_lock_expires_at := None, ob_next_attempt_after := None, ob_confirmations := ob_confirmations e + 1\<rparr>"

definition repo_update_as_sent :: "'s outbox_driver \<Rightarrow> go_ctx \<Rightarrow> string list \<Rightarrow> 's \<Rightarrow> go_error option \<times> 's" where
  "repo_update_as_sent od ctx ids s =
     (let (r, s') = od_update_many od ctx ids (sent_update (od_now od s)) s
      in (map_option (\<lambda>e. Wrapf ''failed to update outbox messages: '' e []) r, s'))"

text \<open>The interface \<^verbatim>\<open>Repository\<close> its clients call.\<close>

record 's outbox_repo =
  or_fetch :: "go_ctx \<Rightarrow> 's \<Rightarrow> (go_error, outbox_entity) result \<times> 's"
  or_create :: "go_ctx \<Rightarrow> string \<Rightarrow> string \<Rightarrow> string \<Rightarrow> string \<Rightarrow> (string, string) go_map
    \<Rightarrow> 's \<Rightarrow> (go_error, outbox_entity) result \<times> 's"
  or_update_sent :: "go_ctx \<Rightarrow> string list \<Rightarrow> 's \<Rightarrow> go_error option \<times> 's"

definition outbox_repository :: "'s outbox_driver \<Rightarrow> duration \<Rightarrow> 's outbox_repo" where
  "outbox_repository od max_backoff = \<lparr>or_fetch = repo_fetch_and_lock od (max_backoff_millis max_backoff),
     or_create = repo_create od, or_update_sent = repo_update_as_sent od\<rparr>"

subsection \<open>Creating messages\<close>

text \<open>
  The event library: \<open>ev_uuid\<close> and \<open>ev_millis\<close> are what \<^verbatim>\<open>uuid.New\<close> and the clock return, \<open>ev_type\<close> the
  event's full name; \<open>ev_inject\<close> is the text map propagator's \<^verbatim>\<open>Inject\<close> of the context into the map,
  and \<open>ev_marshal\<close> is \<^verbatim>\<open>proto.Marshal\<close>.
\<close>

record 'v event_lib =
  ev_uuid :: string
  ev_millis :: int
  ev_type :: "'v \<Rightarrow> string"
  ev_inject :: "go_ctx \<Rightarrow> (string, string) go_map \<Rightarrow> (string, string) go_map"
  ev_marshal :: "'v \<Rightarrow> (go_error, string) result"

record 'v outbox_message =
  msg_event :: 'v
  msg_topic :: string
  msg_key :: string
  msg_headers :: "(string, string) go_map option"

definition populate_headers :: "'v event_lib \<Rightarrow> string \<Rightarrow> 'v \<Rightarrow> (string, string) go_map \<Rightarrow> string \<times> (string, string) go_map" where
  "populate_headers lib source event headers =
     (let headers = map_put ''event_id'' (ev_uuid lib) headers;
          headers = map_put ''event_type'' (ev_type lib event) headers;
          headers = map_put ''source'' source headers;
          headers = map_put ''timestamp'' (int_text (ev_millis lib)) headers
      in (ev_uuid lib, headers))"

definition save_trace_context :: "'v event_lib \<Rightarrow> go_ctx \<Rightarrow> (string, string) go_map option \<Rightarrow> (string, string) go_map" where
  "save_trace_context lib ctx headers =
     ev_inject lib ctx (case headers of None \<Rightarrow> [] | Some h \<Rightarrow> h)"

definition proto_serialize :: "'v event_lib \<Rightarrow> 'v \<Rightarrow> (go_error, string) result" where
  "proto_serialize lib event =
     (case ev_marshal lib event of Inl e \<Rightarrow> Inl (Wrapf ''proto marshal failed: '' e []) | Inr d \<Rightarrow> Inr d)"

text \<open>\<^verbatim>\<open>Outbox.Create\<close>; the entity stands for the returned \<^verbatim>\<open>SendFunc\<close>.\<close>

definition outbox_create ::
  "'v event_lib \<Rightarrow> string \<Rightarrow> 's outbox_repo \<Rightarrow> go_ctx \<Rightarrow> 'v outbox_message \<Rightarrow> 's \<Rightarrow> (go_error, outbox_entity) result \<times> 's" where
  "outbox_create lib source repo ctx msg s =
     (let headers = (case msg_headers msg of None \<Rightarrow> [] | Some h \<Rightarrow> h);
          (eventID, headers) = populate_headers lib source (msg_event msg) headers;
          headers = save_trace_context lib ctx (Some headers);
          headers = the (save_to_headers ctx (Some headers))
      in case proto_serialize lib (msg_event msg) of
           Inl e \<Rightarrow> (Inl (Wrapf ''failed to serialize outbox message: '' e []), s)
         | Inr serialized \<Rightarrow>
             (case or_create repo ctx serialized eventID (msg_key msg) (msg_topic msg) headers s of
                (Inl e, s') \<Rightarrow> (Inl (Wrapf ''failed to create outbox message: '' e []), s')
              | (Inr entity, s') \<Rightarrow> (Inr entity, s')))"

text \<open>
  The \<^verbatim>\<open>SendFunc\<close>: \<open>timer\<close> is whether its second has passed. The result is the error, \<open>Some None\<close> when
  the entity was put on the channel (capacity 100), \<open>None\<close> while it waits.
\<close>

definition entities_capacity :: nat where "entities_capacity = 100"
definition confirm_capacity :: nat where "confirm_capacity = 1000"

definition send_func :: "nat \<Rightarrow> go_ctx \<Rightarrow> bool \<Rightarrow> outbox_entity list \<Rightarrow> outbox_entity
   \<Rightarrow> (go_error option \<times> outbox_entity list) option" where
  "send_func pick ctx timer chan entity = go_select pick
     [(ctx_done ctx, (map_option (\<lambda>e. Wrapf ''outbox didn't sent: '' e []) (ctx_err ctx), chan)),
      (length chan < entities_capacity, (None, chan @ [entity])),
      (timer, (Some (New_error ''entitiesChan is full''), chan))]"

subsection \<open>Sending\<close>

text \<open>
  \<^verbatim>\<open>StartKafkaProducerSpan\<close>: \<open>inject\<close> writes the new span's context into the clone of the headers; the
  map is iterated in some order, a permutation of its entries.
\<close>

definition kafka_headers :: "((string, string) go_map \<Rightarrow> (string, string) go_map) \<Rightarrow> (string, string) go_map \<Rightarrow> record_header list" where
  "kafka_headers inject headers = map (\<lambda>(k, v). RecordHeader k v) (inject headers)"

text \<open>The record \<^verbatim>\<open>Sender.send\<close> produces; the partition and offset are set by the client.\<close>

definition sender_record :: "record_header list \<Rightarrow> outbox_entity \<Rightarrow> kafka_record" where
  "sender_record headers e = \<lparr>rec_topic = ob_topic e, rec_key = ob_key e, rec_value = ob_payload e,
     rec_partition = 0, rec_offset = 0, rec_headers = headers\<rparr>"

subsection \<open>The loops of the fetcher and the sender\<close>

text \<open>
  A fetcher is about to look at its context and fetch, waits for a timer, holds a fetched entity until
  the channel takes it, or has returned. \<open>timer\<close> is whether the wait is over. A return gives up what it holds.
\<close>

datatype fetcher_state = Fetcher_loop | Fetcher_wait duration | Fetcher_holds outbox_entity | Fetcher_stopped

fun fetcher_step :: "'s outbox_repo \<Rightarrow> go_ctx \<Rightarrow> nat \<Rightarrow> bool \<Rightarrow> fetcher_state \<Rightarrow> outbox_entity list \<Rightarrow> 's
    \<Rightarrow> (fetcher_state \<times> outbox_entity list \<times> 's) option" where
  "fetcher_step repo ctx pick timer Fetcher_loop chan s =
     (if ctx_done ctx then Some (Fetcher_stopped, chan, s)
      else case or_fetch repo ctx s of
             (Inl e, s') \<Rightarrow> Some (Fetcher_wait (if errors_is e ErrOutboxEntityNotFound then 5 * second else 10 * second), chan, s')
           | (Inr entity, s') \<Rightarrow> Some (Fetcher_holds entity, chan, s'))"
| "fetcher_step repo ctx pick timer (Fetcher_wait d) chan s =
     go_select pick [(ctx_done ctx, (Fetcher_stopped, chan, s)), (timer, (Fetcher_loop, chan, s))]"
| "fetcher_step repo ctx pick timer (Fetcher_holds entity) chan s =
     go_select pick [(ctx_done ctx, (Fetcher_stopped, chan, s)),
       (length chan < entities_capacity, (Fetcher_loop, chan @ [entity], s))]"
| "fetcher_step repo ctx pick timer Fetcher_stopped chan s = None"

text \<open>
  One iteration of the sender: the entity it goes on to send, or none when it returns. \<open>ctx\<close> is the
  context at the first \<^verbatim>\<open>select\<close> and \<open>ctx'\<close> at the second, while it waits.
\<close>

definition sender_step :: "go_ctx \<Rightarrow> go_ctx \<Rightarrow> nat \<Rightarrow> outbox_entity list \<Rightarrow> (outbox_entity option \<times> outbox_entity list) option" where
  "sender_step ctx ctx' pick chan =
     (if ctx_done ctx then Some (None, chan)
      else go_select pick [(ctx_done ctx', (None, chan)), (chan \<noteq> [], (Some (hd chan), tl chan))])"

subsection \<open>Confirming\<close>

type_synonym confirm_result = "string \<times> go_error option"

text \<open>\<^verbatim>\<open>handleConfirmation\<close>: the IDs delivered, and nothing to do when there is none.\<close>

definition confirmed_ids :: "confirm_result list \<Rightarrow> string list" where
  "confirmed_ids results = map fst (filter (\<lambda>(i, err). err = None) results)"

definition handle_confirmation :: "'s outbox_repo \<Rightarrow> go_ctx \<Rightarrow> confirm_result list \<Rightarrow> 's \<Rightarrow> 's" where
  "handle_confirmation repo ctx results s =
     (if confirmed_ids results = [] then s
      else snd (or_update_sent repo ctx (confirmed_ids results) s))"

text \<open>The confirmer's loop: the batch being collected and the batches handed to goroutines.\<close>

definition flush :: "confirm_result list \<Rightarrow> confirm_result list list \<Rightarrow> confirm_result list \<times> confirm_result list list" where
  "flush results batches = (if results = [] then (results, batches) else ([], batches @ [results]))"

definition confirmer_receive ::
  "confirm_result \<Rightarrow> confirm_result list \<Rightarrow> confirm_result list list \<Rightarrow> confirm_result list \<times> confirm_result list list" where
  "confirmer_receive r results batches =
     (let results = results @ [r]
      in if length results = 100 then flush results batches else (results, batches))"

text \<open>One iteration of the confirmer; the flag is whether it goes on. \<open>tick\<close> is its two-second ticker.\<close>

definition confirmer_step :: "go_ctx \<Rightarrow> go_ctx \<Rightarrow> nat \<Rightarrow> bool \<Rightarrow> confirm_result list \<Rightarrow> confirm_result list
    \<Rightarrow> confirm_result list list \<Rightarrow> (bool \<times> confirm_result list \<times> confirm_result list \<times> confirm_result list list) option" where
  "confirmer_step ctx ctx' pick tick confirm results batches =
     (if ctx_done ctx then Some (False, confirm, flush results batches)
      else go_select pick
        [(ctx_done ctx', (False, confirm, flush results batches)),
         (confirm \<noteq> [], (True, tl confirm, confirmer_receive (hd confirm) results batches)),
         (tick, (True, confirm, flush results batches))])"

subsection \<open>The contract of the repository\<close>

text \<open>
  What the clients rely on: a created message is stored as processing, fetching locks one
  fetchable message, and only the given IDs become sent.
\<close>

locale outbox_store =
  fixes conforms :: bool
    and docs :: "'s \<Rightarrow> string \<Rightarrow> outbox_entity option"
    and now :: "'s \<Rightarrow> int"
    and maxms :: int
    and repo :: "'s outbox_repo"
  assumes keyed: "conforms \<Longrightarrow> docs s i = Some e \<Longrightarrow> ob_id e = i"
    and create_law: "conforms \<Longrightarrow> or_create repo ctx payload i key topic headers s = (r, s') \<Longrightarrow>
      (\<forall>e. r = Inr e \<longrightarrow> docs s i = None \<and> e = new_entity (now s) payload i key topic headers \<and> docs s' = (docs s)(i \<mapsto> e))
      \<and> (docs s' = docs s \<or> docs s i = None \<and> docs s' = (docs s)(i \<mapsto> new_entity (now s) payload i key topic headers))"
    and fetch_law: "conforms \<Longrightarrow> or_fetch repo ctx s = (r, s') \<Longrightarrow>
      (\<forall>e'. r = Inr e' \<longrightarrow> (\<exists>i e. sorted_match fetch_sort (fetchable (now s)) (docs s) i e \<and> e' = lock_update maxms (now s) e
         \<and> docs s' = updated i (lock_update maxms (now s)) (docs s)))
      \<and> (docs s' = docs s \<or> (\<exists>i e. docs s i = Some e \<and> fetchable (now s) e
           \<and> docs s' = updated i (lock_update maxms (now s)) (docs s)))"
    and fetch_not_found: "conforms \<Longrightarrow> or_fetch repo ctx s = (Inl err, s') \<Longrightarrow>
      errors_is err ErrOutboxEntityNotFound \<Longrightarrow>
      docs s' = docs s \<and> (\<forall>i e. docs s i = Some e \<longrightarrow> \<not> fetchable (now s) e)"
    and sent_law: "conforms \<Longrightarrow> or_update_sent repo ctx ids s = (oe, s') \<Longrightarrow>
      (oe = None \<longrightarrow> docs s' = updated_many (set ids) (sent_update (now s)) (docs s))
      \<and> (\<exists>some \<subseteq> set ids. docs s' = updated_many some (sent_update (now s)) (docs s))"
begin

lemma handle_confirmation_law:
  assumes conforms
  shows "\<exists>some \<subseteq> set (confirmed_ids results).
    docs (handle_confirmation repo ctx results s) = updated_many some (sent_update (now s)) (docs s)"
proof (cases "confirmed_ids results = []")
  case True
  then show ?thesis by (auto simp: handle_confirmation_def updated_many_def)
next
  case False
  obtain r s' where u: "or_update_sent repo ctx (confirmed_ids results) s = (r, s')"
    by (cases "or_update_sent repo ctx (confirmed_ids results) s")
  from sent_law [OF assms u] show ?thesis using False u by (simp add: handle_confirmation_def)
qed

end

lemma entity_ids [simp]:
  "ob_id (lock_update maxms now e) = ob_id e" "ob_id (sent_update now e) = ob_id e"
  "ob_id (new_entity now p i k t h) = i"
  by (simp_all add: lock_update_def sent_update_def new_entity_def)

lemma outbox_laws:
  assumes "outbox_conforms od"
  shows "od_docs od s i = Some e \<Longrightarrow> ob_id e = i"
    and "od_insert od ctx e s = (r, s') \<Longrightarrow>
      (r = None \<longrightarrow> od_docs od s (ob_id e) = None \<and> od_docs od s' = (od_docs od s)(ob_id e \<mapsto> e))
      \<and> (od_docs od s' = od_docs od s \<or> od_docs od s (ob_id e) = None \<and> od_docs od s' = (od_docs od s)(ob_id e \<mapsto> e))"
    and "(\<And>e. ob_id (f e) = ob_id e) \<Longrightarrow> od_find_and_update od ctx P f sort_keys s = (q, s') \<Longrightarrow>
      (\<forall>e'. q = Inr e' \<longrightarrow> (\<exists>i e. sorted_match sort_keys P (od_docs od s) i e \<and> e' = f e \<and> od_docs od s' = updated i f (od_docs od s)))
      \<and> (od_docs od s' = od_docs od s \<or> (\<exists>i e. od_docs od s i = Some e \<and> P e \<and> od_docs od s' = updated i f (od_docs od s)))
      \<and> (\<forall>err. q = Inl err \<longrightarrow> \<not> errors_is err ErrOutboxEntityNotFound
           \<and> (errors_is_lib err MongoErrNoDocuments \<longrightarrow>
                od_docs od s' = od_docs od s \<and> (\<forall>i e. od_docs od s i = Some e \<longrightarrow> \<not> P e)))"
    and "(\<And>e. ob_id (f e) = ob_id e) \<Longrightarrow> od_update_many od ctx ids f s = (r, s') \<Longrightarrow>
      (r = None \<longrightarrow> od_docs od s' = updated_many (set ids) f (od_docs od s))
      \<and> (\<exists>some \<subseteq> set ids. od_docs od s' = updated_many some f (od_docs od s))"
proof -
  note c = assms [unfolded outbox_conforms_def]
  show "od_docs od s i = Some e \<Longrightarrow> ob_id e = i" using c by blast
  show "od_insert od ctx e s = (r, s') \<Longrightarrow>
      (r = None \<longrightarrow> od_docs od s (ob_id e) = None \<and> od_docs od s' = (od_docs od s)(ob_id e \<mapsto> e))
      \<and> (od_docs od s' = od_docs od s \<or> od_docs od s (ob_id e) = None \<and> od_docs od s' = (od_docs od s)(ob_id e \<mapsto> e))"
    using c [THEN conjunct2, THEN conjunct1, rule_format, of ctx e s] by (simp add: Let_def)
  show "(\<And>e. ob_id (f e) = ob_id e) \<Longrightarrow> od_find_and_update od ctx P f sort_keys s = (q, s') \<Longrightarrow>
      (\<forall>e'. q = Inr e' \<longrightarrow> (\<exists>i e. sorted_match sort_keys P (od_docs od s) i e \<and> e' = f e \<and> od_docs od s' = updated i f (od_docs od s)))
      \<and> (od_docs od s' = od_docs od s \<or> (\<exists>i e. od_docs od s i = Some e \<and> P e \<and> od_docs od s' = updated i f (od_docs od s)))
      \<and> (\<forall>err. q = Inl err \<longrightarrow> \<not> errors_is err ErrOutboxEntityNotFound
           \<and> (errors_is_lib err MongoErrNoDocuments \<longrightarrow>
                od_docs od s' = od_docs od s \<and> (\<forall>i e. od_docs od s i = Some e \<longrightarrow> \<not> P e)))"
    using c [THEN conjunct2, THEN conjunct2, THEN conjunct1, rule_format, of f ctx P sort_keys s] by (simp add: Let_def)
  show "(\<And>e. ob_id (f e) = ob_id e) \<Longrightarrow> od_update_many od ctx ids f s = (r, s') \<Longrightarrow>
      (r = None \<longrightarrow> od_docs od s' = updated_many (set ids) f (od_docs od s))
      \<and> (\<exists>some \<subseteq> set ids. od_docs od s' = updated_many some f (od_docs od s))"
    using c [THEN conjunct2, THEN conjunct2, THEN conjunct2, rule_format, of f ctx ids s] by (simp add: Let_def)
qed

lemma repo_fetch_cases:
  assumes "or_fetch (outbox_repository od mb) ctx s = (r, s')"
  shows "\<exists>q. od_find_and_update od ctx (fetchable (od_now od s)) (lock_update (max_backoff_millis mb) (od_now od s)) fetch_sort s = (q, s')
    \<and> (\<forall>e. r = Inr e \<longrightarrow> q = Inr e)"
  using assms
  by (auto simp: outbox_repository_def repo_fetch_and_lock_def Let_def split: prod.splits sum.splits if_splits)

interpretation mongo_outbox: outbox_store "outbox_conforms od" "od_docs od" "od_now od" "max_backoff_millis mb"
  "outbox_repository od mb" for od :: "'s outbox_driver" and mb :: duration
proof (unfold_locales, goal_cases)
  case (1 s i e)
  then show ?case by (rule outbox_laws(1))
next
  case (2 ctx payload i key topic headers s r s')
  obtain q where "od_insert od ctx (new_entity (od_now od s) payload i key topic headers) s = (q, s')"
    and "\<forall>e. r = Inr e \<longrightarrow> q = None \<and> e = new_entity (od_now od s) payload i key topic headers"
    using 2(2) by (auto simp: outbox_repository_def repo_create_def Let_def split: prod.splits option.splits)
  with outbox_laws(2) [OF 2(1) this(1)] show ?case by simp
next
  case (3 ctx s r s')
  from repo_fetch_cases [OF 3(2)] obtain q where
    q: "od_find_and_update od ctx (fetchable (od_now od s)) (lock_update (max_backoff_millis mb) (od_now od s)) fetch_sort s = (q, s')"
    "\<forall>e. r = Inr e \<longrightarrow> q = Inr e" by blast
  from outbox_laws(3) [OF 3(1) _ q(1)] q(2) show ?case by simp
next
  case (4 ctx s err s')
  then obtain q where
    q: "od_find_and_update od ctx (fetchable (od_now od s)) (lock_update (max_backoff_millis mb) (od_now od s)) fetch_sort s = (Inl q, s')"
    "errors_is_lib q MongoErrNoDocuments \<or> errors_is q ErrOutboxEntityNotFound"
    by (auto simp: outbox_repository_def repo_fetch_and_lock_def Let_def split: prod.splits sum.splits if_splits)
  from outbox_laws(3) [OF 4(1) _ q(1)] q(2) show ?case by simp
next
  case (5 ctx ids s r s')
  then obtain q where "od_update_many od ctx ids (sent_update (od_now od s)) s = (q, s')" "r = None \<longleftrightarrow> q = None"
    by (auto simp: outbox_repository_def repo_update_as_sent_def Let_def split: prod.splits)
  with outbox_laws(4) [OF 5(1) _ this(1)] show ?case by simp
qed

end
