(* ===== verification/Outbox_Memory.thy ===== *)
theory Outbox_Memory
  imports Outbox
begin

section \<open>An outbox collection in memory\<close>

text \<open>
  A concrete collection with the documented behaviour, on which the properties of the outbox are
  evaluated: the clock in milliseconds and the documents, oldest last; calls with a finished context fail.
\<close>

type_synonym mem_outbox_state = "int \<times> outbox_entity list"

definition mem_outbox_insert :: "go_ctx \<Rightarrow> outbox_entity \<Rightarrow> mem_outbox_state \<Rightarrow> go_error option \<times> mem_outbox_state" where
  "mem_outbox_insert ctx e s =
     (if ctx_done ctx then (ctx_err ctx, s)
      else case first_by ob_id (snd s) (ob_id e) of
             Some d \<Rightarrow> (Some (Foreign None ''duplicate key''), s)
           | None \<Rightarrow> (None, (fst s, e # snd s)))"

text \<open>A first element that no other one sorts before.\<close>

fun least_by :: "('e \<Rightarrow> int option) list \<Rightarrow> 'e list \<Rightarrow> 'e option" where
  "least_by sort_keys [] = None"
| "least_by sort_keys (e # es) = (case least_by sort_keys es of None \<Rightarrow> Some e | Some d \<Rightarrow> if sorts_before sort_keys d e then Some d else Some e)"

definition mem_outbox_find :: "go_ctx \<Rightarrow> (outbox_entity \<Rightarrow> bool) \<Rightarrow> (outbox_entity \<Rightarrow> outbox_entity)
    \<Rightarrow> (outbox_entity \<Rightarrow> int option) list \<Rightarrow> mem_outbox_state \<Rightarrow> (go_error, outbox_entity) result \<times> mem_outbox_state" where
  "mem_outbox_find ctx P f sort_keys s =
     (if ctx_done ctx then (Inl (Foreign None ''context done''), s)
      else case least_by sort_keys (filter P (firsts ob_id (snd s))) of
             None \<Rightarrow> (Inl (Foreign (Some MongoErrNoDocuments) ''no documents''), s)
           | Some e \<Rightarrow> (Inr (f e), (fst s, map (\<lambda>d. if ob_id d = ob_id e then f d else d) (snd s))))"

definition mem_outbox_update :: "go_ctx \<Rightarrow> string list \<Rightarrow> (outbox_entity \<Rightarrow> outbox_entity)
    \<Rightarrow> mem_outbox_state \<Rightarrow> go_error option \<times> mem_outbox_state" where
  "mem_outbox_update ctx ids f s =
     (if ctx_done ctx then (ctx_err ctx, s)
      else (None, (fst s, map (\<lambda>d. if ob_id d \<in> set ids then f d else d) (snd s))))"

definition mem_od :: "mem_outbox_state outbox_driver" where
  "mem_od = \<lparr>od_docs = (\<lambda>s. first_by ob_id (snd s)), od_now = fst, od_insert = mem_outbox_insert,
     od_find_and_update = mem_outbox_find, od_update_many = mem_outbox_update\<rparr>"

lemma mem_od_simps [simp]:
  "od_docs mem_od s = first_by ob_id (snd s)" "od_now mem_od s = fst s"
  "od_insert mem_od = mem_outbox_insert" "od_find_and_update mem_od = mem_outbox_find"
  "od_update_many mem_od = mem_outbox_update"
  by (simp_all add: mem_od_def)

lemma map_where_id:
  assumes "\<And>d. ob_id (f d) = ob_id d"
  shows "first_by ob_id (map (\<lambda>d. if ob_id d \<in> I then f d else d) ds) = updated_many I f (first_by ob_id ds)"
proof (rule ext)
  fix i
  have "ob_id (if ob_id d \<in> I then f d else d) = ob_id d" for d using assms by simp
  note first_by_map [of ob_id, OF this, of ds i]
  then show "first_by ob_id (map (\<lambda>d. if ob_id d \<in> I then f d else d) ds) i = updated_many I f (first_by ob_id ds) i"
    by (cases "first_by ob_id ds i") (auto simp: updated_many_def dest: first_by_Some)
qed

lemma updated_single: "updated_many {i} f docs = updated i f docs"
  by (auto simp: updated_many_def updated_def)

lemma sorts_before_irrefl: "\<not> sorts_before sort_keys e e"
  by (induction sort_keys) (auto split: option.splits)

lemma sorts_before_between: "sorts_before sort_keys d e \<Longrightarrow> sorts_before sort_keys d c \<or> sorts_before sort_keys c e"
  by (induction sort_keys) (auto split: option.splits)

lemma sorts_before_asym: "sorts_before sort_keys d e \<Longrightarrow> \<not> sorts_before sort_keys e d"
  by (induction sort_keys) (auto split: option.splits)

lemma least_by_None: "least_by sort_keys es = None \<longleftrightarrow> es = []"
  by (cases es) (auto split: option.splits)

lemma least_by_Some: "least_by sort_keys es = Some e \<Longrightarrow> e \<in> set es \<and> (\<forall>d \<in> set es. \<not> sorts_before sort_keys d e)"
proof (induction es arbitrary: e)
  case (Cons a es)
  show ?case
  proof (cases "least_by sort_keys es")
    case None
    with Cons.prems sorts_before_irrefl [of sort_keys a] show ?thesis by (auto simp: least_by_None)
  next
    case (Some d)
    note IH = Cons.IH [OF Some]
    show ?thesis
    proof (cases "sorts_before sort_keys d a")
      case True
      then have "\<not> sorts_before sort_keys a d"
        by (rule sorts_before_asym)
      with True Cons.prems Some IH show ?thesis by auto
    next
      case False
      with Cons.prems Some IH sorts_before_between [of sort_keys _ a d] sorts_before_irrefl [of sort_keys a] show ?thesis by auto
    qed
  qed
qed simp

lemma mem_find_law:
  assumes "\<And>d. ob_id (f d) = ob_id d" and "mem_outbox_find ctx P f sort_keys s = (r, s')"
  shows "(\<forall>e'. r = Inr e' \<longrightarrow> (\<exists>i e. sorted_match sort_keys P (first_by ob_id (snd s)) i e \<and> e' = f e
        \<and> first_by ob_id (snd s') = updated i f (first_by ob_id (snd s))))
    \<and> (first_by ob_id (snd s') = first_by ob_id (snd s)
       \<or> (\<exists>i e. first_by ob_id (snd s) i = Some e \<and> P e \<and> first_by ob_id (snd s') = updated i f (first_by ob_id (snd s))))
    \<and> (\<forall>err. r = Inl err \<longrightarrow> \<not> errors_is err ErrOutboxEntityNotFound \<and> (errors_is_lib err MongoErrNoDocuments \<longrightarrow>
         first_by ob_id (snd s') = first_by ob_id (snd s) \<and> (\<forall>i e. first_by ob_id (snd s) i = Some e \<longrightarrow> \<not> P e)))"
proof (cases "ctx_done ctx")
  case True
  with assms(2) show ?thesis by (auto simp: mem_outbox_find_def)
next
  case False
  show ?thesis
  proof (cases "least_by sort_keys (filter P (firsts ob_id (snd s)))")
    case None
    then have "\<not> P e" if "first_by ob_id (snd s) i = Some e" for i e
      using that by (auto simp: least_by_None filter_empty_conv set_firsts ran_def)
    with None False assms(2) show ?thesis by (auto simp: mem_outbox_find_def)
  next
    case (Some e)
    from least_by_Some [OF Some] have e: "P e" "e \<in> ran (first_by ob_id (snd s))"
      and least: "\<And>d. d \<in> ran (first_by ob_id (snd s)) \<Longrightarrow> P d \<Longrightarrow> \<not> sorts_before sort_keys d e" by (simp_all add: set_firsts)
    then obtain i where i: "first_by ob_id (snd s) i = Some e" by (auto simp: ran_def)
    with e(1) least have match: "sorted_match sort_keys P (first_by ob_id (snd s)) i e" by (auto simp: sorted_match_def ran_def)
    have s': "r = Inr (f e)" "snd s' = map (\<lambda>d. if ob_id d \<in> {ob_id e} then f d else d) (snd s)"
      using assms(2) False Some by (auto simp: mem_outbox_find_def)
    have "first_by ob_id (snd s') = updated i f (first_by ob_id (snd s))"
      unfolding s'(2) map_where_id [OF assms(1)] using first_by_Some [OF i] by (simp add: updated_single)
    with s'(1) e(1) i match show ?thesis by blast
  qed
qed

lemma mem_outbox_conforms: "outbox_conforms mem_od"
proof -
  have ins: "(r = None \<longrightarrow> first_by ob_id (snd s) (ob_id e) = None \<and> first_by ob_id (snd s') = (first_by ob_id (snd s))(ob_id e \<mapsto> e))
      \<and> (first_by ob_id (snd s') = first_by ob_id (snd s)
         \<or> first_by ob_id (snd s) (ob_id e) = None \<and> first_by ob_id (snd s') = (first_by ob_id (snd s))(ob_id e \<mapsto> e))"
    if "mem_outbox_insert ctx e s = (r, s')" for ctx e s r s'
    using that by (auto simp: mem_outbox_insert_def first_by_Cons split: if_splits option.splits)
  have upd: "(r = None \<longrightarrow> first_by ob_id (snd s') = updated_many (set ids) f (first_by ob_id (snd s)))
      \<and> (\<exists>some \<subseteq> set ids. first_by ob_id (snd s') = updated_many some f (first_by ob_id (snd s)))"
    if f: "\<forall>d. ob_id (f d) = ob_id d" and u: "mem_outbox_update ctx ids f s = (r, s')" for ctx ids f s r s'
  proof (cases "ctx_done ctx")
    case True
    have "updated_many {} f (first_by ob_id (snd s)) = first_by ob_id (snd s)" by (simp add: updated_many_def)
    moreover have "s' = s" "r \<noteq> None" using True u by (auto simp: mem_outbox_update_def)
    ultimately show ?thesis by (metis empty_subsetI)
  next
    case False
    then have "snd s' = map (\<lambda>d. if ob_id d \<in> set ids then f d else d) (snd s)"
      using u by (auto simp: mem_outbox_update_def)
    then have "first_by ob_id (snd s') = updated_many (set ids) f (first_by ob_id (snd s))"
      using map_where_id [of f "set ids" "snd s"] f by simp
    then show ?thesis by blast
  qed
  have keyed: "first_by ob_id ds i = Some e \<Longrightarrow> ob_id e = i" for ds i e by (drule first_by_Some) simp
  show ?thesis
    unfolding outbox_conforms_def mem_od_simps Let_def
  proof (intro conjI allI impI, goal_cases)
    case (1 s i e)
    then show ?case by (rule keyed)
  next
    case (2 ctx e s)
    show ?case by (rule case_prodI2) (rule ins)
  next
    case (3 ctx P f sort_keys s)
    then show ?case by (intro case_prodI2 mem_find_law) auto
  next
    case (4 ctx ids f s)
    then show ?case by (intro case_prodI2 upd) auto
  qed
qed

end
