(* ===== verification/Outbox_System.thy ===== *)
theory Outbox_System
  imports Outbox_Memory
begin

section \<open>The outbox as a system: at-least-once delivery\<close>

text \<open>
  The fetcher, the sender, the Kafka client's callbacks, the confirmer and its goroutines, the
  application's \<^verbatim>\<open>Create\<close> and \<^verbatim>\<open>SendFunc\<close>, and crashes, as one step relation over the store, the two
  channels (capacities 100 and 1000) and what each worker holds. \<open>sys_acked\<close> are the IDs Kafka has
  acknowledged; it only records history.
\<close>

record 's outbox_system =
  sys_store :: 's
  sys_pending :: "outbox_entity list"
  sys_fetcher :: fetcher_state
  sys_entities :: "outbox_entity list"
  sys_inflight :: "outbox_entity list"
  sys_confirm :: "confirm_result list"
  sys_results :: "confirm_result list"
  sys_batches :: "confirm_result list list"
  sys_acked :: "string set"

definition system_start :: "'s \<Rightarrow> 's outbox_system" where
  "system_start s = \<lparr>sys_store = s, sys_pending = [], sys_fetcher = Fetcher_loop, sys_entities = [], sys_inflight = [],
     sys_confirm = [], sys_results = [], sys_batches = [], sys_acked = {}\<rparr>"

text \<open>A crash or a restart loses everything but the store and Kafka.\<close>

definition crash :: "'s outbox_system \<Rightarrow> 's outbox_system" where
  "crash x = x\<lparr>sys_pending := [], sys_fetcher := Fetcher_loop, sys_entities := [], sys_inflight := [],
     sys_confirm := [], sys_results := [], sys_batches := []\<rparr>"

text \<open>
  The steps. \<open>env\<close> relates the store before and after a step of the world: the clock, the index that
  expires old documents. A caller may never call its \<^verbatim>\<open>SendFunc\<close>. Kafka may deliver a record whose
  callback later reports an error.
\<close>

inductive outbox_step ::
  "'s outbox_repo \<Rightarrow> 'v event_lib \<Rightarrow> string \<Rightarrow> ('s \<Rightarrow> 's \<Rightarrow> bool) \<Rightarrow> 's outbox_system \<Rightarrow> 's outbox_system \<Rightarrow> bool"
  for repo lib source env where
  create: "outbox_create (lib\<lparr>ev_uuid := u, ev_millis := ms\<rparr>) source repo ctx msg (sys_store x) = (r, s') \<Longrightarrow>
    outbox_step repo lib source env x (x\<lparr>sys_store := s',
      sys_pending := sys_pending x @ (case r of Inl e \<Rightarrow> [] | Inr e \<Rightarrow> [e])\<rparr>)"
| send_func: "e \<in> set (sys_pending x) \<Longrightarrow> send_func pick ctx timer (sys_entities x) e = Some (err, chan) \<Longrightarrow>
    outbox_step repo lib source env x (x\<lparr>sys_entities := chan, sys_pending := remove1 e (sys_pending x)\<rparr>)"
| fetcher: "fetcher_step repo ctx pick timer (sys_fetcher x) (sys_entities x) (sys_store x) = Some (f, chan, s') \<Longrightarrow>
    outbox_step repo lib source env x (x\<lparr>sys_store := s', sys_fetcher := f, sys_entities := chan\<rparr>)"
| sender: "sender_step ctx ctx' pick (sys_entities x) = Some (sent, chan) \<Longrightarrow>
    outbox_step repo lib source env x (x\<lparr>sys_entities := chan,
      sys_inflight := sys_inflight x @ (case sent of None \<Rightarrow> [] | Some e \<Rightarrow> [e])\<rparr>)"
| deliver: "e \<in> set (sys_inflight x) \<Longrightarrow>
    outbox_step repo lib source env x (x\<lparr>sys_acked := insert (ob_id e) (sys_acked x)\<rparr>)"
| ack: "e \<in> set (sys_inflight x) \<Longrightarrow> length (sys_confirm x) < confirm_capacity \<Longrightarrow>
    outbox_step repo lib source env x (x\<lparr>sys_inflight := remove1 e (sys_inflight x),
      sys_acked := insert (ob_id e) (sys_acked x), sys_confirm := sys_confirm x @ [(ob_id e, None)]\<rparr>)"
| nack: "e \<in> set (sys_inflight x) \<Longrightarrow> length (sys_confirm x) < confirm_capacity \<Longrightarrow>
    outbox_step repo lib source env x (x\<lparr>sys_inflight := remove1 e (sys_inflight x),
      sys_confirm := sys_confirm x @ [(ob_id e, Some err)]\<rparr>)"
| confirmer: "confirmer_step ctx ctx' pick tick (sys_confirm x) (sys_results x) (sys_batches x)
      = Some (runs, confirm, results, batches) \<Longrightarrow>
    outbox_step repo lib source env x (x\<lparr>sys_confirm := confirm, sys_results := results, sys_batches := batches\<rparr>)"
| handle: "b \<in> set (sys_batches x) \<Longrightarrow>
    outbox_step repo lib source env x (x\<lparr>sys_store := handle_confirmation repo ctx b (sys_store x),
      sys_batches := remove1 b (sys_batches x)\<rparr>)"
| world: "env (sys_store x) s' \<Longrightarrow> outbox_step repo lib source env x (x\<lparr>sys_store := s'\<rparr>)"
| crash: "outbox_step repo lib source env x (crash x)"

inductive outbox_reach ::
  "'s outbox_repo \<Rightarrow> 'v event_lib \<Rightarrow> string \<Rightarrow> ('s \<Rightarrow> 's \<Rightarrow> bool) \<Rightarrow> 's \<Rightarrow> 's outbox_system \<Rightarrow> bool"
  for repo lib source env s0 where
  init: "outbox_reach repo lib source env s0 (system_start s0)"
| step: "outbox_reach repo lib source env s0 x \<Longrightarrow> outbox_step repo lib source env x y \<Longrightarrow>
    outbox_reach repo lib source env s0 y"

subsection \<open>The invariant\<close>

text \<open>
  Every confirmation without an error is of an acknowledged message, a message marked as sent is
  acknowledged, what travels through the channels was stored, and batches have at most 100 results; \<open>stored\<close> are the IDs that
  were in the store at some time.
\<close>

definition oks_acked :: "string set \<Rightarrow> confirm_result list \<Rightarrow> bool" where
  "oks_acked acked cs \<longleftrightarrow> (\<forall>i. (i, None) \<in> set cs \<longrightarrow> i \<in> acked)"

definition known :: "string set \<Rightarrow> outbox_entity list \<Rightarrow> bool" where
  "known ids es \<longleftrightarrow> (\<forall>e \<in> set es. ob_id e \<in> ids)"

fun held :: "fetcher_state \<Rightarrow> outbox_entity list" where
  "held (Fetcher_holds e) = [e]"
| "held f = []"

definition channels_inv :: "string set \<Rightarrow> string set \<Rightarrow> 's outbox_system \<Rightarrow> bool" where
  "channels_inv stored acked x \<longleftrightarrow>
     oks_acked acked (sys_confirm x) \<and> oks_acked acked (sys_results x)
   \<and> (\<forall>b \<in> set (sys_batches x). oks_acked acked b \<and> length b \<le> 100) \<and> length (sys_results x) < 100
   \<and> known stored (sys_pending x @ sys_entities x @ sys_inflight x
@ held (sys_fetcher x))
   \<and> length (sys_entities x) \<le> entities_capacity \<and> length (sys_confirm x) \<le> confirm_capacity"

definition outbox_inv :: "('s \<Rightarrow> string \<Rightarrow> outbox_entity option) \<Rightarrow> string set \<Rightarrow> 's outbox_system \<Rightarrow> bool" where
  "outbox_inv docs stored x \<longleftrightarrow>
     (\<forall>i e. docs (sys_store x) i = Some e \<longrightarrow> i \<in> stored \<and> (ob_status e = status_sent \<longrightarrow> i \<in> sys_acked x))
   \<and> sys_acked x \<subseteq> stored \<and> channels_inv stored (sys_acked x) x"

lemma known_simps [simp]:
  "known ids []" "known ids (e # es) \<longleftrightarrow> ob_id e \<in> ids \<and> known ids es"
  "known ids (es @ fs) \<longleftrightarrow> known ids es \<and> known ids fs"
  by (auto simp: known_def)

lemma known_mono: "known ids es \<Longrightarrow> ids \<subseteq> ids' \<Longrightarrow> known ids' es"
  by (auto simp: known_def)

lemma known_remove1: "known ids es \<Longrightarrow> known ids (remove1 e es)"
  by (auto simp: known_def dest: notin_set_remove1 set_remove1_subset [THEN subsetD])

lemma known_in: "known ids es \<Longrightarrow> e \<in> set es \<Longrightarrow> ob_id e \<in> ids"
  by (auto simp: known_def)

lemma oks_acked_simps [simp]:
  "oks_acked A []" "oks_acked A (c # cs) \<longleftrightarrow> (snd c = None \<longrightarrow> fst c \<in> A) \<and> oks_acked A cs"
  "oks_acked A (cs @ ds) \<longleftrightarrow> oks_acked A cs \<and> oks_acked A ds"
  by (cases c; auto simp: oks_acked_def)+

lemma oks_acked_mono: "oks_acked A cs \<Longrightarrow> A \<subseteq> B \<Longrightarrow> oks_acked B cs"
  by (auto simp: oks_acked_def)

lemma confirmed_acked: "oks_acked A cs \<Longrightarrow> set (confirmed_ids cs) \<subseteq> A"
  by (auto simp: oks_acked_def confirmed_ids_def)

lemma channels_inv_mono:
  "channels_inv A B x \<Longrightarrow> A \<subseteq> A' \<Longrightarrow> B \<subseteq> B' \<Longrightarrow> channels_inv A' B' x"
  unfolding channels_inv_def by (meson known_mono oks_acked_mono)

lemma send_func_cases:
  assumes "send_func pick ctx timer chan e = Some (err, chan')"
  shows "chan' = chan \<or> length chan < entities_capacity \<and> err = None \<and> chan' = chan @ [e]"
  using go_select_ready [OF assms [unfolded send_func_def]] by auto

lemma confirmer_inv:
  assumes "confirmer_step ctx ctx' pick tick cs rs bs = Some (runs, cs', rs', bs')"
    and "oks_acked A cs" "oks_acked A rs" "length rs < 100" "\<forall>b \<in> set bs. oks_acked A b \<and> length b \<le> 100"
    and "length cs \<le> confirm_capacity"
  shows "oks_acked A cs' \<and> oks_acked A rs' \<and> length rs' < 100 \<and> (\<forall>b \<in> set bs'. oks_acked A b \<and> length b \<le> 100)
    \<and> length cs' \<le> confirm_capacity"
proof -
  have "cs' = cs \<and> (rs', bs') = flush rs bs \<or> cs \<noteq> [] \<and> cs' = tl cs \<and> (rs', bs') = confirmer_receive (hd cs) rs bs"
    using assms(1) by (auto simp: confirmer_step_def split: if_splits dest!: go_select_ready)
  then show ?thesis using assms(2-)
    by (cases cs) (auto simp: confirmer_receive_def flush_def Let_def split: if_splits)
qed

text \<open>What the fetcher does: nothing to the store, or one fetch.\<close>

lemma fetcher_step_cases:
  assumes "fetcher_step repo ctx pick timer f chan s = Some (f', chan', s')"
  shows "(chan' = chan \<and> s' = s \<and> held f' = [])
    \<or> (\<exists>e. f = Fetcher_holds e \<and> s' = s \<and> length chan < entities_capacity \<and> chan' = chan @ [e] \<and> held f' = [])
    \<or> (\<exists>r. f = Fetcher_loop \<and> or_fetch repo ctx s = (r, s') \<and> chan' = chan \<and> held f' = (case r of Inl _ \<Rightarrow> [] | Inr e \<Rightarrow> [e]))"
proof (cases f)
  case Fetcher_loop
  with assms show ?thesis by (cases "or_fetch repo ctx s") (auto split: if_splits sum.splits)
next
  case (Fetcher_wait d)
  with assms show ?thesis by (auto dest!: go_select_ready)
next
  case (Fetcher_holds e)
  with assms show ?thesis by (auto dest!: go_select_ready)
next
  case Fetcher_stopped
  with assms show ?thesis by simp
qed

lemma sender_step_cases:
  assumes "sender_step ctx ctx' pick chan = Some (sent, chan')"
  shows "sent = None \<and> chan' = chan \<or> (\<exists>e. sent = Some e \<and> chan = e # chan')"
  using assms by (cases chan) (auto simp: sender_step_def split: if_splits dest!: go_select_ready)

lemma step_mono:
  assumes "outbox_step repo lib source env x y"
  shows "sys_acked x \<subseteq> sys_acked y"
  using assms by cases (auto simp: crash_def)

context outbox_store
begin

lemma fetch_effect:
  assumes conforms and "or_fetch repo ctx s = (r, s')"
  shows "dom (docs s') = dom (docs s)"
    and "docs s' i = Some e' \<Longrightarrow>
      \<exists>e. docs s i = Some e \<and> ob_status e' = ob_status e \<and> ob_created_at e' = ob_created_at e"
    and "r = Inr e' \<Longrightarrow> ob_id e' \<in> dom (docs s)"
proof -
  note law = fetch_law [OF assms]
  show "dom (docs s') = dom (docs s)" using law by (auto simp: updated_def dom_def split: if_splits)
  show "docs s' i = Some e' \<Longrightarrow>
      \<exists>e. docs s i = Some e \<and> ob_status e' = ob_status e \<and> ob_created_at e' = ob_created_at e"
    using law by (auto simp: updated_def lock_update_def split: if_splits)
  show "ob_id e' \<in> dom (docs s)" if "r = Inr e'"
  proof -
    from that law obtain j e where je: "docs s j = Some e" "e' = lock_update maxms (now s) e" by (auto simp: sorted_match_def)
    with keyed [OF assms(1) je(1)] show ?thesis by auto
  qed
qed

lemma create_effect:
  assumes conforms and "outbox_create lib source repo ctx msg s = (r, s')"
  shows "docs s' i = Some e' \<Longrightarrow> docs s i = Some e' \<or> docs s i = None \<and> ob_status e' = status_processing"
    and "docs s i = Some e \<Longrightarrow> docs s' i = Some e"
    and "r = Inr e' \<Longrightarrow> ob_id e' \<in> dom (docs s')"
proof -
  have "s' = s \<and> (\<exists>err. r = Inl err) \<or> (\<exists>q p k t h. or_create repo ctx p (ev_uuid lib) k t h s = (q, s')
      \<and> (\<forall>e. r = Inr e \<longrightarrow> q = Inr e))"
    using assms(2) by (auto simp: outbox_create_def populate_headers_def Let_def split: sum.splits prod.splits)
  then obtain p k t h where d: "docs s' = docs s
      \<or> docs s (ev_uuid lib) = None \<and> docs s' = (docs s)(ev_uuid lib \<mapsto> new_entity (now s) p (ev_uuid lib) k t h)"
    and r: "\<And>e. r = Inr e \<Longrightarrow> docs s' (ob_id e) = Some e"
  proof (elim disjE exE conjE)
    fix err assume "s' = s" "r = Inl err"
    then show ?thesis using that [of "[]" "[]" "[]" "[]"] by simp
  next
    fix q p k t h assume q: "or_create repo ctx p (ev_uuid lib) k t h s = (q, s')" and r: "\<forall>e. r = Inr e \<longrightarrow> q = Inr e"
    note law = create_law [OF assms(1) q]
    have "docs s' (ob_id e) = Some e" if "r = Inr e" for e
      using law [THEN conjunct1, rule_format, of e] r that by (simp add: new_entity_def)
    then show ?thesis by (rule that [OF law [THEN conjunct2]])
  qed
  have st: "ob_status (new_entity (now s) p (ev_uuid lib) k t h) = status_processing" by (simp add: new_entity_def)
  have d': "docs s' j = docs s j \<or> j = ev_uuid lib \<and> docs s j = None
      \<and> docs s' j = Some (new_entity (now s) p (ev_uuid lib) k t h)" for j
    using d by (cases "j = ev_uuid lib") auto
  show "docs s' i = Some e' \<Longrightarrow> docs s i = Some e' \<or> docs s i = None \<and> ob_status e' = status_processing"
    using d' [of i] st by auto
  show "docs s i = Some e \<Longrightarrow> docs s' i = Some e" using d' [of i] by auto
  show "r = Inr e' \<Longrightarrow> ob_id e' \<in> dom (docs s')" using r by blast
qed

lemma handle_effect:
  assumes conforms and "oks_acked A b"
  shows "docs (handle_confirmation repo ctx b s) i = docs s i
    \<or> i \<in> A \<and> docs (handle_confirmation repo ctx b s) i = map_option (sent_update (now s)) (docs s i)"
proof -
  obtain ids where "ids \<subseteq> set (confirmed_ids b)"
    and d: "docs (handle_confirmation repo ctx b s) = updated_many ids (sent_update (now s)) (docs s)"
    using handle_confirmation_law [OF assms(1), of b ctx s] by blast
  with confirmed_acked [OF assms(2)] have "ids \<subseteq> A" by (meson subset_trans)
  then show ?thesis using d by (auto simp: updated_many_def)
qed

text \<open>What a step does to a stored message: the possible fates of the document with ID \<open>i\<close>.\<close>

lemma step_docs:
  assumes conforms
    and step: "outbox_step repo lib source env x y"
    and inv: "\<forall>b \<in> set (sys_batches x). oks_acked (sys_acked x) b"
  shows "(\<exists>e e'. docs (sys_store x) i = Some e \<and> docs (sys_store y) i = Some e'
        \<and> ob_created_at e' = ob_created_at e \<and> (ob_status e' = ob_status e \<or> i \<in> sys_acked x))
    \<or> docs (sys_store x) i = None \<and> (\<forall>e'. docs (sys_store y) i = Some e' \<longrightarrow> ob_status e' = status_processing)
    \<or> env (sys_store x) (sys_store y)"
  using step
proof cases
  case (create ms u ctx msg r s')
  note eff = create_effect [OF assms(1) create(2)]
  show ?thesis
  proof (cases "docs (sys_store x) i")
    case None
    with eff(1) [of i] create(1) show ?thesis by simp
  next
    case (Some e)
    with eff(2) [OF Some] create(1) show ?thesis by simp
  qed
next
  case (fetcher ctx pick timer f chan s')
  consider "s' = sys_store x" | r where "or_fetch repo ctx (sys_store x) = (r, s')"
    using fetcher_step_cases [OF fetcher(2)] by blast
  then show ?thesis
  proof cases
    case 1
    with fetcher(1) show ?thesis by (cases "docs (sys_store x) i") simp_all
  next
    case 2
    show ?thesis
    proof (cases "docs (sys_store x) i")
      case None
      then have "docs s' i = None" using fetch_effect(1) [OF assms(1) 2] by (metis domIff)
      with None fetcher(1) show ?thesis by simp
    next
      case (Some e)
      then obtain e' where e': "docs s' i = Some e'" using fetch_effect(1) [OF assms(1) 2] by (metis domD domI)
      with fetch_effect(2) [OF assms(1) 2 e'] Some fetcher(1) show ?thesis by simp
    qed
  qed
next
  case (handle b ctx)
  have b: "oks_acked (sys_acked x) b" using inv handle(2) by simp
  show ?thesis
    using handle_effect [OF assms(1) b, of ctx "sys_store x" i] handle(1)
    by (cases "docs (sys_store x) i") (auto simp: sent_update_def)
next
  case (world s')
  then show ?thesis by simp
qed (cases "docs (sys_store x) i"; simp add: crash_def)+

lemma step_sent_acked:
  assumes conforms and env: "\<And>s s' i. env s s' \<Longrightarrow> docs s' i = docs s i \<or> docs s' i = None"
    and inv: "outbox_inv docs stored x" and step: "outbox_step repo lib source env x y"
    and e': "docs (sys_store y) i = Some e'" "ob_status e' = status_sent"
  shows "i \<in> sys_acked y"
proof -
  note mono = step_mono [OF step]
  have known: "docs (sys_store x) i = Some e \<Longrightarrow> ob_status e = status_sent \<Longrightarrow> i \<in> sys_acked x" for e
    using inv by (auto simp: outbox_inv_def)
  have batches: "\<forall>b \<in> set (sys_batches x). oks_acked (sys_acked x) b"
    using inv by (simp add: outbox_inv_def channels_inv_def)
  from step_docs [OF assms(1) step batches, of i] e' show ?thesis
  proof (elim disjE exE conjE, goal_cases)
    case (4)
    with env [OF 4(3), of i] known [of e'] mono show ?case by auto
  qed (use known mono in auto)
qed

text \<open>A step keeps the invariant, with what is in the store afterwards counted as stored.\<close>

lemma step_inv:
  assumes conforms and env: "\<And>s s' i. env s s' \<Longrightarrow> docs s' i = docs s i \<or> docs s' i = None"
    and inv: "outbox_inv docs stored x" and step: "outbox_step repo lib source env x y"
  shows "outbox_inv docs (stored \<union> dom (docs (sys_store y))) y"
proof -
  let ?S = "stored \<union> dom (docs (sys_store y))"
  note mono = step_mono [OF step]
  note sent = step_sent_acked [OF assms(1) env inv step]
  have x: "channels_inv ?S (sys_acked y) x" and dx: "dom (docs (sys_store x)) \<subseteq> ?S"
    using inv mono by (auto simp: outbox_inv_def elim!: channels_inv_mono)
  note x = x [unfolded channels_inv_def, simplified]
  have chans: "channels_inv ?S (sys_acked y) y"
    using step
  proof cases
    case (create ms u ctx msg r s')
    have "ob_id e \<in> dom (docs (sys_store y))" if "r = Inr e" for e
      using create_effect(3) [OF assms(1) create(2) that] create(1) by simp
    with x create(1) show ?thesis by (auto simp: channels_inv_def split: sum.splits)
  next
    case (send_func e pick ctx timer err chan)
    from x known_in [of _ "sys_pending x" e] send_func(2) have "ob_id e \<in> ?S" by blast
    with send_func_cases [OF send_func(3)] x send_func(1) show ?thesis
      by (auto simp: channels_inv_def known_remove1)
  next
    case (fetcher ctx pick timer f chan s')
    from fetcher_step_cases [OF fetcher(2)] show ?thesis
    proof (elim disjE exE conjE)
      fix r assume r: "or_fetch repo ctx (sys_store x) = (r, s')" "chan = sys_entities x"
        "held f = (case r of Inl _ \<Rightarrow> [] | Inr e \<Rightarrow> [e])"
      from fetch_effect(3) [OF assms(1) r(1)] dx have "known ?S (held f)"
        unfolding r(3) by (auto split: sum.splits)
      then show ?thesis using x fetcher(1) r(2) by (simp add: channels_inv_def)
    qed (use x fetcher(1) in \<open>auto simp: channels_inv_def\<close>)
  next
    case (sender ctx ctx' pick sent chan)
    from sender_step_cases [OF sender(2)] x sender(1) show ?thesis
      by (auto simp: channels_inv_def)
  next
    case (confirmer ctx ctx' pick tick runs confirm results batches)
    from confirmer_inv [OF confirmer(2), of "sys_acked y"] x confirmer(1) show ?thesis
      by (simp add: channels_inv_def)
  next
    case (handle b ctx)
    then show ?thesis using x by (auto simp: channels_inv_def dest: notin_set_remove1)
  qed (use x in \<open>auto simp: channels_inv_def crash_def known_remove1 elim: oks_acked_mono\<close>)
  have acked: "sys_acked y \<subseteq> ?S"
    using step
  proof cases
    case (deliver e)
    with x known_in [of ?S "sys_inflight x" e] inv show ?thesis by (auto simp: outbox_inv_def)
  next
    case (ack e)
    with x known_in [of ?S "sys_inflight x" e] inv show ?thesis by (auto simp: outbox_inv_def)
  qed (use inv in \<open>auto simp: outbox_inv_def crash_def\<close>)
  show ?thesis unfolding outbox_inv_def using chans sent acked by blast
qed

end

subsection \<open>The world: the clock and the expiring index\<close>

text \<open>
  \<^verbatim>\<open>EnsureIndexes\<close> creates an index that expires documents a number of seconds after their
  \<^verbatim>\<open>createdAt\<close>, whatever their status; the server removes an expired document at some time of its own.
\<close>

definition ttl_seconds :: int where "ttl_seconds = 5 * 24 * 60 * 60"

text \<open>The indexes of the outbox collection: keys with their order, name, and expiry if any.\<close>

record index_model =
  ix_keys :: "(string \<times> int) list"
  ix_name :: string
  ix_expire :: "int option"

definition outbox_indexes :: "index_model list" where
  "outbox_indexes =
     [\<lparr>ix_keys = [(''createdAt'', 1)], ix_name = ''outbox_createdAt_ttl'', ix_expire = Some ttl_seconds\<rparr>,
      \<lparr>ix_keys = [(''status'', 1), (''nextAttemptAfter'', 1), (''lockExpiresAt'', 1)],
       ix_name = ''outbox_status_nextAttemptAfter_lockExpiresAt'', ix_expire = None\<rparr>]"

text \<open>\<open>create_many\<close> is the driver's \<^verbatim>\<open>CreateMany\<close> under a timeout.\<close>

definition ensure_indexes :: "(duration \<Rightarrow> index_model list \<Rightarrow> (go_error, string list) result) \<Rightarrow> go_error option" where
  "ensure_indexes create_many =
     (case create_many (30 * second) outbox_indexes of Inl err \<Rightarrow> Some err | Inr _ \<Rightarrow> None)"

definition ttl_expired :: "int \<Rightarrow> outbox_entity \<Rightarrow> bool" where
  "ttl_expired now e \<longleftrightarrow> ob_created_at e + ttl_seconds * 1000 \<le> now"

text \<open>It is the only index that expires documents.\<close>

lemma ttl_expired_index:
  "ttl_expired now e \<longleftrightarrow> (\<exists>ix \<in> set outbox_indexes. \<exists>t. ix_expire ix = Some t \<and> map fst (ix_keys ix) = [''createdAt'']
     \<and> ob_created_at e + t * 1000 \<le> now)"
  by (simp add: ttl_expired_def outbox_indexes_def)

definition outbox_world :: "'s outbox_driver \<Rightarrow> 's \<Rightarrow> 's \<Rightarrow> bool" where
  "outbox_world od s s' \<longleftrightarrow> (\<forall>i. od_docs od s' i = od_docs od s i
     \<or> (\<exists>e. od_docs od s i = Some e \<and> ttl_expired (od_now od s') e \<and> od_docs od s' i = None))"

text \<open>The steps of a system on a given driver.\<close>

definition mongo_step :: "'s outbox_driver \<Rightarrow> duration \<Rightarrow> 'v event_lib \<Rightarrow> string \<Rightarrow> 's outbox_system \<Rightarrow> 's outbox_system \<Rightarrow> bool" where
  "mongo_step od mb lib source = outbox_step (outbox_repository od mb) lib source (outbox_world od)"

lemma world_env: "outbox_world od s s' \<Longrightarrow> od_docs od s' i = od_docs od s i \<or> od_docs od s' i = None"
  by (auto simp: outbox_world_def)

lemma outbox_inv_mono: "outbox_inv docs A x \<Longrightarrow> A \<subseteq> B \<Longrightarrow> outbox_inv docs B x"
  unfolding outbox_inv_def using channels_inv_mono [of A "sys_acked x" x B "sys_acked x"] by blast

text \<open>The IDs that were in the store in a state the system went through.\<close>

definition ever_stored ::
  "'s outbox_driver \<Rightarrow> duration \<Rightarrow> 'v event_lib \<Rightarrow> string \<Rightarrow> 's \<Rightarrow> 's outbox_system \<Rightarrow> string set" where
  "ever_stored od mb lib source s0 x = {i. \<exists>z. outbox_reach (outbox_repository od mb) lib source (outbox_world od) s0 z
     \<and> rtranclp (mongo_step od mb lib source) z x \<and> i \<in> dom (od_docs od (sys_store z))}"

lemma ever_stored_now:
  "outbox_reach (outbox_repository od mb) lib source (outbox_world od) s0 x \<Longrightarrow>
     dom (od_docs od (sys_store x)) \<subseteq> ever_stored od mb lib source s0 x"
  unfolding ever_stored_def by blast

lemma ever_stored_step:
  "mongo_step od mb lib source x y \<Longrightarrow> ever_stored od mb lib source s0 x \<subseteq> ever_stored od mb lib source s0 y"
  unfolding ever_stored_def by (blast intro: rtranclp.rtrancl_into_rtrancl)

lemma reach_inv:
  assumes "outbox_conforms od"
    and fresh: "\<forall>i e. od_docs od s0 i = Some e \<longrightarrow> ob_status e = status_processing"
    and reach: "outbox_reach (outbox_repository od mb) lib source (outbox_world od) s0 x"
  shows "outbox_inv (od_docs od) (ever_stored od mb lib source s0 x) x"
  using reach
proof induction
  case init
  have "dom (od_docs od s0) \<subseteq> ever_stored od mb lib source s0 (system_start s0)"
    using ever_stored_now [OF outbox_reach.init] by (simp add: system_start_def)
  then show ?case using fresh
    by (auto simp: outbox_inv_def channels_inv_def system_start_def entities_capacity_def confirm_capacity_def)
next
  case (step x y)
  have "ever_stored od mb lib source s0 x \<union> dom (od_docs od (sys_store y)) \<subseteq> ever_stored od mb lib source s0 y"
    using ever_stored_step [of od mb lib source x y s0] ever_stored_now [OF outbox_reach.step [OF step(1,2)]] step(2)
    by (simp add: mongo_step_def)
  with mongo_outbox.step_inv [OF assms(1) world_env step(3) step(2)] show ?case by (rule outbox_inv_mono)
qed

subsection \<open>The properties\<close>

text \<open>
  C2. No message is marked as sent before Kafka acknowledged it, and every message Kafka acknowledged was in the store in an
  earlier state of the same run, so that none is sent whose insertion failed; the channels never
  exceed their capacities and a batch of confirmations never exceeds 100, under every interleaving of
  the fetcher, the sender, the callbacks, the confirmer's goroutines, the callers and crashes.
\<close>

theorem outbox_sent_implies_acked:
  assumes "outbox_conforms od"
    and "\<forall>i e. od_docs od s0 i = Some e \<longrightarrow> ob_status e = status_processing"
    and "outbox_reach (outbox_repository od mb) lib source (outbox_world od) s0 x"
  shows "(\<forall>i e. od_docs od (sys_store x) i = Some e \<longrightarrow> ob_status e = status_sent \<longrightarrow> i \<in> sys_acked x)
    \<and> (\<forall>i \<in> sys_acked x. \<exists>z. outbox_reach (outbox_repository od mb) lib source (outbox_world od) s0 z
         \<and> rtranclp (mongo_step od mb lib source) z x \<and> i \<in> dom (od_docs od (sys_store z)))
    \<and> length (sys_entities x) \<le> 100 \<and> length (sys_confirm x) \<le> 1000
    \<and> (\<forall>b \<in> set (sys_batches x). length b \<le> 100)"
proof -
  have inv: "outbox_inv (od_docs od) (ever_stored od mb lib source s0 x) x" by (rule reach_inv [OF assms])
  then have "\<forall>i \<in> sys_acked x. i \<in> ever_stored od mb lib source s0 x" by (auto simp: outbox_inv_def)
  with inv show ?thesis
    by (simp add: ever_stored_def outbox_inv_def channels_inv_def entities_capacity_def confirm_capacity_def)
qed

lemma mongo_step_fate:
  assumes "outbox_conforms od" and inv: "outbox_inv (od_docs od) stored x" and step: "mongo_step od mb lib source x y"
    and e: "od_docs od (sys_store x) i = Some e" and st: "ob_status e = status_processing \<or> i \<in> sys_acked x"
  shows "(\<exists>e'. od_docs od (sys_store y) i = Some e' \<and> ob_created_at e' = ob_created_at e
       \<and> (ob_status e' = status_processing \<or> i \<in> sys_acked y))
    \<or> od_docs od (sys_store y) i = None \<and> ttl_expired (od_now od (sys_store y)) e"
proof -
  have batches: "\<forall>b \<in> set (sys_batches x). oks_acked (sys_acked x) b"
    using inv by (simp add: outbox_inv_def channels_inv_def)
  note step = step [unfolded mongo_step_def]
  note mono = step_mono [OF step]
  from mongo_outbox.step_docs [OF assms(1) step batches, of i] show ?thesis
  proof (elim disjE exE conjE, goal_cases)
    case (1 e1 e2)
    with e st mono show ?case by auto
  next
    case (2 e1 e2)
    with e st mono show ?case by auto
  next
    case 3
    with e show ?case by simp
  next
    case 4
    with e st mono show ?case unfolding outbox_world_def by (metis option.inject subsetD)
  qed
qed

definition kept :: "'s outbox_driver \<Rightarrow> string \<Rightarrow> outbox_entity \<Rightarrow> 's outbox_system \<Rightarrow> bool" where
  "kept od i e y \<longleftrightarrow> (\<exists>e'. od_docs od (sys_store y) i = Some e' \<and> ob_created_at e' = ob_created_at e
     \<and> (ob_status e' = status_processing \<or> i \<in> sys_acked y))"

lemma kept_step:
  assumes "outbox_conforms od" "outbox_inv (od_docs od) stored x" "mongo_step od mb lib source x y" "kept od i e x"
  shows "kept od i e y \<or> ttl_expired (od_now od (sys_store y)) e"
proof -
  from assms(4) obtain e' where e': "od_docs od (sys_store x) i = Some e'" "ob_created_at e' = ob_created_at e"
    "ob_status e' = status_processing \<or> i \<in> sys_acked x" by (auto simp: kept_def)
  from mongo_step_fate [OF assms(1-3) e'(1,3)] e'(2) show ?thesis by (auto simp: kept_def ttl_expired_def)
qed

lemma kept_run:
  assumes "outbox_conforms od" and "rtranclp (mongo_step od mb lib source) x y"
    and "outbox_inv (od_docs od) stored x" "kept od i e x"
  shows "(\<exists>stored. outbox_inv (od_docs od) stored y) \<and> (kept od i e y
    \<or> (\<exists>z. rtranclp (mongo_step od mb lib source) x z \<and> rtranclp (mongo_step od mb lib source) z y
          \<and> ttl_expired (od_now od (sys_store z)) e))"
  using assms(2)
proof induction
  case base
  show ?case using assms(3,4) by blast
next
  case (step y z)
  from step(3) obtain S where S: "outbox_inv (od_docs od) S y" by blast
  have inv: "\<exists>S. outbox_inv (od_docs od) S z"
    using mongo_outbox.step_inv [OF assms(1) world_env S step(2) [unfolded mongo_step_def]] by blast
  have xz: "rtranclp (mongo_step od mb lib source) x z" using step(1,2) by (rule rtranclp.rtrancl_into_rtrancl)
  from step(3) consider "kept od i e y" | w where "rtranclp (mongo_step od mb lib source) x w"
    "rtranclp (mongo_step od mb lib source) w y" "ttl_expired (od_now od (sys_store w)) e" by blast
  then show ?case
  proof cases
    case 1
    with kept_step [OF assms(1) S step(2)] have "kept od i e z \<or> ttl_expired (od_now od (sys_store z)) e" by blast
    with inv xz show ?thesis by blast
  next
    case 2
    with inv step(2) show ?thesis by (meson rtranclp.rtrancl_into_rtrancl)
  qed
qed

text \<open>
  C1. No stored message is lost: in every continuation of a reachable state it is still stored, and it
  is still to be sent or acknowledged by Kafka, unless at some moment in between the clock was five
  days past its creation, when the index may have expired it even though it was never sent.
\<close>

theorem outbox_nothing_lost:
  assumes "outbox_conforms od"
    and "\<forall>i e. od_docs od s0 i = Some e \<longrightarrow> ob_status e = status_processing"
    and "outbox_reach (outbox_repository od mb) lib source (outbox_world od) s0 x"
    and "rtranclp (mongo_step od mb lib source) x y"
    and "od_docs od (sys_store x) i = Some e" and "ob_status e = status_processing"
  shows "(\<exists>e'. od_docs od (sys_store y) i = Some e' \<and> (ob_status e' = status_processing \<or> i \<in> sys_acked y))
    \<or> (\<exists>z. rtranclp (mongo_step od mb lib source) x z \<and> rtranclp (mongo_step od mb lib source) z y
          \<and> ttl_expired (od_now od (sys_store z)) e)"
proof -
  have "kept od i e x" using assms(5,6) by (simp add: kept_def)
  from kept_run [OF assms(1,4) reach_inv [OF assms(1-3)] this] show ?thesis unfolding kept_def by blast
qed

text \<open>
  C12. A fetch takes a message that is due (\<^verbatim>\<open>PROCESSING\<close>, with an expired lock and a passed attempt time),
  locks it for 30 seconds, counts the attempt and sets the next attempt after \<open>min (30 s * 2 ^ n) max\<close>,
  \<open>n\<close> being the attempts before; no other fetch returns the message before both times have passed,
  whatever happens to other documents. Of the due messages it takes the one whose attempt is due the longest, and the oldest of
  those; and it reports that there is none only if no message is due.
\<close>

theorem outbox_fetch_locks:
  assumes "outbox_conforms od"
    and "repo_fetch_and_lock od (max_backoff_millis mb) ctx s = (r, s1)"
  shows "(\<forall>e'. r = Inr e' \<longrightarrow> (\<exists>e. od_docs od s (ob_id e') = Some e \<and> fetchable (od_now od s) e
        \<and> (\<forall>j d a b. od_docs od s j = Some d \<longrightarrow> fetchable (od_now od s) d \<longrightarrow> ob_next_attempt_after d = Some a \<longrightarrow>
             ob_next_attempt_after e = Some b \<longrightarrow> b < a \<or> b = a \<and> ob_created_at e \<le> ob_created_at d)
        \<and> e' = e\<lparr>ob_lock_expires_at := Some (od_now od s + 30000), ob_attempts := ob_attempts e + 1,
             ob_next_attempt_after := Some (od_now od s + min (30000 * 2 ^ ob_attempts e) (max_backoff_millis mb))\<rparr>
        \<and> od_docs od s1 = (od_docs od s)(ob_id e' \<mapsto> e')
        \<and> (\<forall>s2 ctx2 e2 s3. od_docs od s2 (ob_id e') = Some e' \<longrightarrow>
              repo_fetch_and_lock od (max_backoff_millis mb) ctx2 s2 = (Inr e2, s3) \<longrightarrow> ob_id e2 = ob_id e' \<longrightarrow>
              od_now od s + 30000 < od_now od s2
              \<and> od_now od s + min (30000 * 2 ^ ob_attempts e) (max_backoff_millis mb) < od_now od s2)))
    \<and> (\<forall>err. r = Inl err \<longrightarrow> errors_is err ErrOutboxEntityNotFound \<longrightarrow>
         od_docs od s1 = od_docs od s \<and> (\<forall>i e. od_docs od s i = Some e \<longrightarrow> \<not> fetchable (od_now od s) e))"
proof -
  let ?maxms = "max_backoff_millis mb"
  have repo: "or_fetch (outbox_repository od mb) = repo_fetch_and_lock od ?maxms" by (simp add: outbox_repository_def)
  let ?first = "\<lambda>s e. \<forall>j d a b. od_docs od s j = Some d \<longrightarrow> fetchable (od_now od s) d \<longrightarrow> ob_next_attempt_after d = Some a \<longrightarrow>
             ob_next_attempt_after e = Some b \<longrightarrow> b < a \<or> b = a \<and> ob_created_at e \<le> ob_created_at d"
  have taken: "\<exists>e. od_docs od s (ob_id e') = Some e \<and> fetchable (od_now od s) e \<and> ?first s e \<and> e' = lock_update ?maxms (od_now od s) e
      \<and> od_docs od s' = (od_docs od s)(ob_id e' \<mapsto> e')"
    if "repo_fetch_and_lock od ?maxms ctx s = (Inr e', s')" for ctx s e' s'
  proof -
    from mongo_outbox.fetch_law [OF assms(1), of mb ctx s "Inr e'" s'] that repo
    obtain i e where m: "sorted_match fetch_sort (fetchable (od_now od s)) (od_docs od s) i e"
      and e: "e' = lock_update ?maxms (od_now od s) e" "od_docs od s' = updated i (lock_update ?maxms (od_now od s)) (od_docs od s)"
      by auto
    have d: "od_docs od s i = Some e" "fetchable (od_now od s) e" using m by (simp_all add: sorted_match_def)
    have "?first s e"
    proof (intro allI impI)
      fix j d a b assume d: "od_docs od s j = Some d" "fetchable (od_now od s) d" "ob_next_attempt_after d = Some a"
        "ob_next_attempt_after e = Some b"
      then have "\<not> sorts_before fetch_sort d e" using m by (simp add: sorted_match_def)
      then show "b < a \<or> b = a \<and> ob_created_at e \<le> ob_created_at d" using d(3,4) by (auto simp: fetch_sort_def)
    qed
    moreover have "ob_id e' = i" using outbox_laws(1) [OF assms(1) d(1)] e(1) by simp
    ultimately show ?thesis using d e by (auto simp: updated_def)
  qed
  have again: "od_now od s + 30000 < od_now od s2 \<and> od_now od s + min (30000 * 2 ^ ob_attempts e) ?maxms < od_now od s2"
    if "e' = lock_update ?maxms (od_now od s) e" "od_docs od s2 (ob_id e') = Some e'"
      "repo_fetch_and_lock od ?maxms ctx2 s2 = (Inr e2, s3)" "ob_id e2 = ob_id e'" for e e' s2 ctx2 e2 s3
    using taken [OF that(3)] that(1,2,4) by (auto simp: fetchable_def before_def lock_update_def retry_delay_def)
  have none: "od_docs od s1 = od_docs od s \<and> (\<forall>i e. od_docs od s i = Some e \<longrightarrow> \<not> fetchable (od_now od s) e)"
    if "r = Inl err" "errors_is err ErrOutboxEntityNotFound" for err
    using mongo_outbox.fetch_not_found [OF assms(1), of mb ctx s err s1] that assms(2) repo by simp
  have some: "\<exists>e. od_docs od s (ob_id e') = Some e \<and> fetchable (od_now od s) e \<and> ?first s e \<and> e' = lock_update ?maxms (od_now od s) e
        \<and> od_docs od s1 = (od_docs od s)(ob_id e' \<mapsto> e')" if "r = Inr e'" for e'
    using taken [of ctx s e' s1] assms(2) that by simp
  show ?thesis
  proof (intro conjI allI impI, goal_cases)
    case (1 e')
    from some [OF 1] obtain e where e: "od_docs od s (ob_id e') = Some e" "fetchable (od_now od s) e" "?first s e"
      "e' = lock_update ?maxms (od_now od s) e" "od_docs od s1 = (od_docs od s)(ob_id e' \<mapsto> e')" by blast
    show ?case
      by (rule exI [of _ e], intro conjI allI impI, rule e(1), rule e(2), use e(3) in blast, unfold e(4) lock_update_def retry_delay_def,
          rule refl, rule e(5) [unfolded e(4) lock_update_def retry_delay_def])
        (use again [OF e(4)] in \<open>simp_all add: e(4) lock_update_def retry_delay_def\<close>)
  qed (use none in blast)+
qed

text \<open>
  At shutdown the confirmer flushes what it collected, but hands its goroutine the cancelled
  context: on a driver that refuses finished contexts no message of any batch is marked, so that
  acknowledged messages stay to be sent and are sent again.
\<close>

theorem confirmer_shutdown_marks_nothing:
  assumes "ctx_done ctx"
    and "\<And>ids f s. \<exists>e. od_update_many od ctx ids f s = (Some e, s)"
  shows "confirmer_step ctx ctx' pick tick confirm results batches
      = Some (False, confirm, [], if results = [] then batches else batches @ [results])
    \<and> handle_confirmation (outbox_repository od mb) ctx b s = s"
proof -
  have "snd (repo_update_as_sent od ctx ids s) = s" for ids
    using assms(2) [of ids "sent_update (od_now od s)" s] by (auto simp: repo_update_as_sent_def Let_def)
  then show ?thesis
    using assms(1) by (auto simp: confirmer_step_def flush_def handle_confirmation_def outbox_repository_def)
qed

subsection \<open>A run of the system in memory\<close>

definition sample_entity :: outbox_entity where
  "sample_entity = new_entity 0 ''payload'' ''m1'' ''key'' ''orders'' []"

definition sample_locked :: outbox_entity where "sample_locked = lock_update 3600000 100000 sample_entity"

definition sample_sent :: outbox_entity where "sample_sent = sent_update 100000 sample_locked"

definition sample_repo :: "mem_outbox_state outbox_repo" where
  "sample_repo = outbox_repository mem_od hour"

definition sample_lib :: "unit event_lib" where
  "sample_lib = \<lparr>ev_uuid = ''m2'', ev_millis = 0, ev_type = (\<lambda>_. ''orders.v1.Created''), ev_inject = (\<lambda>_ h. h),
     ev_marshal = (\<lambda>_. Inr ''payload'')\<rparr>"

abbreviation sample_state :: "outbox_entity \<Rightarrow> fetcher_state \<Rightarrow> outbox_entity list \<Rightarrow> outbox_entity list \<Rightarrow> confirm_result list
    \<Rightarrow> confirm_result list \<Rightarrow> confirm_result list list \<Rightarrow> string set \<Rightarrow> mem_outbox_state outbox_system" where
  "sample_state d f ents infl conf res bat acked \<equiv> \<lparr>sys_store = (100000, [d]), sys_pending = [], sys_fetcher = f,
     sys_entities = ents, sys_inflight = infl, sys_confirm = conf, sys_results = res, sys_batches = bat,
     sys_acked = acked\<rparr>"

lemma sample_fetch: "repo_fetch_and_lock mem_od 3600000 ctx_background (100000, [sample_entity])
    = (Inr sample_locked, (100000, [sample_locked]))"
  by (simp add: repo_fetch_and_lock_def mem_outbox_find_def firsts_def first_by_def fetchable_def before_def
      sample_entity_def new_entity_def sample_locked_def ctx_background_def)

lemma sample_mark: "handle_confirmation sample_repo ctx_background [(''m1'', None)] (100000, [sample_locked])
    = (100000, [sample_sent])"
  by (simp add: handle_confirmation_def confirmed_ids_def sample_repo_def outbox_repository_def repo_update_as_sent_def
      mem_outbox_update_def sample_sent_def sample_locked_def sample_entity_def ctx_background_def)

lemma sample_id [simp]: "ob_id sample_locked = ''m1''" "ob_id sample_entity = ''m1''" "ob_id sample_sent = ''m1''"
  by (simp_all add: sample_locked_def sample_entity_def sample_sent_def)

lemma sample_run_start:
  "outbox_reach sample_repo sample_lib ''shop'' (outbox_world mem_od) (100000, [sample_entity])
     (sample_state sample_entity Fetcher_loop [] [] [] [] [] {})"
  using outbox_reach.init [of sample_repo sample_lib "''shop''" "outbox_world mem_od" "(100000, [sample_entity])"]
  by (simp add: system_start_def)

lemma sample_steps:
  fixes step :: "mem_outbox_state outbox_system \<Rightarrow> mem_outbox_state outbox_system \<Rightarrow> bool"
  assumes step: "step = outbox_step sample_repo sample_lib ''shop'' (outbox_world mem_od)"
  shows "step (sample_state sample_entity Fetcher_loop [] [] [] [] [] {})
      (sample_state sample_locked (Fetcher_holds sample_locked) [] [] [] [] [] {})"
    and "step (sample_state sample_locked (Fetcher_holds sample_locked) [] [] [] [] [] {})
      (sample_state sample_locked Fetcher_loop [sample_locked] [] [] [] [] {})"
    and "step (sample_state sample_locked Fetcher_loop [sample_locked] [] [] [] [] {})
      (sample_state sample_locked Fetcher_loop [] [sample_locked] [] [] [] {})"
    and "step (sample_state sample_locked Fetcher_loop [] [sample_locked] [] [] [] {})
      (sample_state sample_locked Fetcher_loop [] [] [(''m1'', None)] [] [] {''m1''})"
    and "step (sample_state sample_locked Fetcher_loop [] [] [(''m1'', None)] [] [] {''m1''})
      (sample_state sample_locked Fetcher_loop [] [] [] [(''m1'', None)] [] {''m1''})"
    and "step (sample_state sample_locked Fetcher_loop [] [] [] [(''m1'', None)] [] {''m1''})
      (sample_state sample_locked Fetcher_loop [] [] [] [] [[(''m1'', None)]] {''m1''})"
    and "step (sample_state sample_locked Fetcher_loop [] [] [] [] [[(''m1'', None)]] {''m1''})
      (sample_state sample_sent Fetcher_loop [] [] [] [] [] {''m1''})"
proof -
  let ?bg = ctx_background
  have repo: "or_fetch sample_repo ?bg (100000, [sample_entity]) = (Inr sample_locked, (100000, [sample_locked]))"
    using sample_fetch by (simp add: sample_repo_def outbox_repository_def max_backoff_millis_def go_quot_def)
  have bg: "\<not> ctx_done ?bg" by (simp add: ctx_background_def)
  have f1: "fetcher_step sample_repo ?bg 0 False Fetcher_loop [] (100000, [sample_entity])
      = Some (Fetcher_holds sample_locked, [], (100000, [sample_locked]))" using repo bg by simp
  have f2: "fetcher_step sample_repo ?bg 0 False (Fetcher_holds sample_locked) [] (100000, [sample_locked])
      = Some (Fetcher_loop, [sample_locked], (100000, [sample_locked]))"
    using bg by (simp add: go_select_def entities_capacity_def)
  have f3: "sender_step ?bg ?bg 0 [sample_locked] = Some (Some sample_locked, [])"
    using bg by (simp add: sender_step_def go_select_def)
  have f4: "confirmer_step ?bg ?bg 0 False [(''m1'', None)] [] [] = Some (True, [], [(''m1'', None)], [])"
    using bg by (simp add: confirmer_step_def go_select_def confirmer_receive_def)
  have f5: "confirmer_step ?bg ?bg 0 True [] [(''m1'', None)] [] = Some (True, [], [], [[(''m1'', None)]])"
    using bg by (simp add: confirmer_step_def go_select_def flush_def)
  show "step (sample_state sample_entity Fetcher_loop [] [] [] [] [] {})
      (sample_state sample_locked (Fetcher_holds sample_locked) [] [] [] [] [] {})"
    using outbox_step.fetcher [where x = "sample_state sample_entity Fetcher_loop [] [] [] [] [] {}"] f1
    unfolding step by fastforce
  show "step (sample_state sample_locked (Fetcher_holds sample_locked) [] [] [] [] [] {})
      (sample_state sample_locked Fetcher_loop [sample_locked] [] [] [] [] {})"
    using outbox_step.fetcher [where x = "sample_state sample_locked (Fetcher_holds sample_locked) [] [] [] [] [] {}"] f2
    unfolding step by fastforce
  show "step (sample_state sample_locked Fetcher_loop [sample_locked] [] [] [] [] {})
      (sample_state sample_locked Fetcher_loop [] [sample_locked] [] [] [] {})"
    using outbox_step.sender [where x = "sample_state sample_locked Fetcher_loop [sample_locked] [] [] [] [] {}"] f3
    unfolding step by fastforce
  show "step (sample_state sample_locked Fetcher_loop [] [sample_locked] [] [] [] {})
      (sample_state sample_locked Fetcher_loop [] [] [(''m1'', None)] [] [] {''m1''})"
    using outbox_step.ack [where x = "sample_state sample_locked Fetcher_loop [] [sample_locked] [] [] [] {}" and e = sample_locked]
    unfolding step by (simp add: confirm_capacity_def)
  show "step (sample_state sample_locked Fetcher_loop [] [] [(''m1'', None)] [] [] {''m1''})
      (sample_state sample_locked Fetcher_loop [] [] [] [(''m1'', None)] [] {''m1''})"
    using outbox_step.confirmer [where x = "sample_state sample_locked Fetcher_loop [] [] [(''m1'', None)] [] [] {''m1''}"] f4
    unfolding step by fastforce
  show "step (sample_state sample_locked Fetcher_loop [] [] [] [(''m1'', None)] [] {''m1''})
      (sample_state sample_locked Fetcher_loop [] [] [] [] [[(''m1'', None)]] {''m1''})"
    using outbox_step.confirmer [where x = "sample_state sample_locked Fetcher_loop [] [] [] [(''m1'', None)] [] {''m1''}"] f5
    unfolding step by fastforce
  show "step (sample_state sample_locked Fetcher_loop [] [] [] [] [[(''m1'', None)]] {''m1''})
      (sample_state sample_sent Fetcher_loop [] [] [] [] [] {''m1''})"
    using outbox_step.handle [where repo = sample_repo and lib = sample_lib and source = "''shop''"
        and env = "outbox_world mem_od" and x = "sample_state sample_locked Fetcher_loop [] [] [] [] [[(''m1'', None)]] {''m1''}"
        and b = "[(''m1'', None)]" and ctx = ?bg] sample_mark
    unfolding step by (simp add: sample_mark)
qed

lemma sample_run_end:
  "outbox_reach sample_repo sample_lib ''shop'' (outbox_world mem_od) (100000, [sample_entity])
     (sample_state sample_sent Fetcher_loop [] [] [] [] [] {''m1''})"
  by (rule outbox_reach.step, rule outbox_reach.step, rule outbox_reach.step, rule outbox_reach.step,
      rule outbox_reach.step, rule outbox_reach.step, rule outbox_reach.step, rule sample_run_start,
      (rule sample_steps, rule refl)+)

lemma sample_processing: "\<forall>i e. od_docs mem_od (100000, [sample_entity]) i = Some e \<longrightarrow> ob_status e = status_processing"
  by (simp add: first_by_def sample_entity_def new_entity_def)

lemma outbox_sent_implies_acked_witness:
  "ob_status sample_sent = status_sent \<and> ''m1'' \<in> sys_acked (sample_state sample_sent Fetcher_loop [] [] [] [] [] {''m1''})
   \<and> (\<exists>z. rtranclp (mongo_step mem_od hour sample_lib ''shop'') z (sample_state sample_sent Fetcher_loop [] [] [] [] [] {''m1''})
        \<and> ''m1'' \<in> dom (od_docs mem_od (sys_store z)))"
proof -
  note result = outbox_sent_implies_acked [OF mem_outbox_conforms sample_processing
      sample_run_end [unfolded sample_repo_def]]
  have st: "ob_status sample_sent = status_sent" by (simp add: sample_sent_def sent_update_def)
  have d: "od_docs mem_od (sys_store (sample_state sample_sent Fetcher_loop [] [] [] [] [] {''m1''})) ''m1'' = Some sample_sent"
    by (simp add: first_by_def)
  from result [THEN conjunct1, rule_format, OF d st]
  have acked: "''m1'' \<in> sys_acked (sample_state sample_sent Fetcher_loop [] [] [] [] [] {''m1''})" .
  from result [THEN conjunct2, THEN conjunct1, rule_format, OF acked] st acked show ?thesis by blast
qed

lemma outbox_nothing_lost_witness:
  "\<exists>x y. rtranclp (mongo_step mem_od hour sample_lib ''shop'') x y
    \<and> od_docs mem_od (sys_store x) ''m1'' = Some sample_entity
    \<and> ((\<exists>e'. od_docs mem_od (sys_store y) ''m1'' = Some e' \<and> (ob_status e' = status_processing \<or> ''m1'' \<in> sys_acked y))
       \<or> (\<exists>z. rtranclp (mongo_step mem_od hour sample_lib ''shop'') x z \<and> rtranclp (mongo_step mem_od hour sample_lib ''shop'') z y
          \<and> ttl_expired (od_now mem_od (sys_store z)) sample_entity))"
proof -
  let ?x = "sample_state sample_entity Fetcher_loop [] [] [] [] [] {}"
  let ?y = "sample_state sample_locked (Fetcher_holds sample_locked) [] [] [] [] [] {}"
  have run: "rtranclp (mongo_step mem_od hour sample_lib ''shop'') ?x ?y"
    using sample_steps(1) [OF refl] by (intro r_into_rtranclp) (simp add: mongo_step_def sample_repo_def)
  have d: "od_docs mem_od (sys_store ?x) ''m1'' = Some sample_entity" by (simp add: first_by_def)
  have st: "ob_status sample_entity = status_processing" by (simp add: sample_entity_def new_entity_def)
  from outbox_nothing_lost [OF mem_outbox_conforms sample_processing sample_run_start [unfolded sample_repo_def] run d st] run d
  show ?thesis by blast
qed

lemma outbox_fetch_locks_witness:
  "ob_lock_expires_at sample_locked = Some 130000 \<and> ob_attempts sample_locked = 1
   \<and> ob_next_attempt_after sample_locked = Some 130000"
proof -
  have "repo_fetch_and_lock mem_od (max_backoff_millis hour) ctx_background (100000, [sample_entity])
      = (Inr sample_locked, (100000, [sample_locked]))"
    using sample_fetch by (simp add: max_backoff_millis_def go_quot_def)
  from outbox_fetch_locks [OF mem_outbox_conforms this, THEN conjunct1, rule_format, OF refl]
  obtain e where e: "od_docs mem_od (100000, [sample_entity]) ''m1'' = Some e"
    "sample_locked = e\<lparr>ob_lock_expires_at := Some (od_now mem_od (100000, [sample_entity]) + 30000), ob_attempts := ob_attempts e + 1,
      ob_next_attempt_after := Some (od_now mem_od (100000, [sample_entity]) + min (30000 * 2 ^ ob_attempts e) (max_backoff_millis hour))\<rparr>"
    by auto
  from e(1) have "ob_attempts e = 0" by (auto simp: first_by_def sample_entity_def new_entity_def)
  then show ?thesis by (subst e(2), subst e(2), subst e(2)) (simp add: max_backoff_millis_def go_quot_def)
qed

lemma confirmer_shutdown_marks_nothing_witness:
  "handle_confirmation (outbox_repository mem_od hour) (ctx_background\<lparr>ctx_err := Some (Sentinel ContextCanceled)\<rparr>)
     [(''m1'', None)] (100000, [sample_locked]) = (100000, [sample_locked])"
  by (rule confirmer_shutdown_marks_nothing [THEN conjunct2]) (auto simp: mem_outbox_update_def)

end
