(* ===== verification/Consumer.thy ===== *)
theory Consumer
  imports Request_Context Kafka_Config
begin

section \<open>Consuming Kafka messages (pkg/kafka/consumer, pkg/kafka/kafkaproto)\<close>

text \<open>
  \<^verbatim>\<open>handler.go\<close>, \<^verbatim>\<open>router.go\<close>, \<^verbatim>\<open>tracing.go\<close>, \<^verbatim>\<open>dlq_handler.go\<close>, \<^verbatim>\<open>result_handler.go\<close>,
  \<^verbatim>\<open>processor.go\<close>, \<^verbatim>\<open>deserializer.go\<close>, \<^verbatim>\<open>kafkaproto/deserializer.go\<close> and the helpers of
  \<^verbatim>\<open>fxconfig\<close>. \<open>'w\<close> is the world the application's handlers and the producer act on. The protobuf
  registry, the propagator, the producer and \<^verbatim>\<open>backoff.Retry\<close> are parameters.
\<close>

subsection \<open>Handlers and the router\<close>

text \<open>
  A handler gets its context, the time it is given (\<^verbatim>\<open>context.WithTimeout\<close>) and the event; it returns an
  error or nil, or panics with a value (as text).
\<close>

type_synonym ('ev, 'w) event_handler = "go_ctx \<Rightarrow> duration \<Rightarrow> 'ev \<Rightarrow> 'w \<Rightarrow> go_error option may_panic \<times> 'w"

text \<open>The router's map from event types to handlers; \<open>type_of\<close> is \<^verbatim>\<open>reflect.TypeOf\<close>, \<open>type_text\<close> its \<^verbatim>\<open>%T\<close>.\<close>

type_synonym ('t, 'ev, 'w) router = "('t, ('ev, 'w) event_handler) go_map"

definition new_router :: "('t, 'ev, 'w) router" where
  "new_router = []"

definition router_register :: "'t \<Rightarrow> ('ev, 'w) event_handler \<Rightarrow> ('t, 'ev, 'w) router \<Rightarrow> ('t, 'ev, 'w) router" where
  "router_register t fn r = map_put t fn r"

definition router_process :: "('ev \<Rightarrow> 't) \<Rightarrow> ('t \<Rightarrow> string) \<Rightarrow> ('t, 'ev, 'w) router \<Rightarrow> ('ev, 'w) event_handler" where
  "router_process type_of type_text r ctx timeout event w =
     (let eventType = type_of event
      in case map_of r eventType of
           None \<Rightarrow> (Inr (Some (Wrapf (''no handler for event type '' @ type_text eventType @ '': '')
                        (Sentinel ErrSkipMessage) [])), w)
         | Some handler \<Rightarrow> handler ctx timeout event w)"

subsection \<open>Deserialization\<close>

text \<open>
  \<open>reg_find\<close> is \<^verbatim>\<open>protoregistry.GlobalTypes.FindMessageByName\<close>, \<open>reg_unmarshal\<close> is \<^verbatim>\<open>proto.Unmarshal\<close> into
  a new message of the type.
\<close>

record ('t, 'ev) proto_registry =
  reg_find :: "string \<Rightarrow> (go_error, 't) result"
  reg_unmarshal :: "'t \<Rightarrow> string \<Rightarrow> (go_error, 'ev) result"

definition proto_deserialize :: "('t, 'ev) proto_registry \<Rightarrow> string \<Rightarrow> (string, string) go_map \<Rightarrow> (go_error, 'ev) result" where
  "proto_deserialize reg data headers =
     (case map_of headers ''event_type'' of
        None \<Rightarrow> Inl (New_error ''missing required header: event_type'')
      | Some eventType \<Rightarrow>
          (case reg_find reg eventType of
             Inl err \<Rightarrow> Inl (Wrapf (''unknown event type '' @ quoted eventType @ '': '') err [])
           | Inr msgType \<Rightarrow>
               (case reg_unmarshal reg msgType data of
                  Inl err \<Rightarrow> Inl (Wrapf (''proto unmarshal failed for '' @ quoted eventType @ '': '') err [])
                | Inr msg \<Rightarrow> Inr msg)))"

text \<open>The map of a record's headers: a later header overwrites an earlier one with its key.\<close>

definition headers_map :: "record_header list \<Rightarrow> (string, string) go_map" where
  "headers_map hs = map_from (map (\<lambda>h. (rh_key h, rh_value h)) hs)"

record 'ev message_envelope =
  env_event :: 'ev
  env_record :: kafka_record

subsection \<open>Tracing\<close>

text \<open>A span that is started: its name, kind and attributes.\<close>

datatype span_kind = Kind_consumer | Kind_producer

datatype attribute_value = Attr_string string | Attr_int int

record span_start =
  span_name :: string
  span_kind :: span_kind
  span_attributes :: "(string \<times> attribute_value) list"

definition consumer_span :: "kafka_record \<Rightarrow> span_start" where
  "consumer_span rec = \<lparr>span_name = ''kafka.consume'', span_kind = Kind_consumer, span_attributes =
     [(''messaging.system'', Attr_string ''kafka''),
      (''messaging.destination'', Attr_string (rec_topic rec)),
      (''messaging.partition'', Attr_int (rec_partition rec)),
      (''messaging.offset'', Attr_int (rec_offset rec)),
      (''messaging.message.key'', Attr_string (rec_key rec))]\<rparr>"

definition dlq_span :: "kafka_record \<Rightarrow> string \<Rightarrow> span_start" where
  "dlq_span rec dlqTopic = \<lparr>span_name = ''kafka.send_to_dlq'', span_kind = Kind_producer, span_attributes =
     [(''messaging.system'', Attr_string ''kafka''),
      (''messaging.destination'', Attr_string dlqTopic),
      (''messaging.source.topic'', Attr_string (rec_topic rec)),
      (''messaging.source.partition'', Attr_int (rec_partition rec)),
      (''messaging.source.offset'', Attr_int (rec_offset rec)),
      (''messaging.message.key'', Attr_string (rec_key rec))]\<rparr>"

text \<open>\<open>tr_extract\<close> and \<open>tr_inject\<close> are the text map propagator; \<open>tr_start\<close> starts a span.\<close>

record tracing_lib =
  tr_extract :: "go_ctx \<Rightarrow> (string, string) go_map \<Rightarrow> go_ctx"
  tr_inject :: "go_ctx \<Rightarrow> (string, string) go_map \<Rightarrow> (string, string) go_map"
  tr_start :: "go_ctx \<Rightarrow> span_start \<Rightarrow> go_ctx"

definition extract_context :: "tracing_lib \<Rightarrow> go_ctx \<Rightarrow> kafka_record \<Rightarrow> go_ctx" where
  "extract_context tr ctx rec =
     (if length (rec_headers rec) = 0 then ctx else tr_extract tr ctx (headers_map (rec_headers rec)))"

text \<open>The rebuilt headers are in the map's iteration order: any order of the entries of the map.\<close>

definition inject_context :: "tracing_lib \<Rightarrow> go_ctx \<Rightarrow> kafka_record \<Rightarrow> kafka_record" where
  "inject_context tr ctx rec =
     rec\<lparr>rec_headers := map (\<lambda>(k, v). RecordHeader k v) (tr_inject tr ctx (headers_map (rec_headers rec)))\<rparr>"

subsection \<open>The dead letter queue\<close>

text \<open>\<open>now\<close> is the formatted time. The partition and offset of the new record are the zero values.\<close>

definition dlq_record :: "string \<Rightarrow> string \<Rightarrow> kafka_record \<Rightarrow> go_error \<Rightarrow> kafka_record" where
  "dlq_record dlqTopic now rec processingErr =
     \<lparr>rec_topic = dlqTopic, rec_key = rec_key rec, rec_value = rec_value rec, rec_partition = 0, rec_offset = 0,
      rec_headers = rec_headers rec @
        [RecordHeader ''dlq.original.topic'' (rec_topic rec),
         RecordHeader ''dlq.original.partition'' (int_text (rec_partition rec)),
         RecordHeader ''dlq.original.offset'' (int_text (rec_offset rec)),
         RecordHeader ''dlq.error'' (error_text processingErr),
         RecordHeader ''dlq.timestamp'' now]\<rparr>"

datatype span_status = Status_unset | Status_ok string | Status_error string

text \<open>
  \<open>produce\<close> is the producer, with the error its callback gets. The handler waits for the callback and
  reports nothing to its caller; the status of its span is part of the result.
\<close>

type_synonym 'w dlq_handler = "go_ctx \<Rightarrow> kafka_record \<Rightarrow> go_error \<Rightarrow> 'w \<Rightarrow> span_status \<times> 'w"

definition send_to_dlq :: "(go_ctx \<Rightarrow> kafka_record \<Rightarrow> 'w \<Rightarrow> go_error option \<times> 'w) \<Rightarrow> string \<Rightarrow> tracing_lib \<Rightarrow> string
    \<Rightarrow> 'w dlq_handler" where
  "send_to_dlq produce dlqTopic tr now ctx rec processingErr w =
     (let ctx = tr_start tr ctx (dlq_span rec dlqTopic);
          dlqRecord = inject_context tr ctx (dlq_record dlqTopic now rec processingErr)
      in case produce ctx dlqRecord w of
           (Some err, w') \<Rightarrow> (Status_error ''failed to deliver message to DLQ'', w')
         | (None, w') \<Rightarrow> (Status_ok ''message sent to DLQ'', w'))"

definition noop_dlq :: "'w dlq_handler" where
  "noop_dlq ctx rec processingErr w = (Status_unset, w)"

definition provide_dlq_handler where
  "provide_dlq_handler conf produce tr now =
     (if cc_enable_dlq conf then send_to_dlq produce (cc_dlq_topic conf) tr now else noop_dlq)"

subsection \<open>Results\<close>

text \<open>
  \<^verbatim>\<open>ResultHandler.handle\<close>: the records marked for commit so far, the world, and what the span and the log
  show. The deferred mark comes last. \<open>stack_logged\<close> is whether the log line has the stack of a panic.
\<close>

record 'w result_effects =
  re_world :: 'w
  re_marked :: "kafka_record list"
  re_status :: span_status
  re_recorded :: "go_error list"
  re_stack_logged :: bool

definition mark_commit :: "kafka_record \<Rightarrow> 'w result_effects \<Rightarrow> 'w result_effects" where
  "mark_commit rec x = x\<lparr>re_marked := re_marked x @ [rec]\<rparr>"

definition handle_result :: "'w dlq_handler \<Rightarrow> go_ctx \<Rightarrow> go_error option \<Rightarrow> kafka_record \<Rightarrow> 'w \<Rightarrow> kafka_record list \<Rightarrow> 'w result_effects" where
  "handle_result dlq ctx err rec w marked =
     mark_commit rec
      (case err of
         None \<Rightarrow> \<lparr>re_world = w, re_marked = marked, re_status = Status_ok ''message processed successfully'',
                  re_recorded = [], re_stack_logged = False\<rparr>
       | Some e \<Rightarrow>
           (if errors_is e ErrSkipMessage then
              \<lparr>re_world = w, re_marked = marked, re_status = Status_ok ''message skipped'',
               re_recorded = [], re_stack_logged = False\<rparr>
            else if errors_is e ErrPermanent then
              \<lparr>re_world = snd (dlq ctx rec e w), re_marked = marked,
               re_status = Status_error ''permanent error - sending to DLQ'',
               re_recorded = [], re_stack_logged = errors_as_panic e\<rparr>
            else
              \<lparr>re_world = snd (dlq ctx rec e w), re_marked = marked,
               re_status = Status_error ''message processing failed - sending to DLQ'',
               re_recorded = [e], re_stack_logged = False\<rparr>))"

subsection \<open>The processor\<close>

text \<open>
  What the processor logs: an attempt that failed, and a recovered panic, with its text and its stack.
\<close>

datatype attempt_log = Level_debug | Level_error | Panic_with_stack string

text \<open>
  \<^verbatim>\<open>process\<close>: the error, the log and the world. A panic is logged with its stack where it is recovered, and
  becomes a permanent error that only keeps the panic's text. \<open>process_event\<close> is its result without the log.
\<close>

definition process_recovered :: "('ev, 'w) event_handler \<Rightarrow> duration \<Rightarrow> go_ctx \<Rightarrow> 'ev \<Rightarrow> 'w
    \<Rightarrow> go_error option \<times> attempt_log list \<times> 'w" where
  "process_recovered handler timeout ctx event w =
     (case handler ctx timeout event w of
        (Inl rec, w') \<Rightarrow>
          (Some (Wrapf [] (Sentinel ErrPermanent) ('': '' @ error_text (Panic_error rec))), [Panic_with_stack rec], w')
      | (Inr err, w') \<Rightarrow> (err, [], w'))"

definition process_event :: "('ev, 'w) event_handler \<Rightarrow> duration \<Rightarrow> go_ctx \<Rightarrow> 'ev \<Rightarrow> 'w \<Rightarrow> go_error option \<times> 'w" where
  "process_event handler timeout ctx event w =
     (case process_recovered handler timeout ctx event w of (err, logged, w') \<Rightarrow> (err, w'))"

text \<open>
  What the operation given to \<^verbatim>\<open>backoff.Retry\<close> returns: nil, an error wrapped by \<^verbatim>\<open>backoff.Permanent\<close>, or
  another error. Its state is the number of attempts, the log and the world.
\<close>

datatype retry_result = Retry_done | Retry_permanent go_error | Retry_again go_error

type_synonym 'w attempt_state = "nat \<times> attempt_log list \<times> 'w"

definition retry_operation :: "('ev, 'w) event_handler \<Rightarrow> duration \<Rightarrow> nat \<Rightarrow> go_ctx \<Rightarrow> 'ev
    \<Rightarrow> 'w attempt_state \<Rightarrow> retry_result \<times> 'w attempt_state" where
  "retry_operation handler timeout maxRetries ctx event st =
     (case st of (attempt, logged, w) \<Rightarrow>
        (let attempt = attempt + 1
         in case process_recovered handler timeout ctx event w of
              (None, lines, w') \<Rightarrow> (Retry_done, (attempt, logged @ lines, w'))
            | (Some err, lines, w') \<Rightarrow>
                (if errors_is err ErrSkipMessage \<or> errors_is err ErrPermanent
                 then (Retry_permanent err, (attempt, logged @ lines, w'))
                 else (Retry_again err,
                       (attempt, logged @ lines @ [if maxRetries < attempt then Level_error else Level_debug], w')))))"

text \<open>
  \<open>retry max init maxi ctx op s\<close> is \<^verbatim>\<open>backoff.Retry\<close> of \<open>op\<close> with \<^verbatim>\<open>WithMaxRetries\<close> and an exponential backoff
  without a limit on the elapsed time, under \<^verbatim>\<open>WithContext\<close>.
\<close>

type_synonym 'w retry_lib = "nat \<Rightarrow> duration \<Rightarrow> duration \<Rightarrow> go_ctx
    \<Rightarrow> ('w attempt_state \<Rightarrow> retry_result \<times> 'w attempt_state) \<Rightarrow> 'w attempt_state \<Rightarrow> go_error option \<times> 'w attempt_state"

record processor =
  pr_max_retries :: nat
  pr_initial_backoff :: duration
  pr_max_backoff :: duration
  pr_timeout :: duration

text \<open>\<^verbatim>\<open>NewProcessor\<close> dereferences the pointer, and panics if it is nil.\<close>

definition new_processor :: "consumer_config \<Rightarrow> processor may_panic" where
  "new_processor conf =
     (case cc_max_retries conf of
        None \<Rightarrow> Inl ''invalid memory address or nil pointer dereference''
      | Some n \<Rightarrow> Inr \<lparr>pr_max_retries = n, pr_initial_backoff = cc_initial_backoff conf,
                      pr_max_backoff = cc_max_backoff conf, pr_timeout = cc_processing_timeout conf\<rparr>)"

definition execute_with_retry :: "'w retry_lib \<Rightarrow> processor \<Rightarrow> ('ev, 'w) event_handler \<Rightarrow> go_ctx \<Rightarrow> 'ev \<Rightarrow> 'w
    \<Rightarrow> go_error option \<times> 'w attempt_state" where
  "execute_with_retry retry p handler ctx event w =
     retry (pr_max_retries p) (pr_initial_backoff p) (pr_max_backoff p) ctx
       (retry_operation handler (pr_timeout p) (pr_max_retries p) ctx event) (0, [], w)"

definition message_context :: "tracing_lib \<Rightarrow> go_ctx \<Rightarrow> kafka_record \<Rightarrow> go_ctx" where
  "message_context tr ctx rec =
     (let ctx = extract_context tr ctx rec;
          ctx = context_from_kafka_headers ctx (rec_headers rec)
      in tr_start tr ctx (consumer_span rec))"

definition process_message :: "tracing_lib \<Rightarrow> 'w retry_lib \<Rightarrow> processor \<Rightarrow> ('ev, 'w) event_handler \<Rightarrow> 'w dlq_handler
    \<Rightarrow> go_ctx \<Rightarrow> 'ev message_envelope \<Rightarrow> 'w \<Rightarrow> kafka_record list \<Rightarrow> 'w result_effects" where
  "process_message tr retry p handler dlq ctx envelope w marked =
     (let ctx = message_context tr ctx (env_record envelope);
          (err, attempt, logged, w') = execute_with_retry retry p handler ctx (env_event envelope) w
      in handle_result dlq ctx err (env_record envelope) w' marked)"

subsection \<open>The deserializer's handler\<close>

text \<open>
  \<^verbatim>\<open>deserializeAndSend\<close> up to the final \<^verbatim>\<open>select\<close>: a record that cannot be deserialized goes to the dead
  letter queue, with the extracted context; otherwise the envelope to put on the channel.
\<close>

definition deserialize_record :: "('t, 'ev) proto_registry \<Rightarrow> tracing_lib \<Rightarrow> 'w dlq_handler \<Rightarrow> go_ctx \<Rightarrow> kafka_record \<Rightarrow> 'w
    \<Rightarrow> 'ev message_envelope option \<times> 'w" where
  "deserialize_record reg tr dlq ctx rec w =
     (case proto_deserialize reg (rec_value rec) (headers_map (rec_headers rec)) of
        Inl err \<Rightarrow> (None, snd (dlq (extract_context tr ctx rec) rec (Wrapf ''deserialization failed: '' err []) w))
      | Inr event \<Rightarrow> (Some \<lparr>env_event = event, env_record = rec\<rparr>, w))"

subsection \<open>What handling a result does\<close>

lemma handle_result_effects:
  "re_marked (handle_result dlq ctx err rec w marked) = marked @ [rec]"
  "re_world (handle_result dlq ctx err rec w marked) =
     (case err of None \<Rightarrow> w | Some e \<Rightarrow> if errors_is e ErrSkipMessage then w else snd (dlq ctx rec e w))"
  by (auto simp: handle_result_def mark_commit_def split: option.splits)

lemma process_message_marks:
  "re_marked (process_message tr retry p handler dlq ctx envelope w marked) = marked @ [env_record envelope]"
  unfolding process_message_def Let_def by (simp add: handle_result_effects split: prod.split)

end
