(* ===== verification/Consumer_Results.thy ===== *)
theory Consumer_Results
  imports Consumer
begin

section \<open>What happens to a consumed message\<close>

text \<open>
  The documented behaviour of \<^verbatim>\<open>backoff.Retry\<close>, and the properties of the processor, the result handler,
  the dead letter queue and the router that rest on it.
\<close>

subsection \<open>The contract of backoff.Retry\<close>

text \<open>The \<open>n\<close>-th call of an operation, counted from 0, when it is called again and again.\<close>

fun nth_call :: "('s \<Rightarrow> 'r \<times> 's) \<Rightarrow> nat \<Rightarrow> 's \<Rightarrow> 'r \<times> 's" where
  "nth_call op 0 s = op s"
| "nth_call op (Suc n) s = op (snd (nth_call op n s))"

text \<open>The error \<^verbatim>\<open>ctx.Err()\<close> of a context that is finished, or that finishes while the call waits.\<close>

definition context_error :: "go_ctx \<Rightarrow> go_error \<Rightarrow> bool" where
  "context_error ctx e \<longleftrightarrow> (case ctx_err ctx of Some c \<Rightarrow> e = c
     | None \<Rightarrow> e = Sentinel ContextCanceled \<or> e = Sentinel ContextDeadlineExceeded)"

text \<open>
  \<^verbatim>\<open>Retry\<close> calls the operation again as long as it fails with an error that is not permanent, at most
  \<open>tries\<close> more times, and stops early when the context is finished.
\<close>

definition retry_documented :: "'w retry_lib \<Rightarrow> bool" where
  "retry_documented retry \<longleftrightarrow> (\<forall>tries init maxi ctx op s. let (r, s') = retry tries init maxi ctx op s in
     \<exists>n \<le> tries. (\<forall>k < n. \<exists>e. fst (nth_call op k s) = Retry_again e) \<and> s' = snd (nth_call op n s)
       \<and> (ctx_done ctx \<longrightarrow> n = 0)
       \<and> (case fst (nth_call op n s) of
            Retry_done \<Rightarrow> r = None
          | Retry_permanent e \<Rightarrow> r = Some e
          | Retry_again e \<Rightarrow> (n = tries \<and> \<not> ctx_done ctx \<and> r = Some e) \<or> (\<exists>c. context_error ctx c \<and> r = Some c)))"

text \<open>An implementation for a context that does not change meanwhile.\<close>

fun run_retry :: "go_error option \<Rightarrow> nat \<Rightarrow> ('s \<Rightarrow> retry_result \<times> 's) \<Rightarrow> 's \<Rightarrow> go_error option \<times> 's" where
  "run_retry cancelled 0 op s =
     (case op s of
        (Retry_done, s') \<Rightarrow> (None, s')
      | (Retry_permanent e, s') \<Rightarrow> (Some e, s')
      | (Retry_again e, s') \<Rightarrow> (case cancelled of Some c \<Rightarrow> (Some c, s') | None \<Rightarrow> (Some e, s')))"
| "run_retry cancelled (Suc m) op s =
     (case op s of
        (Retry_done, s') \<Rightarrow> (None, s')
      | (Retry_permanent e, s') \<Rightarrow> (Some e, s')
      | (Retry_again e, s') \<Rightarrow> (case cancelled of Some c \<Rightarrow> (Some c, s') | None \<Rightarrow> run_retry cancelled m op s'))"

definition plain_retry :: "'w retry_lib" where
  "plain_retry tries init maxi ctx op s = run_retry (ctx_err ctx) tries op s"

lemma nth_call_shift: "nth_call op n (snd (op s)) = nth_call op (Suc n) s"
  by (induction n) auto

definition retry_outcome :: "nat \<Rightarrow> go_ctx \<Rightarrow> ('s \<Rightarrow> retry_result \<times> 's) \<Rightarrow> 's \<Rightarrow> nat \<Rightarrow> go_error option \<Rightarrow> bool" where
  "retry_outcome tries ctx op s n r \<longleftrightarrow> (case fst (nth_call op n s) of
            Retry_done \<Rightarrow> r = None
          | Retry_permanent e \<Rightarrow> r = Some e
          | Retry_again e \<Rightarrow> (n = tries \<and> \<not> ctx_done ctx \<and> r = Some e) \<or> (\<exists>c. context_error ctx c \<and> r = Some c))"

lemma run_retry_documented:
  assumes "run_retry (ctx_err ctx) tries op s = (r, s')"
  shows "\<exists>n \<le> tries. (\<forall>k < n. \<exists>e. fst (nth_call op k s) = Retry_again e) \<and> s' = snd (nth_call op n s)
    \<and> (ctx_done ctx \<longrightarrow> n = 0) \<and> retry_outcome tries ctx op s n r"
  using assms
proof (induction tries arbitrary: s)
  case 0
  then show ?case
    by (auto simp: retry_outcome_def context_error_def split: prod.splits retry_result.splits option.splits)
next
  case (Suc m)
  obtain q t where op: "op s = (q, t)" by (cases "op s")
  show ?case
  proof (cases "\<exists>e. q = Retry_again e \<and> ctx_err ctx = None")
    case False
    with Suc.prems op show ?thesis
      by (cases "ctx_err ctx"; intro exI [of _ 0])
        (auto simp: retry_outcome_def context_error_def split: retry_result.splits)
  next
    case True
    with Suc.prems op have "run_retry (ctx_err ctx) m op t = (r, s')" by auto
    from Suc.IH [OF this] True obtain n where n: "n \<le> m" "\<forall>k < n. \<exists>e. fst (nth_call op k t) = Retry_again e"
      "s' = snd (nth_call op n t)" "retry_outcome m ctx op t n r" by blast
    have t: "t = snd (op s)" by (simp add: op)
    note shift = nth_call_shift [of op _ s, folded t]
    have early: "\<exists>e. fst (nth_call op k s) = Retry_again e" if "k < Suc n" for k
      using that n(2) True op shift by (cases k) auto
    have "retry_outcome (Suc m) ctx op s (Suc n) r"
      using n(4) unfolding retry_outcome_def shift by (auto split: retry_result.splits)
    with n(1,3) early True shift show ?thesis by (intro exI [of _ "Suc n"]) auto
  qed
qed

lemma plain_retry_documented: "retry_documented plain_retry"
  unfolding retry_documented_def plain_retry_def Let_def
  by (intro allI case_prodI2) (use run_retry_documented in \<open>auto simp: retry_outcome_def\<close>)

lemma retry_documentedD:
  assumes "retry_documented retry" and "retry tries init maxi ctx op s = (r, s')"
  obtains n where "n \<le> tries" "\<forall>k < n. \<exists>e. fst (nth_call op k s) = Retry_again e" "s' = snd (nth_call op n s)"
    "ctx_done ctx \<longrightarrow> n = 0" "retry_outcome tries ctx op s n r"
  using assms(1) [unfolded retry_documented_def Let_def, rule_format, where tries = tries and init = init and maxi = maxi and ctx = ctx and op = op and s = s] assms(2)
  unfolding retry_outcome_def by auto

subsection \<open>Attempts\<close>

text \<open>An error that is tried again.\<close>

definition retryable :: "go_error \<Rightarrow> bool" where
  "retryable e \<longleftrightarrow> \<not> errors_is e ErrSkipMessage \<and> \<not> errors_is e ErrPermanent"

definition verdict :: "go_error option \<Rightarrow> retry_result" where
  "verdict r = (case r of None \<Rightarrow> Retry_done | Some e \<Rightarrow> if retryable e then Retry_again e else Retry_permanent e)"

lemma verdict_again [simp]: "verdict r = Retry_again e \<longleftrightarrow> r = Some e \<and> retryable e"
  by (auto simp: verdict_def split: option.splits)

text \<open>The log of an attempt: the panic, or the failure that is tried again.\<close>

definition panic_lines :: "'a may_panic \<Rightarrow> attempt_log list" where
  "panic_lines r = (case r of Inl rec \<Rightarrow> [Panic_with_stack rec] | Inr _ \<Rightarrow> [])"

lemmas process_defs = process_event_def process_recovered_def

definition attempt_lines :: "('ev, 'w) event_handler \<Rightarrow> duration \<Rightarrow> nat \<Rightarrow> go_ctx \<Rightarrow> 'ev \<Rightarrow> nat \<Rightarrow> 'w \<Rightarrow> attempt_log list" where
  "attempt_lines handler timeout tries ctx event k w =
     panic_lines (fst (handler ctx timeout event w))
     @ (case verdict (fst (process_event handler timeout ctx event w)) of
          Retry_again e \<Rightarrow> [if tries < k + 1 then Level_error else Level_debug] | _ \<Rightarrow> [])"

lemma retry_operation_eq:
  "retry_operation handler timeout tries ctx event (k, logged, w) =
     (let (r, w') = process_event handler timeout ctx event w
      in (verdict r, k + 1, logged @ attempt_lines handler timeout tries ctx event k w, w'))"
  by (auto simp: retry_operation_def verdict_def retryable_def Let_def process_defs
      attempt_lines_def panic_lines_def split: prod.splits option.splits sum.splits)

text \<open>An attempt that is tried again logs one line, and no attempt logs another error line than its last failure.\<close>

lemma attempt_lines_again:
  "fst (process_event handler timeout ctx event w) = Some e \<Longrightarrow> retryable e \<Longrightarrow>
     attempt_lines handler timeout tries ctx event k w = [if tries < k + 1 then Level_error else Level_debug]"
  by (auto simp: attempt_lines_def panic_lines_def process_defs verdict_def retryable_def
      split: prod.splits sum.splits)

lemma attempt_lines_error:
  "Level_error \<in> set (attempt_lines handler timeout tries ctx event k w) \<longleftrightarrow>
     tries < k + 1 \<and> (\<exists>e. fst (process_event handler timeout ctx event w) = Some e \<and> retryable e)"
  by (auto simp: attempt_lines_def panic_lines_def verdict_def split: sum.splits option.splits)

text \<open>The world before the \<open>k\<close>-th call of an operation.\<close>

definition before_call :: "('s \<Rightarrow> 'r \<times> 's) \<Rightarrow> nat \<Rightarrow> 's \<Rightarrow> 's" where
  "before_call op k s = (case k of 0 \<Rightarrow> s | Suc j \<Rightarrow> snd (nth_call op j s))"

lemma nth_call_before: "nth_call op k s = op (before_call op k s)"
  by (cases k) (simp_all add: before_call_def)

lemma nth_operation:
  assumes "k \<le> tries"
    and "\<And>j. j < k \<Longrightarrow> \<exists>e. fst (nth_call (process_event handler timeout ctx event) j w) = Some e \<and> retryable e"
  shows "nth_call (retry_operation handler timeout tries ctx event) k (0, [], w) =
    (verdict (fst (nth_call (process_event handler timeout ctx event) k w)), k + 1,
     replicate k Level_debug
       @ attempt_lines handler timeout tries ctx event k (before_call (process_event handler timeout ctx event) k w),
     snd (nth_call (process_event handler timeout ctx event) k w))"
  using assms
proof (induction k)
  case 0
  show ?case by (simp add: retry_operation_eq before_call_def split: prod.split)
next
  case (Suc k)
  let ?op = "process_event handler timeout ctx event"
  from Suc.prems(2) [of k] obtain e where e: "fst (nth_call ?op k w) = Some e" "retryable e" by auto
  then have "attempt_lines handler timeout tries ctx event k (before_call ?op k w) = [Level_debug]"
    using Suc.prems(1) attempt_lines_again [of handler timeout ctx event "before_call ?op k w" e tries k]
    by (simp add: nth_call_before)
  with Suc.IH Suc.prems e have "nth_call (retry_operation handler timeout tries ctx event) k (0, [], w) =
    (Retry_again e, k + 1, replicate (Suc k) Level_debug, snd (nth_call ?op k w))"
    by (simp add: verdict_def replicate_append_same)
  then show ?case by (simp add: retry_operation_eq before_call_def split: prod.split)
qed

lemma retry_attempts:
  assumes "retry_documented retry"
    and "execute_with_retry retry p handler ctx event w = (r, attempts, logged, w')"
    and "call = (\<lambda>k. nth_call (process_event handler (pr_timeout p) ctx event) k w)"
  shows "\<exists>n \<le> pr_max_retries p. attempts = n + 1 \<and> w' = snd (call n)
    \<and> (\<forall>k < n. \<exists>e. fst (call k) = Some e \<and> retryable e) \<and> (ctx_done ctx \<longrightarrow> n = 0)
    \<and> (case fst (call n) of
         None \<Rightarrow> r = None
       | Some e \<Rightarrow> if retryable e then n = pr_max_retries p \<and> r = Some e \<or> (\<exists>c. context_error ctx c \<and> r = Some c)
                  else r = Some e)
    \<and> (Level_error \<in> set logged \<longleftrightarrow> n = pr_max_retries p \<and> (\<exists>e. fst (call n) = Some e \<and> retryable e))"
proof -
  let ?op = "retry_operation handler (pr_timeout p) (pr_max_retries p) ctx event"
  from retry_documentedD [OF assms(1) assms(2) [unfolded execute_with_retry_def]] obtain n where
    n: "n \<le> pr_max_retries p" "\<forall>k < n. \<exists>e. fst (nth_call ?op k (0, [], w)) = Retry_again e"
      "(attempts, logged, w') = snd (nth_call ?op n (0, [], w))" "ctx_done ctx \<longrightarrow> n = 0"
      "retry_outcome (pr_max_retries p) ctx ?op (0, [], w) n r" by blast
  let ?ev = "process_event handler (pr_timeout p) ctx event"
  let ?lines = "\<lambda>k. attempt_lines handler (pr_timeout p) (pr_max_retries p) ctx event k (before_call ?ev k w)"
  have early: "\<exists>e. fst (call k) = Some e \<and> retryable e" if "k < n" for k
    using that
  proof (induction k rule: less_induct)
    case (less k)
    have "nth_call ?op k (0, [], w) = (verdict (fst (call k)), k + 1, replicate k Level_debug @ ?lines k, snd (call k))"
      unfolding assms(3) using less n(1) assms(3) by (intro nth_operation) auto
    then show ?case using n(2) less.prems by auto
  qed
  have last: "nth_call ?op n (0, [], w) = (verdict (fst (call n)), n + 1, replicate n Level_debug @ ?lines n, snd (call n))"
    unfolding assms(3) using n(1) early assms(3) by (intro nth_operation) auto
  have res: "case fst (call n) of
         None \<Rightarrow> r = None
       | Some e \<Rightarrow> if retryable e then n = pr_max_retries p \<and> r = Some e \<or> (\<exists>c. context_error ctx c \<and> r = Some c)
                  else r = Some e"
    using n(5) by (auto simp: retry_outcome_def last verdict_def split: option.splits)
  have "logged = replicate n Level_debug @ ?lines n" using n(3) last by simp
  then have lg: "Level_error \<in> set logged \<longleftrightarrow> n = pr_max_retries p \<and> (\<exists>e. fst (call n) = Some e \<and> retryable e)"
    using n(1) by (auto simp: attempt_lines_error assms(3) nth_call_before)
  show ?thesis using n(1,3,4) last early res lg by (intro exI [of _ n]) auto
qed

text \<open>An error that is not tried again ends the loop at its first attempt.\<close>

lemma single_attempt:
  assumes "retry_documented retry" and "process_event handler (pr_timeout p) ctx event w = (Some e, w')" and "\<not> retryable e"
  shows "execute_with_retry retry p handler ctx event w
    = (Some e, 1, panic_lines (fst (handler ctx (pr_timeout p) event w)), w')"
proof -
  let ?op = "retry_operation handler (pr_timeout p) (pr_max_retries p) ctx event"
  let ?lines = "panic_lines (fst (handler ctx (pr_timeout p) event w))"
  obtain r st where run: "execute_with_retry retry p handler ctx event w = (r, st)"
    by (cases "execute_with_retry retry p handler ctx event w")
  from retry_documentedD [OF assms(1) run [unfolded execute_with_retry_def]] obtain n where
    n: "\<forall>k < n. \<exists>e. fst (nth_call ?op k (0, [], w)) = Retry_again e" "st = snd (nth_call ?op n (0, [], w))"
      "retry_outcome (pr_max_retries p) ctx ?op (0, [], w) n r" by blast
  have first: "nth_call ?op 0 (0, [], w) = (Retry_permanent e, 1, ?lines, w')"
    using assms(2,3) by (simp add: retry_operation_eq attempt_lines_def verdict_def)
  have "n = 0"
  proof (rule ccontr)
    assume "n \<noteq> 0"
    with n(1) have "\<exists>e. fst (nth_call ?op 0 (0, [], w)) = Retry_again e" by blast
    with first show False by simp
  qed
  with n(2,3) first run show ?thesis by (simp add: retry_outcome_def)
qed

text \<open>
  C19. The handler is called at least once and at most \<open>1 + maxRetries\<close> times, one more time only after
  an error that is neither a skip nor permanent; the result is that of the last call, or the context's
  error when the context finished, which also stops the retries; the failure of an attempt is logged at error level
  exactly when it is the last allowed one and is such an error (a panic has a log line of its own).
\<close>

theorem retry_attempts_bounded:
  assumes "retry_documented retry"
    and "execute_with_retry retry p handler ctx event w = (r, attempts, logged, w')"
    and "call = (\<lambda>k. nth_call (process_event handler (pr_timeout p) ctx event) k w)"
  shows "\<exists>n \<le> pr_max_retries p. attempts = n + 1 \<and> w' = snd (call n)
    \<and> (\<forall>k < n. \<exists>e. fst (call k) = Some e \<and> retryable e) \<and> (ctx_done ctx \<longrightarrow> n = 0)
    \<and> (case fst (call n) of
         None \<Rightarrow> r = None
       | Some e \<Rightarrow> if retryable e then n = pr_max_retries p \<and> r = Some e \<or> (\<exists>c. context_error ctx c \<and> r = Some c)
                  else r = Some e)
    \<and> (Level_error \<in> set logged \<longleftrightarrow> n = pr_max_retries p \<and> (\<exists>e. fst (call n) = Some e \<and> retryable e))"
  by (rule retry_attempts [OF assms])

subsection \<open>Verdicts\<close>

text \<open>
  C8. Whatever the handler does, a processed message is marked for commit exactly once, after its
  processing; it goes to the dead letter queue, exactly once, unless the handler's last call succeeded
  or skipped it; and the error that goes there is the handler's last one or the context's.
\<close>

theorem processed_message_marked_once:
  assumes "retry_documented retry"
    and "ctx' = message_context tr ctx (env_record envelope)"
    and "call = (\<lambda>k. nth_call (process_event handler (pr_timeout p) ctx' (env_event envelope)) k w)"
    and "\<And>c. ctx_err ctx' = Some c \<Longrightarrow> \<not> errors_is c ErrSkipMessage"
    and "x = process_message tr retry p handler dlq ctx envelope w marked"
  shows "re_marked x = marked @ [env_record envelope]
    \<and> (\<exists>n \<le> pr_max_retries p. (\<forall>k < n. \<exists>e. fst (call k) = Some e \<and> retryable e)
      \<and> (case fst (call n) of
           None \<Rightarrow> re_world x = snd (call n)
         | Some e \<Rightarrow>
             if errors_is e ErrSkipMessage then re_world x = snd (call n)
             else \<exists>e'. (e' = e \<and> (n = pr_max_retries p \<or> \<not> retryable e) \<or> retryable e \<and> context_error ctx' e')
               \<and> re_world x = snd (dlq ctx' (env_record envelope) e' (snd (call n)))))"
proof -
  obtain r attempts logged w' where run:
    "execute_with_retry retry p handler ctx' (env_event envelope) w = (r, attempts, logged, w')"
    by (cases "execute_with_retry retry p handler ctx' (env_event envelope) w") auto
  have x: "x = handle_result dlq ctx' r (env_record envelope) w' marked"
    using run assms(2,5) by (simp add: process_message_def)
  have no_skip: "\<not> errors_is c ErrSkipMessage" if "context_error ctx' c" for c
    using that assms(4) by (auto simp: context_error_def split: option.splits)
  from retry_attempts [OF assms(1) run assms(3)] obtain n where n: "n \<le> pr_max_retries p" "w' = snd (call n)"
    "\<forall>k < n. \<exists>e. fst (call k) = Some e \<and> retryable e"
    "case fst (call n) of
         None \<Rightarrow> r = None
       | Some e \<Rightarrow> if retryable e then n = pr_max_retries p \<and> r = Some e \<or> (\<exists>c. context_error ctx' c \<and> r = Some c)
                  else r = Some e" by blast
  have "case fst (call n) of
           None \<Rightarrow> re_world x = snd (call n)
         | Some e \<Rightarrow>
             if errors_is e ErrSkipMessage then re_world x = snd (call n)
             else \<exists>e'. (e' = e \<and> (n = pr_max_retries p \<or> \<not> retryable e) \<or> retryable e \<and> context_error ctx' e')
               \<and> re_world x = snd (dlq ctx' (env_record envelope) e' (snd (call n)))"
  proof (cases "fst (call n)")
    case None
    with n(2,4) show ?thesis by (simp add: x handle_result_effects)
  next
    case (Some e)
    show ?thesis
    proof (cases "retryable e")
      case True
      with n(4) Some consider "n = pr_max_retries p" "r = Some e" | c where "context_error ctx' c" "r = Some c" by auto
      then show ?thesis
        using Some True n(2) no_skip by cases (auto simp: x handle_result_effects retryable_def)
    next
      case False
      with n(2,4) Some show ?thesis by (auto simp: x handle_result_effects)
    qed
  qed
  moreover have "re_marked x = marked @ [env_record envelope]" by (simp add: x handle_result_effects)
  ultimately show ?thesis using n(1,3) by blast
qed

text \<open>
  C33. A panic of the handler is contained: it is not tried again, it is logged once with its stack where it is recovered, and
  the message goes to the dead letter queue with a permanent error that has the text of the panic, and is marked for commit.
  The error keeps only the text: the result handler's \<^verbatim>\<open>errors.As\<close> never finds the panic, and its own log line never has the stack.
\<close>

theorem handler_panic_contained:
  assumes "retry_documented retry"
    and "ctx' = message_context tr ctx (env_record envelope)"
    and "handler ctx' (pr_timeout p) (env_event envelope) w = (Inl panic, w')"
    and "x = process_message tr retry p handler dlq ctx envelope w marked"
  shows "re_marked x = marked @ [env_record envelope]
    \<and> (\<exists>e. error_text e = ''permanent error: panic: '' @ panic \<and> errors_is e ErrPermanent
         \<and> execute_with_retry retry p handler ctx' (env_event envelope) w = (Some e, 1, [Panic_with_stack panic], w')
         \<and> re_world x = snd (dlq ctx' (env_record envelope) e w'))
    \<and> \<not> re_stack_logged x"
proof -
  let ?e = "Wrapf [] (Sentinel ErrPermanent) ('': panic: '' @ panic)"
  have e: "\<not> retryable ?e" "errors_is ?e ErrPermanent" "error_text ?e = ''permanent error: panic: '' @ panic"
    by (simp_all add: retryable_def)
  have "process_event handler (pr_timeout p) ctx' (env_event envelope) w = (Some ?e, w')"
    using assms(3) by (simp add: process_defs)
  from single_attempt [OF assms(1) this e(1)]
  have run: "execute_with_retry retry p handler ctx' (env_event envelope) w = (Some ?e, 1, [Panic_with_stack panic], w')"
    by (simp add: assms(3) panic_lines_def)
  then have x: "x = handle_result dlq ctx' (Some ?e) (env_record envelope) w' marked"
    using assms(2,4) by (simp add: process_message_def)
  have "\<not> re_stack_logged x" by (simp add: x handle_result_def mark_commit_def)
  moreover have "re_world x = snd (dlq ctx' (env_record envelope) ?e w')" by (simp add: x handle_result_effects)
  moreover have "re_marked x = marked @ [env_record envelope]" by (simp add: x handle_result_effects)
  ultimately show ?thesis using run e(2,3) by blast
qed

text \<open>
  C40. Shutting down loses a message: with a finished context, a handler that gives up with an error that
  may be tried again, and a producer that refuses finished contexts, the message is marked for commit
  although it was neither processed nor put into the dead letter queue.
\<close>

theorem shutdown_marks_unprocessed:
  assumes "retry_documented retry"
    and "ctx' = message_context tr ctx (env_record envelope)" and "ctx_err ctx' = Some (Sentinel ContextCanceled)"
    and "ctx_err (tr_start tr ctx' (dlq_span (env_record envelope) dlqTopic)) = Some (Sentinel ContextCanceled)"
    and "process_event handler (pr_timeout p) ctx' (env_event envelope) w = (Some e, w')" and "retryable e"
    and "\<And>ctx rec w. ctx_done ctx \<Longrightarrow> produce ctx rec w = (ctx_err ctx, w)"
    and "x = process_message tr retry p handler (send_to_dlq produce dlqTopic tr now) ctx envelope w marked"
  shows "re_marked x = marked @ [env_record envelope] \<and> re_world x = w'"
proof -
  obtain r attempts logged w2 where run:
    "execute_with_retry retry p handler ctx' (env_event envelope) w = (r, attempts, logged, w2)"
    by (cases "execute_with_retry retry p handler ctx' (env_event envelope) w") auto
  from retry_attempts [OF assms(1) run refl] assms(3,5) have "w2 = w'" by auto
  moreover have "snd (send_to_dlq produce dlqTopic tr now ctx' (env_record envelope) err w2) = w2" for err
    using assms(4,7) by (simp add: send_to_dlq_def Let_def)
  ultimately show ?thesis
    using run assms(2,8) by (auto simp: process_message_def handle_result_effects split: option.splits)
qed

subsection \<open>The router\<close>

lemma router_register_eq: "router_register = map_put"
  by (intro ext) (simp add: router_register_def)

lemma map_of_register: "map_of (fold (\<lambda>(t, fn). router_register t fn) regs new_router) = map_of (rev regs)"
  by (simp add: router_register_eq new_router_def map_of_fold_map_put)

text \<open>
  After any sequence of registrations the router calls the handler registered last for the event's
  type; an event of a type without a handler is a skip: it is not tried again, it does not go to the dead
  letter queue, the world is unchanged and the message is marked for commit.
\<close>

theorem router_dispatches:
  assumes "retry_documented retry"
    and "handler = router_process type_of type_text (fold (\<lambda>(t, fn). router_register t fn) regs new_router)"
    and "x = process_message tr retry p handler dlq ctx envelope w marked"
  shows "(\<forall>h. map_of (rev regs) (type_of event) = Some h \<longrightarrow> handler ctx' timeout event w' = h ctx' timeout event w')
    \<and> (map_of (rev regs) (type_of (env_event envelope)) = None \<longrightarrow>
         re_marked x = marked @ [env_record envelope] \<and> re_world x = w \<and> re_status x = Status_ok ''message skipped'')"
proof (intro conjI allI impI)
  show "handler ctx' timeout event w' = h ctx' timeout event w'" if "map_of (rev regs) (type_of event) = Some h" for h
    using that by (simp add: assms(2) router_process_def map_of_register)
next
  assume none: "map_of (rev regs) (type_of (env_event envelope)) = None"
  let ?ctx = "message_context tr ctx (env_record envelope)"
  let ?e = "Wrapf (''no handler for event type '' @ type_text (type_of (env_event envelope)) @ '': '') (Sentinel ErrSkipMessage) []"
  have e: "process_event handler (pr_timeout p) ?ctx (env_event envelope) w = (Some ?e, w)" "errors_is ?e ErrSkipMessage"
    using none by (simp_all add: assms(2) router_process_def map_of_register process_defs)
  then have perm: "\<not> retryable ?e" by (simp add: retryable_def)
  have "x = handle_result dlq ?ctx (Some ?e) (env_record envelope) w marked"
    using single_attempt [OF assms(1) e(1) perm] by (simp add: assms(3) process_message_def)
  then show "re_marked x = marked @ [env_record envelope]" "re_world x = w" "re_status x = Status_ok ''message skipped''"
    using e(2) by (simp_all add: handle_result_def mark_commit_def)
qed

subsection \<open>Dead letters\<close>

definition propagation_keys :: "string list" where
  "propagation_keys = [''traceparent'', ''tracestate'', ''baggage'']"

text \<open>The propagator of trace contexts only writes its own keys.\<close>

definition propagates_only :: "(go_ctx \<Rightarrow> (string, string) go_map \<Rightarrow> (string, string) go_map) \<Rightarrow> bool" where
  "propagates_only inject \<longleftrightarrow> (\<forall>ctx m k. k \<notin> set propagation_keys \<longrightarrow> map_of (inject ctx m) k = map_of m k)"

definition header_lookup :: "record_header list \<Rightarrow> string \<Rightarrow> string option" where
  "header_lookup hs = map_of (map (\<lambda>h. (rh_key h, rh_value h)) hs)"

lemma header_lookup_pairs: "header_lookup (map (\<lambda>(k, v). RecordHeader k v) m) = map_of m"
  by (induction m) (auto simp: header_lookup_def)

lemma map_of_headers_map: "map_of (headers_map hs) = header_lookup (rev hs)"
  by (simp add: headers_map_def map_of_map_from header_lookup_def rev_map)

lemma header_lookup_append: "header_lookup (xs @ ys) = header_lookup ys ++ header_lookup xs"
  by (simp add: header_lookup_def)

lemma record_slug_lookup: "record_slug hs = header_lookup hs header_key"
  by (simp add: record_slug_def header_lookup_def)

lemma header_lookup_rev: "distinct (map rh_key hs) \<Longrightarrow> header_lookup (rev hs) = header_lookup hs"
  unfolding header_lookup_def by (rule map_of_permuted [symmetric, OF _ , symmetric]) (simp_all add: comp_def rev_map)

lemma inject_context_lookup:
  assumes "propagates_only (tr_inject tr)" and "k \<notin> set propagation_keys"
  shows "header_lookup (rec_headers (inject_context tr ctx rec)) k = header_lookup (rev (rec_headers rec)) k"
  using assms by (simp add: inject_context_def header_lookup_pairs propagates_only_def map_of_headers_map)

text \<open>
  The dead letter of a record has its key and value, goes to the configured topic, and carries the
  original topic, partition and offset and the error's text; every other header of the record is kept
  (its last value where a key is repeated), the tenant's among them when no key is repeated.
\<close>

theorem dead_letter_keeps_record:
  assumes "propagates_only (tr_inject tr)"
    and "d = inject_context tr ctx (dlq_record dlqTopic now rec e)"
  shows "rec_topic d = dlqTopic \<and> rec_key d = rec_key rec \<and> rec_value d = rec_value rec
    \<and> header_lookup (rec_headers d) ''dlq.original.topic'' = Some (rec_topic rec)
    \<and> header_lookup (rec_headers d) ''dlq.original.partition'' = Some (int_text (rec_partition rec))
    \<and> header_lookup (rec_headers d) ''dlq.original.offset'' = Some (int_text (rec_offset rec))
    \<and> header_lookup (rec_headers d) ''dlq.error'' = Some (error_text e)
    \<and> (\<forall>k. k \<notin> set propagation_keys \<longrightarrow> k \<notin> {''dlq.original.topic'', ''dlq.original.partition'', ''dlq.original.offset'',
         ''dlq.error'', ''dlq.timestamp''} \<longrightarrow> header_lookup (rec_headers d) k = header_lookup (rev (rec_headers rec)) k)
    \<and> (distinct (map rh_key (rec_headers rec)) \<longrightarrow> record_slug (rec_headers d) = record_slug (rec_headers rec))"
proof -
  have look: "header_lookup (rec_headers d) k
      = (header_lookup (rev (rec_headers rec)) ++ header_lookup (rev (drop (length (rec_headers rec)) (rec_headers (dlq_record dlqTopic now rec e))))) k"
    if "k \<notin> set propagation_keys" for k
    unfolding assms(2) inject_context_lookup [OF assms(1) that] by (simp add: dlq_record_def flip: header_lookup_append)
  show ?thesis
    using header_lookup_rev [of "rec_headers rec"]
    by (simp add: look propagation_keys_def record_slug_lookup header_key_def)
      (simp add: assms(2) inject_context_def dlq_record_def header_lookup_def map_add_def)
qed

subsection \<open>The properties at concrete messages\<close>

definition sample_tracing :: tracing_lib where
  "sample_tracing = \<lparr>tr_extract = (\<lambda>ctx _. ctx), tr_inject = (\<lambda>_ m. map_put ''traceparent'' ''00-1'' m),
     tr_start = (\<lambda>ctx _. ctx)\<rparr>"

definition sample_processor :: processor where
  "sample_processor = \<lparr>pr_max_retries = 2, pr_initial_backoff = second, pr_max_backoff = 30 * second, pr_timeout = 30 * second\<rparr>"

definition sample_envelope :: "string message_envelope" where
  "sample_envelope = \<lparr>env_event = ''created'', env_record = \<lparr>rec_topic = ''orders'', rec_key = ''k'', rec_value = ''v'',
     rec_partition = 3, rec_offset = 42, rec_headers = [RecordHeader ''x-tenant-slug'' ''acme'']\<rparr>\<rparr>"

definition mem_produce :: "go_ctx \<Rightarrow> kafka_record \<Rightarrow> kafka_record list \<Rightarrow> go_error option \<times> kafka_record list" where
  "mem_produce ctx rec w = (if ctx_done ctx then (ctx_err ctx, w) else (None, w @ [rec]))"

definition failing_handler :: "(string, nat) event_handler" where
  "failing_handler ctx timeout event w = (Inr (Some (New_error ''boom'')), w + 1)"

definition panicking_handler :: "(string, kafka_record list) event_handler" where
  "panicking_handler ctx timeout event w = (Inl ''nil map'', w)"

definition giving_up_handler :: "(string, kafka_record list) event_handler" where
  "giving_up_handler ctx timeout event w = (Inr (ctx_err ctx), w)"

lemmas sample_defs = sample_tracing_def sample_processor_def sample_envelope_def failing_handler_def
  panicking_handler_def giving_up_handler_def

lemma sample_run: "execute_with_retry plain_retry sample_processor failing_handler ctx_background ''created'' 0
    = (Some (New_error ''boom''), 3, [Level_debug, Level_debug, Level_error], 3)"
proof -
  have op: "retry_operation failing_handler 30000000000 2 ctx_background ''created'' (k, l, w)
      = (Retry_again (New_error ''boom''), k + 1, l @ [if 2 < k + 1 then Level_error else Level_debug], w + 1)" for k l w
    by (simp add: retry_operation_eq process_defs failing_handler_def verdict_def retryable_def attempt_lines_def panic_lines_def)
  have bg: "ctx_err ctx_background = None" by (simp add: ctx_background_def)
  have two: "run_retry c 2 f s = run_retry c (Suc (Suc 0)) f s" for c and f :: "nat attempt_state \<Rightarrow> _" and s
    by (simp only: numeral_2_eq_2)
  show ?thesis
    using bg by (simp add: execute_with_retry_def plain_retry_def sample_processor_def two op)
qed

lemma retry_attempts_bounded_witness:
  "\<exists>n \<le> 2. (3 :: nat) = n + 1 \<and> (\<forall>k < n. \<exists>e. fst (nth_call (process_event failing_handler (30 * second) ctx_background ''created'') k (0 :: nat)) = Some e \<and> retryable e)"
  using retry_attempts_bounded [OF plain_retry_documented sample_run refl]
  unfolding sample_processor_def processor.simps by blast

lemma processed_message_marked_once_witness:
  "re_marked (process_message sample_tracing plain_retry sample_processor failing_handler noop_dlq ctx_background
     sample_envelope 0 []) = [env_record sample_envelope]"
proof -
  have ok: "ctx_err (message_context sample_tracing ctx_background (env_record sample_envelope)) = Some c \<Longrightarrow>
      \<not> errors_is c ErrSkipMessage" for c
    by (simp add: message_context_def extract_context_def sample_defs context_from_kafka_headers_eq record_slug_def
        header_key_def context_with_slug_def ctx_background_def)
  show ?thesis
    using processed_message_marked_once [where marked = "[]", OF plain_retry_documented refl refl ok refl, THEN conjunct1]
    by simp
qed

lemma handler_panic_contained_witness:
  "\<not> re_stack_logged (process_message sample_tracing plain_retry sample_processor panicking_handler
       (send_to_dlq mem_produce ''orders.dlq'' sample_tracing ''now'') ctx_background sample_envelope [] [])
   \<and> fst (snd (snd (execute_with_retry plain_retry sample_processor panicking_handler
       (message_context sample_tracing ctx_background (env_record sample_envelope)) ''created'' []))) = [Panic_with_stack ''nil map'']"
proof -
  have panics: "panicking_handler (message_context sample_tracing ctx_background (env_record sample_envelope))
      (pr_timeout sample_processor) (env_event sample_envelope) [] = (Inl ''nil map'', [])"
    by (simp add: panicking_handler_def)
  have ev: "env_event sample_envelope = ''created''" by (simp add: sample_envelope_def)
  from handler_panic_contained [where dlq = "send_to_dlq mem_produce ''orders.dlq'' sample_tracing ''now''" and marked = "[]"
      and handler = panicking_handler and p = sample_processor and envelope = sample_envelope and w = "[]" and tr = sample_tracing
      and ctx = ctx_background, OF plain_retry_documented refl panics refl] ev show ?thesis by auto
qed

lemma shutdown_marks_unprocessed_witness:
  "re_world (process_message sample_tracing plain_retry sample_processor giving_up_handler
     (send_to_dlq mem_produce ''orders.dlq'' sample_tracing ''now'')
     (ctx_background\<lparr>ctx_err := Some (Sentinel ContextCanceled)\<rparr>) sample_envelope [] []) = []"
proof -
  let ?ctx = "ctx_background\<lparr>ctx_err := Some (Sentinel ContextCanceled)\<rparr>"
  have ctx': "ctx_err (message_context sample_tracing ?ctx (env_record sample_envelope)) = Some (Sentinel ContextCanceled)"
    by (simp add: message_context_def extract_context_def sample_defs context_from_kafka_headers_eq record_slug_def
        header_key_def context_with_slug_def)
  have start: "tr_start sample_tracing ctx name = ctx" for ctx name by (simp add: sample_tracing_def)
  show ?thesis
    by (rule shutdown_marks_unprocessed [where e = "Sentinel ContextCanceled",
          OF plain_retry_documented refl ctx' _ _ _ _ refl, THEN conjunct2])
      (simp_all add: ctx' process_defs giving_up_handler_def retryable_def mem_produce_def start)
qed

lemma router_dispatches_witness:
  "re_status (process_message sample_tracing plain_retry sample_processor
      (router_process id id (fold (\<lambda>(t, fn). router_register t fn) [(''deleted'', giving_up_handler)] new_router))
      noop_dlq ctx_background sample_envelope [] []) = Status_ok ''message skipped''"
  by (rule router_dispatches [OF plain_retry_documented refl refl, THEN conjunct2, rule_format, THEN conjunct2, THEN conjunct2])
    (simp add: sample_envelope_def)

lemma dead_letter_keeps_record_witness:
  "header_lookup (rec_headers (inject_context sample_tracing ctx_background
     (dlq_record ''orders.dlq'' ''now'' (env_record sample_envelope) (New_error ''boom'')))) ''dlq.error'' = Some ''boom''"
proof -
  have "propagates_only (tr_inject sample_tracing)"
    by (simp add: propagates_only_def propagation_keys_def sample_tracing_def)
  from dead_letter_keeps_record [OF this refl, of ctx_background "''orders.dlq''" "''now''" "env_record sample_envelope" "New_error ''boom''"]
  show ?thesis by simp
qed

end
