(* ===== verification/Consumer_Pipeline.thy ===== *)
theory Consumer_Pipeline
  imports Consumer_Results "HOL-Library.Sublist"
begin

section \<open>The consumer as a pipeline of workers\<close>

text \<open>
  \<^verbatim>\<open>reader.go\<close>, the loops of \<^verbatim>\<open>deserializer.go\<close> and \<^verbatim>\<open>processor.go\<close>, and \<^verbatim>\<open>core/logger/throttler.go\<close>:
  three workers joined by two channels of capacity \<^verbatim>\<open>ChannelBufferSize\<close>, as one step relation. The broker
  decides what a poll returns. History variables record every record the broker handed out, every call of the
  dead letter handler by the deserializer, and what a worker threw away with the context it saw. They watch the calls themselves:
  the poll and the dead letter handler the workers are given write them.
\<close>

subsection \<open>Throttled logging\<close>

text \<open>
  \<open>allow\<close> is \<^verbatim>\<open>rate.Limiter.Allow\<close> of a limiter made with one event per interval; the throttler keeps
  one limiter per key.
\<close>

record 'l throttler =
  th_limiters :: "(string, 'l) go_map"
  th_interval :: duration

definition new_log_throttler :: "duration \<Rightarrow> 'l throttler" where
  "new_log_throttler interval = \<lparr>th_limiters = [], th_interval = if_zero (5 * minute) interval\<rparr>"

definition get_limiter :: "(duration \<Rightarrow> 'l) \<Rightarrow> string \<Rightarrow> 'l throttler \<Rightarrow> 'l \<times> 'l throttler" where
  "get_limiter new_limiter key t =
     (case map_of (th_limiters t) key of
        Some l \<Rightarrow> (l, t)
      | None \<Rightarrow> (let l = new_limiter (th_interval t)
                in (l, t\<lparr>th_limiters := map_put key l (th_limiters t)\<rparr>)))"

datatype throttled_level = Throttled_warn | Throttled_debug

definition throttled_log :: "(duration \<Rightarrow> 'l) \<Rightarrow> (time \<Rightarrow> 'l \<Rightarrow> bool \<times> 'l) \<Rightarrow> time \<Rightarrow> string \<Rightarrow> 'l throttler
    \<Rightarrow> throttled_level \<times> 'l throttler" where
  "throttled_log new_limiter allow now key t =
     (let (l, t) = get_limiter new_limiter key t;
          (allowed, l') = allow now l
      in (if allowed then Throttled_warn else Throttled_debug, t\<lparr>th_limiters := map_put key l' (th_limiters t)\<rparr>))"

subsection \<open>The reader\<close>

text \<open>What the reader logs for an error of a fetch: nothing when it was cancelled.\<close>

datatype fetch_log = Log_nothing | Log_throttled | Log_error

definition fetch_error_log :: "go_error \<Rightarrow> fetch_log" where
  "fetch_error_log e =
     (if errors_is e ContextCanceled \<or> errors_is e ContextDeadlineExceeded then Log_nothing
      else if errors_is_lib e KerrUnknownTopicOrPartition then Log_throttled
      else Log_error)"

text \<open>
  The reader polls, or hands over the records of a poll one by one, or has returned. \<open>ctx\<close> is its
  context before the poll and \<open>ctx'\<close> after it; \<open>poll\<close> is \<^verbatim>\<open>PollRecords\<close>, which is not called when the context is finished before.
  It returns errors and records, both of which a poll can have.
\<close>

datatype reader_state = Reader_polling | Reader_delivering "kafka_record list" | Reader_stopped

definition reader_poll :: "go_ctx \<Rightarrow> go_ctx \<Rightarrow> ('p \<Rightarrow> (go_error list \<times> kafka_record list) \<times> 'p) \<Rightarrow> 'p
    \<Rightarrow> reader_state \<times> fetch_log list \<times> 'p" where
  "reader_poll ctx ctx' poll p =
     (if ctx_done ctx then (Reader_stopped, [], p)
      else (let (fetches, p') = poll p
            in if ctx_done ctx' then (Reader_stopped, [], p')
               else (Reader_delivering (snd fetches), map fetch_error_log (fst fetches), p')))"

text \<open>
  The callback of \<^verbatim>\<open>EachRecord\<close>: its \<^verbatim>\<open>return\<close> only leaves this record. The result is the record when it
  was dropped, and the channel.
\<close>

definition reader_send :: "nat \<Rightarrow> go_ctx \<Rightarrow> nat \<Rightarrow> kafka_record \<Rightarrow> kafka_record list \<Rightarrow> (kafka_record option \<times> kafka_record list) option" where
  "reader_send cap ctx pick rec chan = go_select pick
     [(ctx_done ctx, (Some rec, chan)), (length chan < cap, (None, chan @ [rec]))]"

subsection \<open>The loops of the deserializer and the processor\<close>

text \<open>One iteration's \<^verbatim>\<open>select\<close>: \<open>None\<close> inside when the worker returns.\<close>

definition take_next :: "go_ctx \<Rightarrow> nat \<Rightarrow> 'a list \<Rightarrow> 'a option option" where
  "take_next ctx pick chan = go_select pick [(ctx_done ctx, None), (chan \<noteq> [], Some (hd chan))]"

definition envelope_send :: "nat \<Rightarrow> go_ctx \<Rightarrow> nat \<Rightarrow> 'ev message_envelope \<Rightarrow> 'ev message_envelope list
    \<Rightarrow> ('ev message_envelope option \<times> 'ev message_envelope list) option" where
  "envelope_send cap ctx pick envelope chan = go_select pick
     [(ctx_done ctx, (Some envelope, chan)), (length chan < cap, (None, chan @ [envelope]))]"

subsection \<open>The pipeline\<close>

record ('t, 'ev, 'w) consumer_parts =
  cp_registry :: "('t, 'ev) proto_registry"
  cp_tracing :: tracing_lib
  cp_retry :: "'w retry_lib"
  cp_processor :: processor
  cp_handler :: "('ev, 'w) event_handler"
  cp_dlq :: "'w dlq_handler"
  cp_buffer :: nat

record ('ev, 'w) consumer_system =
  co_reader :: reader_state
  co_messages :: "kafka_record list"
  co_holding :: "'ev message_envelope option"
  co_envelopes :: "'ev message_envelope list"
  co_world :: 'w
  co_marked :: "kafka_record list"
  co_polled :: "kafka_record list"
  co_dead :: "kafka_record list"
  co_dropped :: "(kafka_record \<times> go_ctx) list"

definition consumer_start :: "'w \<Rightarrow> ('ev, 'w) consumer_system" where
  "consumer_start w = \<lparr>co_reader = Reader_polling, co_messages = [], co_holding = None, co_envelopes = [],
     co_world = w, co_marked = [], co_polled = [], co_dead = [], co_dropped = []\<rparr>"

text \<open>
  The poll and the dead letter handler with their history: what the broker handed out, and the records
  \<^verbatim>\<open>SendToDLQ\<close> was called with.
\<close>

definition watched_poll :: "go_error list \<times> kafka_record list \<Rightarrow> kafka_record list
    \<Rightarrow> (go_error list \<times> kafka_record list) \<times> kafka_record list" where
  "watched_poll fetches polled = (fetches, polled @ snd fetches)"

definition watched_dlq :: "'w dlq_handler \<Rightarrow> ('w \<times> kafka_record list) dlq_handler" where
  "watched_dlq dlq ctx rec err = (\<lambda>(w, dead). (let (status, w') = dlq ctx rec err w in (status, (w', dead @ [rec]))))"

text \<open>What was handed to the reader and is not delivered is thrown away with the poll.\<close>

definition thrown_away :: "reader_state \<Rightarrow> kafka_record list \<Rightarrow> kafka_record list" where
  "thrown_away rd polled = (case rd of Reader_delivering rs \<Rightarrow> [] | _ \<Rightarrow> polled)"

text \<open>The contexts the workers see are drawn from the set \<open>ctxs\<close>.\<close>

inductive consumer_step ::
  "('t, 'ev, 'w) consumer_parts \<Rightarrow> go_ctx set \<Rightarrow> ('ev, 'w) consumer_system \<Rightarrow> ('ev, 'w) consumer_system \<Rightarrow> bool"
  for parts ctxs where
  poll: "ctx \<in> ctxs \<Longrightarrow> ctx' \<in> ctxs \<Longrightarrow> co_reader x = Reader_polling \<Longrightarrow>
    reader_poll ctx ctx' (watched_poll fetches) [] = (rd, logs, polled) \<Longrightarrow>
    consumer_step parts ctxs x (x\<lparr>co_reader := rd, co_polled := co_polled x @ polled,
      co_dropped := co_dropped x @ map (\<lambda>r. (r, ctx')) (thrown_away rd polled)\<rparr>)"
| polled_all: "co_reader x = Reader_delivering [] \<Longrightarrow>
    consumer_step parts ctxs x (x\<lparr>co_reader := Reader_polling\<rparr>)"
| send: "ctx \<in> ctxs \<Longrightarrow> co_reader x = Reader_delivering (rec # recs) \<Longrightarrow>
    reader_send (cp_buffer parts) ctx pick rec (co_messages x) = Some (dropped, chan) \<Longrightarrow>
    consumer_step parts ctxs x (x\<lparr>co_reader := Reader_delivering recs, co_messages := chan,
      co_dropped := co_dropped x @ (case dropped of None \<Rightarrow> [] | Some r \<Rightarrow> [(r, ctx)])\<rparr>)"
| deserialize: "ctx \<in> ctxs \<Longrightarrow> co_holding x = None \<Longrightarrow> co_messages x = rec # recs \<Longrightarrow>
    take_next ctx pick (co_messages x) = Some (Some rec) \<Longrightarrow>
    deserialize_record (cp_registry parts) (cp_tracing parts) (watched_dlq (cp_dlq parts)) ctx rec (co_world x, co_dead x)
      = (holding, (w, dead)) \<Longrightarrow>
    consumer_step parts ctxs x (x\<lparr>co_messages := recs, co_holding := holding, co_world := w, co_dead := dead\<rparr>)"
| forward: "ctx \<in> ctxs \<Longrightarrow> co_holding x = Some envelope \<Longrightarrow>
    envelope_send (cp_buffer parts) ctx pick envelope (co_envelopes x) = Some (dropped, chan) \<Longrightarrow>
    consumer_step parts ctxs x (x\<lparr>co_holding := None, co_envelopes := chan,
      co_dropped := co_dropped x @ (case dropped of None \<Rightarrow> [] | Some e \<Rightarrow> [(env_record e, ctx)])\<rparr>)"
| process: "ctx \<in> ctxs \<Longrightarrow> co_envelopes x = envelope # envelopes \<Longrightarrow>
    take_next ctx pick (co_envelopes x) = Some (Some envelope) \<Longrightarrow>
    process_message (cp_tracing parts) (cp_retry parts) (cp_processor parts) (cp_handler parts) (cp_dlq parts)
      ctx envelope (co_world x) (co_marked x) = effects \<Longrightarrow>
    consumer_step parts ctxs x (x\<lparr>co_envelopes := envelopes, co_world := re_world effects, co_marked := re_marked effects\<rparr>)"

inductive consumer_reach ::
  "('t, 'ev, 'w) consumer_parts \<Rightarrow> go_ctx set \<Rightarrow> 'w \<Rightarrow> ('ev, 'w) consumer_system \<Rightarrow> bool"
  for parts ctxs w where
  init: "consumer_reach parts ctxs w (consumer_start w)"
| step: "consumer_reach parts ctxs w x \<Longrightarrow> consumer_step parts ctxs x y \<Longrightarrow> consumer_reach parts ctxs w y"

inductive_cases consumer_stepE: "consumer_step parts ctxs x y"

subsection \<open>The invariant\<close>

text \<open>What the reader has still to hand over, and a record that deserializes.\<close>

fun undelivered :: "reader_state \<Rightarrow> kafka_record list" where
  "undelivered (Reader_delivering rs) = rs"
| "undelivered rd = []"

definition readable :: "('t, 'ev) proto_registry \<Rightarrow> kafka_record \<Rightarrow> bool" where
  "readable reg rec \<longleftrightarrow> is_ok (proto_deserialize reg (rec_value rec) (headers_map (rec_headers rec)))"

definition held_records :: "('ev, 'w) consumer_system \<Rightarrow> kafka_record list" where
  "held_records x = map env_record (co_envelopes x) @ (case co_holding x of None \<Rightarrow> [] | Some e \<Rightarrow> [env_record e])"

definition waiting_records :: "('ev, 'w) consumer_system \<Rightarrow> kafka_record list" where
  "waiting_records x = co_messages x @ undelivered (co_reader x)"

definition consumer_inv :: "('t, 'ev, 'w) consumer_parts \<Rightarrow> ('ev, 'w) consumer_system \<Rightarrow> bool" where
  "consumer_inv parts x \<longleftrightarrow>
     mset (co_polled x) = mset (co_marked x) + mset (co_dead x) + mset (map fst (co_dropped x))
       + mset (held_records x) + mset (waiting_records x)
   \<and> (\<forall>(r, ctx) \<in> set (co_dropped x). ctx_done ctx)
   \<and> subseq (co_marked x @ held_records x @ waiting_records x) (co_polled x)
   \<and> list_all (readable (cp_registry parts)) (co_marked x @ held_records x)
   \<and> list_all (\<lambda>r. \<not> readable (cp_registry parts) r) (co_dead x)
   \<and> length (co_messages x) \<le> cp_buffer parts \<and> length (co_envelopes x) \<le> cp_buffer parts
   \<and> (co_dropped x = [] \<longrightarrow>
        co_marked x @ held_records x @ filter (readable (cp_registry parts)) (waiting_records x)
          = filter (readable (cp_registry parts)) (co_polled x)
      \<and> co_dead x @ filter (\<lambda>r. \<not> readable (cp_registry parts) r) (waiting_records x)
          = filter (\<lambda>r. \<not> readable (cp_registry parts) r) (co_polled x))"

lemma subseq_drop_middle: "subseq (xs @ y # ys) zs \<Longrightarrow> subseq (xs @ ys) zs"
  by (rule subseq_order.trans [of _ "xs @ y # ys"]) (simp add: subseq_append' list_emb_Cons)

lemma subseq_same_end: "subseq xs zs \<Longrightarrow> subseq (xs @ ys) (zs @ ys)"
  by (simp add: list_emb_append_mono)

lemma send_cases:
  assumes "reader_send cap ctx pick rec chan = Some (dropped, chan')"
  shows "dropped = Some rec \<and> chan' = chan \<and> ctx_done ctx \<or> dropped = None \<and> chan' = chan @ [rec] \<and> length chan < cap"
  using go_select_ready [OF assms [unfolded reader_send_def]] by auto

lemma forward_cases:
  assumes "envelope_send cap ctx pick e chan = Some (dropped, chan')"
  shows "dropped = Some e \<and> chan' = chan \<and> ctx_done ctx \<or> dropped = None \<and> chan' = chan @ [e] \<and> length chan < cap"
  using go_select_ready [OF assms [unfolded envelope_send_def]] by auto

lemma deserialize_cases:
  assumes "deserialize_record reg tr (watched_dlq dlq) ctx rec (w, dead) = (holding, (w', dead'))"
  shows "(case holding of None \<Rightarrow> \<not> readable reg rec \<and> dead' = dead @ [rec]
    | Some e \<Rightarrow> readable reg rec \<and> env_record e = rec \<and> w' = w \<and> dead' = dead
        \<and> proto_deserialize reg (rec_value rec) (headers_map (rec_headers rec)) = Inr (env_event e))"
  using assms by (auto simp: deserialize_record_def readable_def watched_dlq_def split: sum.splits prod.splits)

lemma poll_cases:
  assumes "reader_poll ctx ctx' (watched_poll fetches) [] = (rd, logs, polled)"
  shows "rd = Reader_delivering polled \<and> thrown_away rd polled = []
    \<or> rd = Reader_stopped \<and> thrown_away rd polled = polled \<and> (polled = [] \<or> ctx_done ctx')"
  using assms by (auto simp: reader_poll_def watched_poll_def thrown_away_def split: if_splits)

lemma consumer_step_inv:
  assumes "consumer_inv parts x" and "consumer_step parts ctxs x y"
  shows "consumer_inv parts y"
  using assms(2)
proof cases
  case (poll ctx ctx' fetches rd logs polled)
  have "subseq (co_marked x @ held_records x @ co_messages x) (co_polled x @ polled)"
    using poll(4) assms(1) by (auto simp: consumer_inv_def waiting_records_def intro: subseq_order.trans)
  with poll_cases [OF poll(5)] poll(1,4) assms(1)
    subseq_same_end [of "co_marked x @ held_records x @ co_messages x" "co_polled x" polled]
  show ?thesis by (auto simp: consumer_inv_def held_records_def waiting_records_def comp_def)
next
  case polled_all
  with assms(1) show ?thesis by (auto simp: consumer_inv_def held_records_def waiting_records_def)
next
  case (send ctx rec recs pick dropped chan)
  from send_cases [OF send(4)] send(1,3) assms(1)
    subseq_drop_middle [of "co_marked x @ held_records x @ co_messages x" rec recs "co_polled x"]
  show ?thesis by (auto simp: consumer_inv_def held_records_def waiting_records_def)
next
  case (deserialize ctx rec recs pick holding w dead)
  from deserialize_cases [OF deserialize(6)] deserialize(1,3,4) assms(1)
    subseq_drop_middle [of "co_marked x @ held_records x" rec "recs @ undelivered (co_reader x)" "co_polled x"]
  show ?thesis
    by (auto simp: consumer_inv_def held_records_def waiting_records_def split: option.splits)
next
  case (forward ctx envelope pick dropped chan)
  from forward_cases [OF forward(4)] forward(1,3) assms(1)
    subseq_drop_middle [of "co_marked x @ map env_record (co_envelopes x)" "env_record envelope" "waiting_records x" "co_polled x"]
  show ?thesis by (auto simp: consumer_inv_def held_records_def waiting_records_def)
next
  case (process ctx envelope envelopes pick effects)
  from process(5) process_message_marks [of "cp_tracing parts" "cp_retry parts" "cp_processor parts" "cp_handler parts"
      "cp_dlq parts" ctx envelope "co_world x" "co_marked x"] have "re_marked effects = co_marked x @ [env_record envelope]" by simp
  with process(1,3) assms(1) show ?thesis
    by (auto simp: consumer_inv_def held_records_def waiting_records_def)
qed

lemma consumer_reach_inv: "consumer_reach parts ctxs w x \<Longrightarrow> consumer_inv parts x"
proof (induction rule: consumer_reach.induct)
  case init
  show ?case by (simp add: consumer_inv_def consumer_start_def held_records_def waiting_records_def)
next
  case (step x y)
  then show ?case using consumer_step_inv by blast
qed

lemma contexts_seen:
  assumes "consumer_reach parts ctxs w x"
  shows "snd ` set (co_dropped x) \<subseteq> ctxs"
  using assms
proof (induction rule: consumer_reach.induct)
  case init
  show ?case by (simp add: consumer_start_def)
next
  case (step x y)
  from step(2,3) show ?case by cases (auto split: option.splits)
qed


subsection \<open>Accounting and order\<close>

text \<open>
  C5. Every record the broker handed out is, at every moment, in exactly one place: marked for commit, given to the
  dead letter handler because it could not be deserialized, thrown away by a worker that saw a finished context, or still in the
  pipeline. No record is thrown away otherwise: a fetch with errors still delivers its records. Records are marked in the order
  in which they were polled, only readable ones are processed, and the channels never hold more than \<^verbatim>\<open>ChannelBufferSize\<close> entries.
\<close>

theorem consumer_accounts_for_records:
  assumes "consumer_reach parts ctxs w x"
  shows "mset (co_polled x) = mset (co_marked x) + mset (co_dead x) + mset (map fst (co_dropped x))
       + mset (held_records x) + mset (waiting_records x)
    \<and> (\<forall>(r, ctx) \<in> set (co_dropped x). ctx \<in> ctxs \<and> ctx_done ctx)
    \<and> subseq (co_marked x) (co_polled x)
    \<and> list_all (readable (cp_registry parts)) (co_marked x) \<and> list_all (\<lambda>r. \<not> readable (cp_registry parts) r) (co_dead x)
    \<and> length (co_messages x) \<le> cp_buffer parts \<and> length (co_envelopes x) \<le> cp_buffer parts"
proof -
  have inv: "consumer_inv parts x" by (rule consumer_reach_inv [OF assms])
  have "subseq (co_marked x) (co_marked x @ held_records x @ waiting_records x)" 
    using list_emb_append_mono [of "(=)" "co_marked x" "co_marked x" "[]" "held_records x @ waiting_records x"] by simp
  with inv have "subseq (co_marked x) (co_polled x)" unfolding consumer_inv_def by (meson subseq_order.trans)
  with inv contexts_seen [OF assms] show ?thesis by (auto simp: consumer_inv_def)
qed


subsection \<open>Progress\<close>

text \<open>How far the records in the pipeline still have to go.\<close>

definition pipeline_work :: "('ev, 'w) consumer_system \<Rightarrow> nat" where
  "pipeline_work x = 4 * length (undelivered (co_reader x)) + 3 * length (co_messages x)
     + (case co_holding x of None \<Rightarrow> 0 | Some e \<Rightarrow> 2) + length (co_envelopes x)"

lemma pipeline_work_zero: "pipeline_work x = 0 \<Longrightarrow> held_records x = [] \<and> waiting_records x = []"
  by (auto simp: pipeline_work_def held_records_def waiting_records_def split: option.splits)

lemma take_next_ready: "\<not> ctx_done ctx \<Longrightarrow> take_next ctx pick (a # as) = Some (Some a)"
  by (simp add: take_next_def go_select_def)

lemma pipeline_progress:
  assumes "c \<in> ctxs" and "\<not> ctx_done c" and "0 < cp_buffer parts" and "0 < pipeline_work x"
  shows "\<exists>y. consumer_step parts ctxs x y \<and> co_polled y = co_polled x \<and> pipeline_work y < pipeline_work x"
proof (cases "co_envelopes x")
  case (Cons e es)
  let ?eff = "process_message (cp_tracing parts) (cp_retry parts) (cp_processor parts) (cp_handler parts) (cp_dlq parts)
      c e (co_world x) (co_marked x)"
  have "consumer_step parts ctxs x (x\<lparr>co_envelopes := es, co_world := re_world ?eff, co_marked := re_marked ?eff\<rparr>)"
    by (rule consumer_step.process [where pick = 0, OF assms(1) Cons _ refl]) (simp add: Cons take_next_ready [OF assms(2)])
  then show ?thesis by (intro exI conjI) (assumption, simp_all add: pipeline_work_def Cons)
next
  case Nil
  show ?thesis
  proof (cases "co_holding x")
    case (Some e)
    have "envelope_send (cp_buffer parts) c 0 e (co_envelopes x) = Some (None, [e])"
      using assms(2,3) Nil by (simp add: envelope_send_def go_select_def)
    from consumer_step.forward [OF assms(1) Some this]
    show ?thesis by (intro exI conjI) (assumption, simp_all add: pipeline_work_def Nil Some)
  next
    case None
    show ?thesis
    proof (cases "co_messages x")
      case (Cons r rs)
      obtain h w dead where h: "deserialize_record (cp_registry parts) (cp_tracing parts) (watched_dlq (cp_dlq parts)) c r
          (co_world x, co_dead x) = (h, (w, dead))" by (metis surj_pair)
      have "take_next c 0 (co_messages x) = Some (Some r)" by (simp add: Cons take_next_ready [OF assms(2)])
      from consumer_step.deserialize [OF assms(1) None Cons this h]
      show ?thesis by (intro exI conjI) (assumption, simp_all add: pipeline_work_def Nil None Cons split: option.split)
    next
      case messages: Nil
      from assms(4) Nil None messages obtain r rs where rd: "co_reader x = Reader_delivering (r # rs)"
        by (cases "co_reader x") (auto simp: pipeline_work_def neq_Nil_conv)
      have "reader_send (cp_buffer parts) c 0 r (co_messages x) = Some (None, [r])"
        using assms(2,3) messages by (simp add: reader_send_def go_select_def)
      from consumer_step.send [OF assms(1) rd this]
      show ?thesis by (intro exI conjI) (assumption, simp_all add: pipeline_work_def Nil None messages rd)
    qed
  qed
qed

lemma pipeline_drains:
  assumes "c \<in> ctxs" and "\<not> ctx_done c" and "0 < cp_buffer parts" and "consumer_reach parts ctxs w x"
  shows "\<exists>y. consumer_reach parts ctxs w y \<and> rtranclp (consumer_step parts ctxs) x y \<and> co_polled y = co_polled x
    \<and> held_records y = [] \<and> waiting_records y = []"
  using assms(4)
proof (induction "pipeline_work x" arbitrary: x rule: less_induct)
  case less
  show ?case
  proof (cases "pipeline_work x = 0")
    case True
    with pipeline_work_zero less.prems show ?thesis by blast
  next
    case False
    with pipeline_progress [OF assms(1-3), of x] obtain y where y: "consumer_step parts ctxs x y" "co_polled y = co_polled x"
      "pipeline_work y < pipeline_work x" by auto
    from less.hyps [OF y(3) consumer_reach.step [OF less.prems y(1)]] y(1,2) show ?thesis
      by (metis converse_rtranclp_into_rtranclp)
  qed
qed

text \<open>
  C6. The pipeline never deadlocks: with channels of capacity one or more and a context that is not
  finished, from every state there is a run, without another poll, after which it is empty, so that every
  record that was polled is handled.
\<close>

theorem consumer_pipeline_drains:
  assumes "c \<in> ctxs" and "\<not> ctx_done c" and "0 < cp_buffer parts" and "consumer_reach parts ctxs w x"
  shows "\<exists>y. consumer_reach parts ctxs w y \<and> rtranclp (consumer_step parts ctxs) x y \<and> co_polled y = co_polled x
    \<and> held_records y = [] \<and> waiting_records y = []"
  by (rule pipeline_drains [OF assms])

subsection \<open>A run\<close>

definition sample_registry :: "(unit, string) proto_registry" where
  "sample_registry = \<lparr>reg_find = (\<lambda>name. if name = ''orders.v1.Created'' then Inr () else Inl (New_error ''not found'')),
     reg_unmarshal = (\<lambda>_ data. Inr data)\<rparr>"

definition sample_parts :: "(unit, string, nat) consumer_parts" where
  "sample_parts = \<lparr>cp_registry = sample_registry, cp_tracing = sample_tracing, cp_retry = plain_retry,
     cp_processor = sample_processor, cp_handler = failing_handler, cp_dlq = noop_dlq, cp_buffer = 1\<rparr>"

definition sample_record :: "string \<Rightarrow> int \<Rightarrow> kafka_record" where
  "sample_record typ offset = \<lparr>rec_topic = ''orders'', rec_key = ''k'', rec_value = ''v'', rec_partition = 0,
     rec_offset = offset, rec_headers = [RecordHeader ''event_type'' typ]\<rparr>"

abbreviation sample_polled :: "(string, nat) consumer_system" where
  "sample_polled \<equiv> (consumer_start 0)\<lparr>
     co_reader := Reader_delivering [sample_record ''orders.v1.Created'' 1, sample_record ''orders.v1.Unknown'' 2],
     co_polled := [sample_record ''orders.v1.Created'' 1, sample_record ''orders.v1.Unknown'' 2]\<rparr>"


lemma sample_polled_reached: "consumer_reach sample_parts {ctx_background} 0 sample_polled"
proof -
  have "reader_poll ctx_background ctx_background
        (watched_poll ([], [sample_record ''orders.v1.Created'' 1, sample_record ''orders.v1.Unknown'' 2])) []
      = (Reader_delivering [sample_record ''orders.v1.Created'' 1, sample_record ''orders.v1.Unknown'' 2], [],
         [sample_record ''orders.v1.Created'' 1, sample_record ''orders.v1.Unknown'' 2])"
    by (simp add: reader_poll_def watched_poll_def ctx_background_def)
  from consumer_reach.step [where parts = sample_parts and ctxs = "{ctx_background}" and w = 0,
      OF consumer_reach.init consumer_step.poll [OF _ _ _ this]]
  show ?thesis by (simp add: consumer_start_def thrown_away_def)
qed

lemma consumer_accounts_for_records_witness:
  "length (co_messages sample_polled) \<le> 1 \<and> mset (waiting_records sample_polled) = mset (co_polled sample_polled)"
  using consumer_accounts_for_records [OF sample_polled_reached]
  by (simp add: consumer_start_def held_records_def sample_parts_def)


lemma consumer_pipeline_drains_witness:
  "\<exists>y. rtranclp (consumer_step sample_parts {ctx_background}) sample_polled y \<and> waiting_records y = []"
proof -
  have "\<not> ctx_done ctx_background" "0 < cp_buffer sample_parts" by (simp_all add: ctx_background_def sample_parts_def)
  from consumer_pipeline_drains [OF singletonI this sample_polled_reached] show ?thesis by blast
qed

end
