(* ===== verification/Event_Round_Trip.thy ===== *)
theory Event_Round_Trip
  imports Outbox_Memory Consumer_Pipeline
begin

section \<open>An event from the outbox to a handler\<close>

text \<open>
  The producing service's \<^verbatim>\<open>Outbox.Create\<close> and \<^verbatim>\<open>Sender.send\<close> composed, through Kafka, with the
  consuming service's deserializer and processor: Kafka keeps a record's topic, key, value and headers
  and sets its partition and offset.
\<close>

lemma outbox_create_entity:
  assumes "outbox_create lib source (outbox_repository od mb) ctx msg s = (Inr e, s')"
  obtains payload headers where "ev_marshal lib (msg_event msg) = Inr payload"
    and "headers = the (save_to_headers ctx (Some (ev_inject lib ctx
           (snd (populate_headers lib source (msg_event msg) (case msg_headers msg of None \<Rightarrow> [] | Some h \<Rightarrow> h))))))"
    and "e = new_entity (od_now od s) payload (ev_uuid lib) (msg_key msg) (msg_topic msg) headers"
proof -
  let ?h = "the (save_to_headers ctx (Some (ev_inject lib ctx
           (snd (populate_headers lib source (msg_event msg) (case msg_headers msg of None \<Rightarrow> [] | Some h \<Rightarrow> h))))))"
  obtain payload where payload: "ev_marshal lib (msg_event msg) = Inr payload"
    using assms by (auto simp: outbox_create_def proto_serialize_def Let_def split: prod.splits sum.splits)
  have "fst (repo_create od ctx payload (ev_uuid lib) (msg_key msg) (msg_topic msg) ?h s) = Inr e"
    using assms payload
    by (auto simp: outbox_create_def proto_serialize_def outbox_repository_def populate_headers_def
        save_trace_context_def Let_def split: prod.splits sum.splits)
  then have "e = new_entity (od_now od s) payload (ev_uuid lib) (msg_key msg) (msg_topic msg) ?h"
    by (auto simp: repo_create_def Let_def split: prod.splits option.splits)
  with payload show ?thesis by (rule that [OF _ refl])
qed

lemma saved_headers_lookup:
  assumes "propagates_only (ev_inject lib)" and "k \<notin> set propagation_keys"
  shows "map_of (the (save_to_headers ctx (Some (ev_inject lib ctx m)))) k =
    (if k = header_key then (case slug_from_context ctx of Some slug \<Rightarrow> Some slug | None \<Rightarrow> map_of m k) else map_of m k)"
  using assms by (auto simp: save_to_headers_def propagates_only_def split: option.splits)

lemma populated_lookup:
  "map_of (snd (populate_headers lib source event h)) ''event_id'' = Some (ev_uuid lib)"
  "map_of (snd (populate_headers lib source event h)) ''event_type'' = Some (ev_type lib event)"
  by (simp_all add: populate_headers_def Let_def)

text \<open>
  C3. An event that \<^verbatim>\<open>Create\<close> stored in the outbox and the sender produced reaches the consumer's handler
  as the same event, on the topic and with the key it was created with, in the tenant of the context it
  was created in, whatever context the consumer runs in, and with the outbox message's ID as its event
  ID, provided that the consumer knows the event's type and unmarshalling inverts marshalling.
\<close>

theorem event_round_trip:
  assumes create: "outbox_create lib source (outbox_repository od mb) ctx msg s = (Inr e, s')"
    and traces: "propagates_only (ev_inject lib)" "propagates_only (\<lambda>_. inject)"
    and one_each: "distinct (map_keys (inject (ob_headers e)))"
    and known_type: "reg_find reg (ev_type lib (msg_event msg)) = Inr t"
    and inverse: "\<And>data. ev_marshal lib (msg_event msg) = Inr data \<Longrightarrow> reg_unmarshal reg t data = Inr (msg_event msg)"
    and spans: "\<And>c name. ctx_tenant (tr_start tr c name) = ctx_tenant c"
    and slug: "slug_from_context ctx = Some slug"
    and rec: "rec = (sender_record (kafka_headers inject (ob_headers e)) e)\<lparr>rec_partition := part, rec_offset := off\<rparr>"
  shows "deserialize_record reg tr dlq ctx2 rec w = (Some \<lparr>env_event = msg_event msg, env_record = rec\<rparr>, w)
    \<and> slug_from_context (message_context tr ctx2 rec) = Some slug
    \<and> header_lookup (rec_headers rec) ''event_id'' = Some (ob_id e)
    \<and> rec_topic rec = msg_topic msg \<and> rec_key rec = msg_key msg"
proof -
  from outbox_create_entity [OF create] obtain payload headers where
    payload: "ev_marshal lib (msg_event msg) = Inr payload"
    and headers: "headers = the (save_to_headers ctx (Some (ev_inject lib ctx
           (snd (populate_headers lib source (msg_event msg) (case msg_headers msg of None \<Rightarrow> [] | Some h \<Rightarrow> h))))))"
    and e: "e = new_entity (od_now od s) payload (ev_uuid lib) (msg_key msg) (msg_topic msg) headers" .
  have e_fields: "ob_headers e = headers" "ob_payload e = payload" "ob_topic e = msg_topic msg" "ob_key e = msg_key msg"
    "ob_id e = ev_uuid lib" by (simp_all add: e new_entity_def)
  have rec_fields: "rec_headers rec = map (\<lambda>(k, v). RecordHeader k v) (inject headers)" "rec_value rec = payload"
    "rec_topic rec = msg_topic msg" "rec_key rec = msg_key msg"
    by (simp_all add: rec sender_record_def kafka_headers_def e_fields)
  have look: "header_lookup (rec_headers rec) k = map_of headers k" if "k \<notin> set propagation_keys" for k
    using traces(2) that by (simp add: rec_fields header_lookup_pairs propagates_only_def)
  have keys: "map rh_key (rec_headers rec) = map_keys (inject headers)"
    by (simp add: rec_fields comp_def case_prod_beta)
  have rev: "header_lookup (rev (rec_headers rec)) = header_lookup (rec_headers rec)"
    using one_each by (intro header_lookup_rev) (simp add: keys e_fields)
  have ty: "map_of (headers_map (rec_headers rec)) ''event_type'' = Some (ev_type lib (msg_event msg))"
    by (simp add: map_of_headers_map rev look propagation_keys_def)
      (simp add: headers saved_headers_lookup [OF traces(1)] propagation_keys_def header_key_def populated_lookup)
  have event_id: "header_lookup (rec_headers rec) ''event_id'' = Some (ob_id e)"
    by (simp add: look propagation_keys_def)
      (simp add: headers saved_headers_lookup [OF traces(1)] propagation_keys_def header_key_def populated_lookup e_fields)
  have tenant: "record_slug (rec_headers rec) = Some slug"
    by (simp add: record_slug_lookup look propagation_keys_def header_key_def)
      (simp add: headers saved_headers_lookup [OF traces(1)] propagation_keys_def header_key_def slug)
  have deser: "deserialize_record reg tr dlq ctx2 rec w = (Some \<lparr>env_event = msg_event msg, env_record = rec\<rparr>, w)"
    using ty known_type inverse [OF payload] rec_fields(2) by (simp add: deserialize_record_def proto_deserialize_def)
  have "slug_from_context (message_context tr ctx2 rec) = Some slug"
    using spans slug_not_empty [OF slug] tenant
    by (simp add: message_context_def context_from_kafka_headers_eq slug_from_context_def context_with_slug_def)
  with deser event_id rec_fields show ?thesis by simp
qed

subsection \<open>A concrete event\<close>

definition shop_lib :: "string event_lib" where
  "shop_lib = \<lparr>ev_uuid = ''m1'', ev_millis = 0, ev_type = (\<lambda>_. ''orders.v1.Created''), ev_inject = (\<lambda>_ m. m), ev_marshal = Inr\<rparr>"

definition shop_message :: "string outbox_message" where
  "shop_message = \<lparr>msg_event = ''created'', msg_topic = ''orders'', msg_key = ''k1'', msg_headers = None\<rparr>"

definition shop_headers :: "(string, string) go_map" where
  "shop_headers = [(''event_id'', ''m1''), (''event_type'', ''orders.v1.Created''), (''source'', ''shop''),
     (''timestamp'', ''0''), (''x-tenant-slug'', ''acme'')]"

definition shop_entity :: outbox_entity where
  "shop_entity = new_entity 0 ''created'' ''m1'' ''k1'' ''orders'' shop_headers"

lemma shop_create:
  "outbox_create shop_lib ''shop'' (outbox_repository mem_od hour) (context_with_slug ctx_background ''acme'') shop_message (0, [])
    = (Inr shop_entity, (0, [shop_entity]))"
proof -
  have zero: "int_text 0 = ''0''" by code_simp
  let ?ctx = "context_with_slug ctx_background ''acme''"
  have ctx: "slug_from_context ?ctx = Some ''acme''" "ctx_err ?ctx = None"
    by simp (simp add: context_with_slug_def ctx_background_def)
  have hs: "populate_headers shop_lib ''shop'' ''created'' [] = (''m1'', butlast shop_headers)"
    by (simp add: populate_headers_def shop_lib_def shop_headers_def zero)
  have saved: "save_to_headers ?ctx (Some (butlast shop_headers)) = Some shop_headers"
    by (simp add: save_to_headers_def ctx shop_headers_def header_key_def)
  have store: "or_create (outbox_repository mem_od hour) ?ctx ''created'' ''m1'' ''k1'' ''orders'' shop_headers (0, [])
      = (Inr shop_entity, (0, [shop_entity]))"
    by (simp add: outbox_repository_def repo_create_def mem_outbox_insert_def ctx first_by_def shop_entity_def Let_def)
  show ?thesis
    by (simp add: outbox_create_def shop_message_def hs save_trace_context_def)
      (simp add: shop_lib_def saved proto_serialize_def store)
qed

lemma event_round_trip_witness:
  "slug_from_context (message_context sample_tracing ctx_background
     ((sender_record (kafka_headers id shop_headers) shop_entity)\<lparr>rec_partition := 3, rec_offset := 42\<rparr>)) = Some ''acme''"
proof -
  have h: "ob_headers shop_entity = shop_headers" by (simp add: shop_entity_def new_entity_def)
  have d: "distinct (map_keys (id (ob_headers shop_entity)))" by (simp add: h shop_headers_def)
  have t: "propagates_only (ev_inject shop_lib)" "propagates_only (\<lambda>_. id)" by (simp_all add: propagates_only_def shop_lib_def)
  have r: "reg_find sample_registry (ev_type shop_lib (msg_event shop_message)) = Inr ()"
    by (simp add: sample_registry_def shop_lib_def)
  have i: "ev_marshal shop_lib (msg_event shop_message) = Inr data \<Longrightarrow>
      reg_unmarshal sample_registry () data = Inr (msg_event shop_message)" for data
    by (simp add: sample_registry_def shop_lib_def)
  have sp: "ctx_tenant (tr_start sample_tracing c name) = ctx_tenant c" for c name by (simp add: sample_tracing_def)
  have sl: "slug_from_context (context_with_slug ctx_background ''acme'') = Some ''acme''" by simp
  from event_round_trip [where part = 3 and off = 42, OF shop_create t d r i sp sl refl, THEN conjunct2, THEN conjunct1]
  show ?thesis by (simp only: h)
qed

end
