(* ===== verification/Net_Url.thy ===== *)
theory Net_Url
  imports Core_Config
begin

section \<open>The standard library's package net/url\<close>

text \<open>
  What \<^verbatim>\<open>mongo/config.go\<close> and \<^verbatim>\<open>tenant/migrator.go\<close> use of it: escaping, \<^verbatim>\<open>URL.String\<close>, \<^verbatim>\<open>Values.Encode\<close> and
  \<^verbatim>\<open>url.Parse\<close>. The rules for the host, which differ between releases of Go (colons, IP literals), are a
  parameter of parsing. Parsing what is printed gives back the URL.
\<close>

subsection \<open>Escaping\<close>

datatype url_encoding =
  Encode_path | Encode_host | Encode_user_password | Encode_query_component | Encode_fragment

definition alphanumeric :: "char \<Rightarrow> bool" where
  "alphanumeric c = (let b = (of_char c :: nat) in
     97 \<le> b \<and> b \<le> 122 \<or> 65 \<le> b \<and> b \<le> 90 \<or> 48 \<le> b \<and> b \<le> 57)"

definition host_delims :: string where "host_delims = [CHR 0x22] @ ''!$&'' @ [CHR 0x27] @ ''()*+,;=:[]<>''"

definition should_escape :: "url_encoding \<Rightarrow> char \<Rightarrow> bool" where
  "should_escape mode c =
     (if alphanumeric c then False
      else if mode = Encode_host \<and> c \<in> set host_delims then False
      else if c \<in> set ''-_.~'' then False
      else if c \<in> set ''$&+,/:;=?@'' then
        (case mode of
           Encode_path \<Rightarrow> c = CHR ''?''
         | Encode_user_password \<Rightarrow> c \<in> set ''@/?:''
         | Encode_query_component \<Rightarrow> True
         | Encode_fragment \<Rightarrow> False
         | Encode_host \<Rightarrow> True)
      else \<not> (mode = Encode_fragment \<and> c \<in> set ''!()*''))"

definition hex_digit :: "nat \<Rightarrow> char" where
  "hex_digit n = ''0123456789ABCDEF'' ! n"

definition escape_char :: "url_encoding \<Rightarrow> char \<Rightarrow> string" where
  "escape_char mode c =
     (if should_escape mode c then
        (if c = CHR '' '' \<and> mode = Encode_query_component then ''+''
         else [CHR ''%'', hex_digit (of_char c div 16), hex_digit (of_char c mod 16)])
      else [c])"

definition url_escape :: "url_encoding \<Rightarrow> string \<Rightarrow> string" where
  "url_escape mode s = concat (map (escape_char mode) s)"

definition unhex :: "char \<Rightarrow> nat option" where
  "unhex c = (let b = (of_char c :: nat) in
     if 48 \<le> b \<and> b \<le> 57 then Some (b - 48)
     else if 65 \<le> b \<and> b \<le> 70 then Some (b - 55)
     else if 97 \<le> b \<and> b \<le> 102 then Some (b - 87) else None)"

text \<open>\<^verbatim>\<open>unescape\<close> but for hosts; in a query (\<open>form\<close>) a plus is a space.\<close>

fun url_unescape :: "bool \<Rightarrow> string \<Rightarrow> string option" where
  "url_unescape form [] = Some []"
| "url_unescape form (c # cs) =
     (if c = CHR ''%'' then
        (case cs of
           h # l # rest \<Rightarrow>
             (case (unhex h, unhex l) of
                (Some a, Some b) \<Rightarrow> map_option (\<lambda>s. char_of (16 * a + b) # s) (url_unescape form rest)
              | _ \<Rightarrow> None)
         | _ \<Rightarrow> None)
      else map_option (\<lambda>s. (if form \<and> c = CHR ''+'' then CHR '' '' else c) # s) (url_unescape form cs))"

text \<open>\<^verbatim>\<open>strings.Cut\<close> at a byte: what is before the first one and what is after it, if there is one.\<close>

definition cut :: "char \<Rightarrow> string \<Rightarrow> string \<times> string option" where
  "cut d s = (takeWhile (\<lambda>c. c \<noteq> d) s, if d \<in> set s then Some (tl (dropWhile (\<lambda>c. c \<noteq> d) s)) else None)"

text \<open>The same at the last one (\<^verbatim>\<open>strings.LastIndex\<close>): what is before it, if there is one, and what is after it.\<close>

definition cut_last :: "char \<Rightarrow> string \<Rightarrow> string option \<times> string" where
  "cut_last d s =
     (if d \<in> set s
      then (Some (rev (tl (dropWhile (\<lambda>c. c \<noteq> d) (rev s)))), rev (takeWhile (\<lambda>c. c \<noteq> d) (rev s)))
      else (None, s))"

subsection \<open>URLs and their text\<close>

text \<open>\<^verbatim>\<open>url.URL\<close>; a user is a name and a password, if one is set.\<close>

record url =
  url_scheme :: string
  url_opaque :: string
  url_user :: "(string \<times> string option) option"
  url_host :: string
  url_path :: string
  url_raw_path :: string
  url_omit_host :: bool
  url_force_query :: bool
  url_raw_query :: string
  url_fragment :: string
  url_raw_fragment :: string

definition url_zero :: url where
  "url_zero = \<lparr>url_scheme = [], url_opaque = [], url_user = None, url_host = [], url_path = [], url_raw_path = [],
     url_omit_host = False, url_force_query = False, url_raw_query = [], url_fragment = [], url_raw_fragment = []\<rparr>"

definition userinfo_string :: "string \<times> string option \<Rightarrow> string" where
  "userinfo_string ui = url_escape Encode_user_password (fst ui)
     @ (case snd ui of Some password \<Rightarrow> '':'' @ url_escape Encode_user_password password | None \<Rightarrow> [])"

definition valid_encoded :: "url_encoding \<Rightarrow> string \<Rightarrow> bool" where
  "valid_encoded mode s =
     list_all (\<lambda>c. c \<in> set (''!$&'' @ [CHR 0x27] @ ''()*+,;=:@[]%'') \<or> \<not> should_escape mode c) s"

text \<open>\<^verbatim>\<open>EscapedPath\<close> and \<^verbatim>\<open>EscapedFragment\<close>: the text that was parsed if it still stands for the value.\<close>

definition escaped_path :: "url \<Rightarrow> string" where
  "escaped_path u =
     (if url_raw_path u \<noteq> [] \<and> valid_encoded Encode_path (url_raw_path u)
         \<and> url_unescape False (url_raw_path u) = Some (url_path u) then url_raw_path u
      else if url_path u = ''*'' then ''*'' else url_escape Encode_path (url_path u))"

definition escaped_fragment :: "url \<Rightarrow> string" where
  "escaped_fragment u =
     (if url_raw_fragment u \<noteq> [] \<and> valid_encoded Encode_fragment (url_raw_fragment u)
         \<and> url_unescape False (url_raw_fragment u) = Some (url_fragment u) then url_raw_fragment u
      else url_escape Encode_fragment (url_fragment u))"

definition url_authority :: "url \<Rightarrow> string" where
  "url_authority u =
     (if url_scheme u \<noteq> [] \<or> url_host u \<noteq> [] \<or> url_user u \<noteq> None then
        (if url_omit_host u \<and> url_host u = [] \<and> url_user u = None then []
         else (if url_host u \<noteq> [] \<or> url_path u \<noteq> [] \<or> url_user u \<noteq> None then ''//'' else [])
           @ (case url_user u of Some ui \<Rightarrow> userinfo_string ui @ ''@'' | None \<Rightarrow> [])
           @ (if url_host u \<noteq> [] then url_escape Encode_host (url_host u) else []))
      else [])"

definition url_string :: "url \<Rightarrow> string" where
  "url_string u =
     (let scheme = (if url_scheme u \<noteq> [] then url_scheme u @ '':'' else []);
          rest =
            (if url_opaque u \<noteq> [] then url_opaque u
             else
               (let path = escaped_path u;
                    slash = (if path \<noteq> [] \<and> hd path \<noteq> CHR ''/'' \<and> url_host u \<noteq> [] then ''/'' else []);
                    front = url_authority u @ slash;
                    dot = (if scheme @ front = [] \<and> CHR '':'' \<in> set (fst (cut (CHR ''/'') path)) then ''./'' else [])
                in front @ dot @ path))
      in scheme @ rest
         @ (if url_force_query u \<or> url_raw_query u \<noteq> [] then ''?'' @ url_raw_query u else [])
         @ (if url_fragment u \<noteq> [] then ''#'' @ escaped_fragment u else []))"

text \<open>\<^verbatim>\<open>url.Values\<close>: \<^verbatim>\<open>Set\<close>, and \<^verbatim>\<open>Encode\<close> in the order of the keys.\<close>

type_synonym url_values = "(string, string list) go_map"

definition values_set :: "string \<Rightarrow> string \<Rightarrow> url_values \<Rightarrow> url_values" where
  "values_set k v vs = map_put k [v] vs"

definition values_encode :: "url_values \<Rightarrow> string" where
  "values_encode vs = join_with ''&'' (concat (map
     (\<lambda>(k, xs). map (\<lambda>x. url_escape Encode_query_component k @ ''='' @ url_escape Encode_query_component x) xs)
     (sort_key fst vs)))"

subsection \<open>Parsing\<close>

definition letter :: "char \<Rightarrow> bool" where
  "letter c = (let b = (of_char c :: nat) in 97 \<le> b \<and> b \<le> 122 \<or> 65 \<le> b \<and> b \<le> 90)"

definition scheme_mark :: "char \<Rightarrow> bool" where
  "scheme_mark c \<longleftrightarrow> alphanumeric c \<and> \<not> letter c \<or> c \<in> set ''+-.''"

text \<open>\<^verbatim>\<open>getScheme\<close>: \<open>seen\<close> is what has been read of \<open>raw\<close>.\<close>

fun get_scheme :: "string \<Rightarrow> string \<Rightarrow> string \<Rightarrow> (go_error, string \<times> string) result" where
  "get_scheme raw seen [] = Inr ([], raw)"
| "get_scheme raw seen (c # cs) =
     (if letter c then get_scheme raw (seen @ [c]) cs
      else if scheme_mark c then (if seen = [] then Inr ([], raw) else get_scheme raw (seen @ [c]) cs)
      else if c = CHR '':'' then
        (if seen = [] then Inl (New_error ''missing protocol scheme'') else Inr (seen, cs))
      else Inr ([], raw))"

definition control_byte :: "char \<Rightarrow> bool" where
  "control_byte c \<longleftrightarrow> (of_char c :: nat) < 32 \<or> (of_char c :: nat) = 127"

definition valid_userinfo :: "string \<Rightarrow> bool" where
  "valid_userinfo s = list_all (\<lambda>c. alphanumeric c \<or> c \<in> set (''-._:~!$&'' @ [CHR 0x27] @ ''()*+,;=%@'')) s"

text \<open>The offending text of an escape is left out of the error.\<close>

definition unescaped :: "string \<Rightarrow> (go_error, string) result" where
  "unescaped s = (case url_unescape False s of None \<Rightarrow> Inl (New_error ''invalid URL escape'') | Some t \<Rightarrow> Inr t)"

text \<open>\<open>parse_host scheme host\<close> is the library's \<^verbatim>\<open>parseHost\<close>.\<close>

type_synonym host_parser = "string \<Rightarrow> string \<Rightarrow> (go_error, string) result"

definition parse_userinfo :: "string \<Rightarrow> (go_error, string \<times> string option) result" where
  "parse_userinfo ui =
     (if \<not> valid_userinfo ui then Inl (New_error ''net/url: invalid userinfo'')
      else (case cut (CHR '':'') ui of
              (name, None) \<Rightarrow> and_then (unescaped name) (\<lambda>name. Inr (name, None))
            | (name, Some password) \<Rightarrow>
                and_then (unescaped name) (\<lambda>name. and_then (unescaped password) (\<lambda>password. Inr (name, Some password)))))"

definition parse_authority :: "host_parser \<Rightarrow> string \<Rightarrow> string \<Rightarrow> (go_error, (string \<times> string option) option \<times> string) result" where
  "parse_authority parse_host scheme authority =
     (case cut_last (CHR ''@'') authority of
        (ui, host) \<Rightarrow>
          and_then (parse_host scheme host) (\<lambda>host.
            case ui of None \<Rightarrow> Inr (None, host) | Some ui \<Rightarrow> and_then (parse_userinfo ui) (\<lambda>ui. Inr (Some ui, host))))"

definition set_path :: "string \<Rightarrow> url \<Rightarrow> (go_error, url) result" where
  "set_path p u = and_then (unescaped p) (\<lambda>path.
     Inr (u\<lparr>url_path := path, url_raw_path := (if url_escape Encode_path path = p then [] else p)\<rparr>))"

definition set_fragment :: "string \<Rightarrow> url \<Rightarrow> (go_error, url) result" where
  "set_fragment f u = and_then (unescaped f) (\<lambda>frag.
     Inr (u\<lparr>url_fragment := frag, url_raw_fragment := (if url_escape Encode_fragment frag = f then [] else f)\<rparr>))"

text \<open>The query at the end of a URL: a lone question mark there is kept as such.\<close>

definition split_query :: "string \<Rightarrow> string \<times> bool \<times> string" where
  "split_query rest =
     (if rest \<noteq> [] \<and> last rest = CHR ''?'' \<and> length (filter (\<lambda>c. c = CHR ''?'') rest) = 1 then (butlast rest, True, [])
      else (case cut (CHR ''?'') rest of (rest, q) \<Rightarrow> (rest, False, case q of None \<Rightarrow> [] | Some q \<Rightarrow> q)))"

definition parse_hierarchy :: "host_parser \<Rightarrow> string \<Rightarrow> url \<Rightarrow> (go_error, url) result" where
  "parse_hierarchy parse_host rest u =
     (if take 1 rest \<noteq> ''/'' \<and> url_scheme u \<noteq> [] then Inr (u\<lparr>url_opaque := rest\<rparr>)
      else if take 1 rest \<noteq> ''/'' \<and> CHR '':'' \<in> set (fst (cut (CHR ''/'') rest))
        then Inl (New_error ''first path segment in URL cannot contain colon'')
      else if (url_scheme u \<noteq> [] \<or> take 3 rest \<noteq> ''///'') \<and> take 2 rest = ''//'' then
        (let authority = takeWhile (\<lambda>c. c \<noteq> CHR ''/'') (drop 2 rest);
             rest = dropWhile (\<lambda>c. c \<noteq> CHR ''/'') (drop 2 rest)
         in and_then (parse_authority parse_host (url_scheme u) authority) (\<lambda>(user, host).
              set_path rest (u\<lparr>url_user := user, url_host := host\<rparr>)))
      else if url_scheme u \<noteq> [] \<and> take 1 rest = ''/'' then set_path rest (u\<lparr>url_omit_host := True\<rparr>)
      else set_path rest u)"

definition parse_without_fragment :: "host_parser \<Rightarrow> string \<Rightarrow> (go_error, url) result" where
  "parse_without_fragment parse_host raw =
     (if list_ex control_byte raw then Inl (New_error ''net/url: invalid control character in URL'')
      else if raw = ''*'' then Inr (url_zero\<lparr>url_path := ''*''\<rparr>)
      else and_then (get_scheme raw [] raw) (\<lambda>(scheme, rest).
        case split_query rest of (rest, force, query) \<Rightarrow>
          parse_hierarchy parse_host rest
            (url_zero\<lparr>url_scheme := to_lower scheme, url_force_query := force, url_raw_query := query\<rparr>)))"

definition parse_failed :: "string \<Rightarrow> (go_error, 'a) result \<Rightarrow> (go_error, 'a) result" where
  "parse_failed raw r = (case r of Inl err \<Rightarrow> Inl (Wrapf (''parse '' @ quoted raw @ '': '') err []) | Inr u \<Rightarrow> Inr u)"

definition url_parse :: "host_parser \<Rightarrow> string \<Rightarrow> (go_error, url) result" where
  "url_parse parse_host raw =
     (case cut (CHR ''#'') raw of (u, frag) \<Rightarrow>
        and_then (parse_failed u (parse_without_fragment parse_host u)) (\<lambda>url.
          case frag of None \<Rightarrow> Inr url
          | Some frag \<Rightarrow> if frag = [] then Inr url else parse_failed raw (set_fragment frag url)))"

subsection \<open>Cutting\<close>

lemma cut_append: "d \<notin> set a \<Longrightarrow> cut d (a @ d # b) = (a, Some b)"
  by (induction a) (auto simp: cut_def split: if_splits)

lemma cut_none: "d \<notin> set a \<Longrightarrow> cut d a = (a, None)"
  by (induction a) (auto simp: cut_def)

lemma while_append:
  assumes "d \<notin> set a" and "b = [] \<or> hd b = d"
  shows "takeWhile (\<lambda>c. c \<noteq> d) (a @ b) = a" and "dropWhile (\<lambda>c. c \<noteq> d) (a @ b) = b"
  using assms by (induction a) (cases b; auto)+

lemma cut_last_none: "d \<notin> set a \<Longrightarrow> cut_last d a = (None, a)"
  by (simp add: cut_last_def)

lemma cut_last_append: "d \<notin> set b \<Longrightarrow> cut_last d (a @ d # b) = (Some a, b)"
  using while_append [of d "rev b" "d # rev a"] by (simp add: cut_last_def)

lemma cut_text:
  "cut d s = (a, None) \<Longrightarrow> s = a \<and> d \<notin> set s"
  "cut d s = (a, Some b) \<Longrightarrow> s = a @ d # b \<and> d \<notin> set a"
proof -
  show "cut d s = (a, None) \<Longrightarrow> s = a \<and> d \<notin> set s"
    by (induction s arbitrary: a) (auto simp: cut_def split: if_splits)
  show "cut d s = (a, Some b) \<Longrightarrow> s = a @ d # b \<and> d \<notin> set a"
    by (induction s arbitrary: a) (auto simp: cut_def split: if_splits)
qed

subsection \<open>Escaping and reading back\<close>

lemma below_16: "n < 16 \<Longrightarrow> n \<in> {0, 1, 2, 3, 4, 5, 6, 7, 8, 9, 10, 11, 12, 13, 14, 15 :: nat}"
  by (simp add: eval_nat_numeral less_Suc_eq)

lemma unhex_hex_digit: "n < 16 \<Longrightarrow> unhex (hex_digit n) = Some n"
  by (drule below_16) (auto simp: hex_digit_def unhex_def Let_def)

lemma hex_digit_alphanumeric: "n < 16 \<Longrightarrow> alphanumeric (hex_digit n)"
  by (drule below_16) (auto simp: hex_digit_def alphanumeric_def Let_def)

lemma char_halves: "char_of (16 * (of_char c div 16) + of_char c mod 16 :: nat) = c" "of_char c div 16 < (16 :: nat)"
  using nat_of_char_less_256 [of c] by (simp_all add: less_mult_imp_div_less)

lemma escaped_special: "should_escape mode (CHR ''%'')" "should_escape Encode_query_component (CHR ''+'')"
  by (simp_all add: should_escape_def alphanumeric_def host_delims_def)

lemma unescape_escape_char:
  "url_unescape (mode = Encode_query_component) (escape_char mode c @ s)
    = map_option (Cons c) (url_unescape (mode = Encode_query_component) s)"
proof (cases "should_escape mode c")
  case True
  then show ?thesis
    by (auto simp: escape_char_def unhex_hex_digit char_halves)
next
  case False
  with escaped_special have "c \<noteq> CHR ''%''" "mode = Encode_query_component \<Longrightarrow> c \<noteq> CHR ''+''" by metis+
  with False show ?thesis by (auto simp: escape_char_def)
qed

lemma unescape_escape: "url_unescape (mode = Encode_query_component) (url_escape mode s) = Some s"
  by (induction s) (simp_all add: url_escape_def unescape_escape_char)

lemmas unescape_escaped [simp] =
  unescape_escape [of Encode_query_component, simplified] unescape_escape [of Encode_path, simplified]
  unescape_escape [of Encode_host, simplified] unescape_escape [of Encode_user_password, simplified]

lemma unescaped_escape [simp]:
  "unescaped (url_escape Encode_path s) = Inr s" "unescaped (url_escape Encode_user_password s) = Inr s"
  by (simp_all add: unescaped_def)

text \<open>Which bytes an escaped text has: those that need no escape, the percent sign and hexadecimal digits.\<close>

lemma escape_bytes:
  assumes "d \<in> set (url_escape mode s)"
  shows "alphanumeric d \<or> d = CHR ''%'' \<or> mode = Encode_query_component \<and> d = CHR ''+'' \<or> \<not> should_escape mode d"
proof -
  from assms obtain c where "d \<in> set (escape_char mode c)" by (auto simp: url_escape_def)
  then show ?thesis
    using hex_digit_alphanumeric [of "of_char c div 16"] hex_digit_alphanumeric [of "of_char c mod 16"] char_halves(2) [of c]
    by (auto simp: escape_char_def split: if_splits)
qed

lemma escape_free:
  assumes "should_escape mode d" and "d \<noteq> CHR ''%''" and "d \<noteq> CHR ''+''"
  shows "d \<notin> set (url_escape mode s)"
  using escape_bytes [of d mode s] assms by (auto simp: should_escape_def)

lemma escaped_user_free [simp]:
  "CHR ''@'' \<notin> set (url_escape Encode_user_password s)" "CHR '':'' \<notin> set (url_escape Encode_user_password s)"
  "CHR ''/'' \<notin> set (url_escape Encode_user_password s)" "CHR ''?'' \<notin> set (url_escape Encode_user_password s)"
  "CHR ''#'' \<notin> set (url_escape Encode_user_password s)"
  by (rule escape_free; simp add: should_escape_def alphanumeric_def)+

lemma escaped_host_free [simp]:
  "CHR ''@'' \<notin> set (url_escape Encode_host s)" "CHR ''/'' \<notin> set (url_escape Encode_host s)"
  "CHR ''?'' \<notin> set (url_escape Encode_host s)" "CHR ''#'' \<notin> set (url_escape Encode_host s)"
  by (rule escape_free; simp add: should_escape_def alphanumeric_def host_delims_def)+

lemma escaped_path_free [simp]:
  "CHR ''?'' \<notin> set (url_escape Encode_path s)" "CHR ''#'' \<notin> set (url_escape Encode_path s)"
  by (rule escape_free; simp add: should_escape_def alphanumeric_def)+

lemma escaped_query_free [simp]:
  "CHR ''&'' \<notin> set (url_escape Encode_query_component s)" "CHR ''='' \<notin> set (url_escape Encode_query_component s)"
  "CHR ''?'' \<notin> set (url_escape Encode_query_component s)" "CHR ''#'' \<notin> set (url_escape Encode_query_component s)"
  by (rule escape_free; simp add: should_escape_def alphanumeric_def)+

lemma control_escaped:
  assumes "control_byte d"
  shows "should_escape mode d" and "d \<noteq> CHR ''%''" and "d \<noteq> CHR ''+''"
proof -
  have "list_all (\<lambda>c. \<not> control_byte c) (host_delims @ ''-_.~$&+,/:;=?@!()*%'')"
    by (simp add: control_byte_def host_delims_def)
  with assms have free: "d \<notin> set (host_delims @ ''-_.~$&+,/:;=?@!()*%'')" unfolding list_all_iff by blast
  have "\<not> alphanumeric d" using assms by (auto simp: control_byte_def alphanumeric_def Let_def)
  with free show "should_escape mode d" by (simp add: should_escape_def)
  from free show "d \<noteq> CHR ''%''" "d \<noteq> CHR ''+''" by simp_all
qed

lemma escape_no_control [simp]: "\<not> list_ex control_byte (url_escape mode s)"
  using control_escaped escape_free [of mode] by (auto simp: list_ex_iff)

lemma valid_userinfo_escape: "valid_userinfo (url_escape Encode_user_password s)"
proof (unfold valid_userinfo_def list_all_iff, intro ballI)
  fix c assume "c \<in> set (url_escape Encode_user_password s)"
  from escape_bytes [OF this]
  show "alphanumeric c \<or> c \<in> set (''-._:~!$&'' @ [CHR 0x27] @ ''()*+,;=%@'')"
    by (auto simp: should_escape_def split: if_splits)
qed

lemma escape_slash: "url_escape Encode_path (CHR ''/'' # p) = CHR ''/'' # url_escape Encode_path p"
  by (simp add: url_escape_def escape_char_def should_escape_def alphanumeric_def)

lemma escape_Nil [simp]: "url_escape mode [] = []" "url_escape mode s = [] \<longleftrightarrow> s = []"
  by (cases s; simp add: url_escape_def escape_char_def)+

lemma escape_path_head: "p = [] \<or> hd p = CHR ''/'' \<Longrightarrow> url_escape Encode_path p = [] \<or> hd (url_escape Encode_path p) = CHR ''/''"
  by (cases p) (auto simp: escape_slash)

subsection \<open>Parsing what is printed\<close>

text \<open>A URL with a scheme and a host whose parts stand for themselves; only its query is text as it was given.\<close>

definition scheme_ok :: "string \<Rightarrow> bool" where
  "scheme_ok sc \<longleftrightarrow> sc \<noteq> [] \<and> letter (hd sc) \<and> list_all (\<lambda>c. letter c \<or> scheme_mark c) sc \<and> to_lower sc = sc"

definition canonical_url :: "host_parser \<Rightarrow> url \<Rightarrow> bool" where
  "canonical_url parse_host u \<longleftrightarrow> scheme_ok (url_scheme u) \<and> url_opaque u = []
     \<and> url_host u \<noteq> [] \<and> parse_host (url_scheme u) (url_escape Encode_host (url_host u)) = Inr (url_host u)
     \<and> (url_path u = [] \<or> hd (url_path u) = CHR ''/'') \<and> url_raw_path u = [] \<and> \<not> url_omit_host u
     \<and> (url_force_query u \<longrightarrow> url_raw_query u = [])
     \<and> CHR ''#'' \<notin> set (url_raw_query u) \<and> \<not> list_ex control_byte (url_raw_query u)
     \<and> url_fragment u = [] \<and> url_raw_fragment u = []"

lemma scheme_char: "letter c \<or> scheme_mark c \<Longrightarrow> \<not> control_byte c \<and> c \<noteq> CHR ''#'' \<and> c \<noteq> CHR '':'' \<and> c \<noteq> CHR ''*''"
  by (auto simp: letter_def scheme_mark_def alphanumeric_def control_byte_def Let_def)

lemma get_scheme_text:
  "list_all (\<lambda>c. letter c \<or> scheme_mark c) sc \<Longrightarrow> seen \<noteq> [] \<or> sc \<noteq> [] \<and> letter (hd sc) \<Longrightarrow>
     get_scheme raw seen (sc @ CHR '':'' # rest) = Inr (seen @ sc, rest)"
proof (induction sc arbitrary: seen)
  case Nil
  have "\<not> letter (CHR '':'')" "\<not> scheme_mark (CHR '':'')" by (simp_all add: letter_def scheme_mark_def alphanumeric_def)
  with Nil show ?case by simp
next
  case (Cons c sc)
  then show ?case by (cases "letter c") auto
qed

lemma split_query_none: "CHR ''?'' \<notin> set hier \<Longrightarrow> split_query hier = (hier, False, [])"
  by (simp add: split_query_def cut_none) (metis last_in_set)

lemma split_query_lone: "CHR ''?'' \<notin> set hier \<Longrightarrow> split_query (hier @ ''?'') = (hier, True, [])"
  by (simp add: split_query_def filter_empty_conv)

lemma split_query_some:
  assumes "CHR ''?'' \<notin> set hier" and "q \<noteq> []"
  shows "split_query (hier @ CHR ''?'' # q) = (hier, False, q)"
proof -
  have "\<not> (last q = CHR ''?'' \<and> length (filter (\<lambda>c. c = CHR ''?'') q) = 0)"
    using assms(2) by (metis (mono_tags, lifting) filter_empty_conv last_in_set length_0_conv)
  then show ?thesis
    using assms by (auto simp: split_query_def cut_append filter_empty_conv)
qed

lemma parse_userinfo_string: "parse_userinfo (userinfo_string ui) = Inr ui"
proof (cases "snd ui")
  case None
  have "cut (CHR '':'') (url_escape Encode_user_password (fst ui)) = (url_escape Encode_user_password (fst ui), None)"
    by (simp add: cut_none)
  with None valid_userinfo_escape show ?thesis
    by (cases ui) (simp add: parse_userinfo_def userinfo_string_def)
next
  case (Some pw)
  have "valid_userinfo (url_escape Encode_user_password (fst ui) @ '':'' @ url_escape Encode_user_password pw)"
    using valid_userinfo_escape by (simp add: valid_userinfo_def)
  moreover have "cut (CHR '':'') (url_escape Encode_user_password (fst ui) @ CHR '':'' # url_escape Encode_user_password pw)
      = (url_escape Encode_user_password (fst ui), Some (url_escape Encode_user_password pw))" by (rule cut_append) simp
  ultimately show ?thesis
    using Some by (cases ui) (simp add: parse_userinfo_def userinfo_string_def)
qed

definition authority_string :: "url \<Rightarrow> string" where
  "authority_string u = (case url_user u of Some ui \<Rightarrow> userinfo_string ui @ ''@'' | None \<Rightarrow> [])
     @ url_escape Encode_host (url_host u)"

lemma authority_string_free: "d \<in> {CHR ''/'', CHR ''?'', CHR ''#''} \<Longrightarrow> d \<notin> set (authority_string u)"
  by (auto simp: authority_string_def userinfo_string_def split: option.splits)

lemma control_literals [simp]:
  "\<not> control_byte (CHR ''/'')" "\<not> control_byte (CHR '':'')" "\<not> control_byte (CHR ''?'')" "\<not> control_byte (CHR ''@'')"
  "\<not> control_byte (CHR ''*'')"
  by (simp_all add: control_byte_def)

lemma authority_string_control: "\<not> list_ex control_byte (authority_string u)"
  by (simp add: authority_string_def userinfo_string_def split: option.splits)

lemma parse_authority_string:
  assumes "parse_host sc (url_escape Encode_host (url_host u)) = Inr (url_host u)"
  shows "parse_authority parse_host sc (authority_string u) = Inr (url_user u, url_host u)"
proof (cases "url_user u")
  case None
  then show ?thesis using assms by (simp add: parse_authority_def authority_string_def cut_last_none)
next
  case (Some ui)
  have "cut_last (CHR ''@'') (userinfo_string ui @ CHR ''@'' # url_escape Encode_host (url_host u))
      = (Some (userinfo_string ui), url_escape Encode_host (url_host u))" by (rule cut_last_append) simp
  then show ?thesis using assms Some by (simp add: parse_authority_def authority_string_def parse_userinfo_string)
qed

definition query_suffix :: "url \<Rightarrow> string" where
  "query_suffix u = (if url_force_query u \<or> url_raw_query u \<noteq> [] then ''?'' @ url_raw_query u else [])"

lemma canonical_string:
  assumes "canonical_url parse_host u"
  shows "url_string u = url_scheme u @ '':'' @ ''//'' @ authority_string u @ url_escape Encode_path (url_path u) @ query_suffix u"
proof -
  have path: "escaped_path u = url_escape Encode_path (url_path u)"
    using assms by (auto simp: canonical_url_def escaped_path_def)
  have "url_authority u = ''//'' @ authority_string u"
    using assms by (simp add: url_authority_def authority_string_def canonical_url_def)
  then show ?thesis
    using assms escape_path_head [of "url_path u"]
    by (auto simp: url_string_def path canonical_url_def scheme_ok_def query_suffix_def)
qed

lemma canonical_split_query:
  assumes "canonical_url parse_host u" and "CHR ''?'' \<notin> set hier"
  shows "split_query (hier @ query_suffix u) = (hier, url_force_query u, url_raw_query u)"
  using assms split_query_none split_query_lone split_query_some
  by (cases "url_raw_query u = []") (auto simp: query_suffix_def canonical_url_def)

theorem parse_string:
  assumes "canonical_url parse_host u"
  shows "url_parse parse_host (url_string u) = Inr u"
proof -
  let ?sc = "url_scheme u" and ?a = "authority_string u" and ?p = "url_escape Encode_path (url_path u)"
  let ?hier = "''//'' @ ?a @ ?p"
  note c = assms [unfolded canonical_url_def scheme_ok_def]
  have str: "url_string u = ?sc @ CHR '':'' # ?hier @ query_suffix u" using canonical_string [OF assms] by simp
  have sc: "list_all (\<lambda>c. \<not> control_byte c \<and> c \<noteq> CHR ''#'') ?sc"
    using c scheme_char unfolding list_all_iff by blast
  have hash: "CHR ''#'' \<notin> set (url_string u)"
    using c sc authority_string_free [of "CHR ''#''" u] unfolding str by (auto simp: query_suffix_def list_all_iff)
  have ctl: "\<not> list_ex control_byte (url_string u)"
  proof -
    have "\<not> list_ex control_byte ?sc" using sc by (auto simp: list_all_iff list_ex_iff)
    then show ?thesis using c authority_string_control [of u] unfolding str by (simp add: query_suffix_def)
  qed
  have star: "url_string u \<noteq> ''*''"
    using c unfolding str by (cases ?sc) (auto simp: letter_def)
  have scheme: "get_scheme (url_string u) [] (url_string u) = Inr (?sc, ?hier @ query_suffix u)"
    using get_scheme_text [of ?sc "[]"] c unfolding str by auto
  have query: "split_query (?hier @ query_suffix u) = (?hier, url_force_query u, url_raw_query u)"
    using authority_string_free [of "CHR ''?''" u] by (intro canonical_split_query [OF assms]) auto
  have while: "takeWhile (\<lambda>c. c \<noteq> CHR ''/'') (?a @ ?p) = ?a" "dropWhile (\<lambda>c. c \<noteq> CHR ''/'') (?a @ ?p) = ?p"
    using while_append [of "CHR ''/''" ?a ?p] authority_string_free [of "CHR ''/''" u] escape_path_head [of "url_path u"] c
    by auto
  have authority: "parse_authority parse_host ?sc ?a = Inr (url_user u, url_host u)"
    using c by (intro parse_authority_string) simp
  let ?base = "url_zero\<lparr>url_scheme := ?sc, url_force_query := url_force_query u, url_raw_query := url_raw_query u\<rparr>"
  have "parse_hierarchy parse_host ?hier ?base
      = set_path ?p (?base\<lparr>url_user := url_user u, url_host := url_host u\<rparr>)"
    using c by (simp add: parse_hierarchy_def Let_def while authority)
  also have "\<dots> = Inr (?base\<lparr>url_user := url_user u, url_host := url_host u, url_path := url_path u\<rparr>)"
    by (simp add: set_path_def url_zero_def)
  also have "?base\<lparr>url_user := url_user u, url_host := url_host u, url_path := url_path u\<rparr> = u"
    using c by (intro url.equality) (simp_all add: url_zero_def)
  finally have "parse_hierarchy parse_host ?hier ?base = Inr u" .
  then have "parse_without_fragment parse_host (url_string u) = Inr u"
    unfolding parse_without_fragment_def using ctl star scheme query c by simp
  then show ?thesis using cut_none [OF hash] by (simp add: url_parse_def parse_failed_def)
qed

text \<open>What parsing yields, without a fragment and with a host, is such a URL but for the text of its path.\<close>

lemma get_scheme_result:
  "get_scheme raw seen cs = Inr (sc, rest) \<Longrightarrow> sc \<noteq> [] \<Longrightarrow> \<exists>sc'. sc = seen @ sc' \<and> cs = sc' @ CHR '':'' # rest
     \<and> list_all (\<lambda>c. letter c \<or> scheme_mark c) sc' \<and> (seen = [] \<longrightarrow> sc' \<noteq> [] \<and> letter (hd sc'))"
proof (induction raw seen cs rule: get_scheme.induct)
  case (2 raw seen c cs)
  show ?case
  proof (cases "letter c \<or> scheme_mark c \<and> seen \<noteq> []")
    case True
    with 2(3) have "get_scheme raw (seen @ [c]) cs = Inr (sc, rest)" by (auto split: if_splits)
    with True 2(1,2,4) obtain sc' where "sc = (seen @ [c]) @ sc'" "cs = sc' @ CHR '':'' # rest"
      "list_all (\<lambda>c. letter c \<or> scheme_mark c) sc'" by (metis (no_types, lifting))
    with True show ?thesis by (intro exI [of _ "c # sc'"]) auto
  next
    case False
    with 2(3,4) show ?thesis by (auto split: if_splits)
  qed
qed simp

lemma lower_letter: "letter (lower_char c) \<longleftrightarrow> letter c" "letter c \<or> scheme_mark c \<Longrightarrow> letter (lower_char c) \<or> scheme_mark (lower_char c)"
    "lower_char (lower_char c) = lower_char c"
  by (auto simp: letter_def lower_char_def scheme_mark_def Let_def)

lemma scheme_ok_lower:
  assumes "sc \<noteq> []" and "letter (hd sc)" and "list_all (\<lambda>c. letter c \<or> scheme_mark c) sc"
  shows "scheme_ok (to_lower sc)"
  using assms lower_letter by (cases sc) (auto simp: scheme_ok_def to_lower_def list_all_iff)

lemma split_query_parts:
  assumes "split_query rest = (r, force, q)"
  shows "set q \<subseteq> set rest \<and> (force \<longrightarrow> q = [])"
proof (cases "rest \<noteq> [] \<and> last rest = CHR ''?'' \<and> length (filter (\<lambda>c. c = CHR ''?'') rest) = 1")
  case True
  with assms show ?thesis by (simp add: split_query_def)
next
  case False
  then have "split_query rest = (case cut (CHR ''?'') rest of (rest, q) \<Rightarrow> (rest, False, case q of None \<Rightarrow> [] | Some q \<Rightarrow> q))"
    unfolding split_query_def by (rule if_not_P)
  with assms cut_text(2) [of "CHR ''?''" rest] show ?thesis
    by (auto split: prod.splits option.splits)
qed

lemma unescape_Nil [simp]: "url_unescape form s = Some [] \<longleftrightarrow> s = []"
  by (cases s) (auto split: list.splits option.splits)

lemma parse_canonical:
  assumes parse: "url_parse parse_host s = Inr u" and hash: "CHR ''#'' \<notin> set s"
    and scheme: "url_scheme u \<noteq> []" and host: "url_host u \<noteq> []"
    and stable: "parse_host (url_scheme u) (url_escape Encode_host (url_host u)) = Inr (url_host u)"
  shows "url_path u = [] \<or> hd (url_path u) = CHR ''/''"
    and "url_path u = [] \<or> url_path u = ''/'' \<Longrightarrow> url_raw_path u = []"
    and "url_raw_path u \<noteq> [] \<Longrightarrow> url_unescape False (url_raw_path u) \<noteq> Some []"
    and "p = [] \<or> hd p = CHR ''/'' \<Longrightarrow> canonical_url parse_host (u\<lparr>url_path := p, url_raw_path := []\<rparr>)"
proof -
  from parse cut_none [OF hash] have p: "parse_without_fragment parse_host s = Inr u"
    by (auto simp: url_parse_def parse_failed_def split: sum.splits)
  have star: "s \<noteq> ''*''" using p scheme by (auto simp: parse_without_fragment_def url_zero_def)
  from p star have ctl: "\<not> list_ex control_byte s" by (auto simp: parse_without_fragment_def split: if_splits)
  from p star ctl obtain sc rest where sc: "get_scheme s [] s = Inr (sc, rest)"
    and rest: "(case split_query rest of (r, force, q) \<Rightarrow> parse_hierarchy parse_host r
      (url_zero\<lparr>url_scheme := to_lower sc, url_force_query := force, url_raw_query := q\<rparr>)) = Inr u"
    by (auto simp: parse_without_fragment_def)
  obtain r force q where q: "split_query rest = (r, force, q)" by (cases "split_query rest")
  with rest have h: "parse_hierarchy parse_host r
      (url_zero\<lparr>url_scheme := to_lower sc, url_force_query := force, url_raw_query := q\<rparr>) = Inr u" by simp
  let ?base = "url_zero\<lparr>url_scheme := to_lower sc, url_force_query := force, url_raw_query := q\<rparr>"
  note zero = url_zero_def and path = set_path_def
  from h scheme host obtain user ho t where u: "set_path t (?base\<lparr>url_user := user, url_host := ho\<rparr>) = Inr u"
    and t: "t = dropWhile (\<lambda>c. c \<noteq> CHR ''/'') (drop 2 r)"
    by (auto simp: parse_hierarchy_def zero path Let_def split: if_splits prod.splits)
  then obtain x where x: "url_unescape False t = Some x" and u': "u = ?base\<lparr>url_user := user, url_host := ho, url_path := x,
      url_raw_path := (if url_escape Encode_path x = t then [] else t)\<rparr>"
    by (auto simp: path unescaped_def split: option.splits)
  have "t = [] \<or> hd t = CHR ''/''" unfolding t using hd_dropWhile [of "\<lambda>c. c \<noteq> CHR ''/''" "drop 2 r"] by fastforce
  then show "url_path u = [] \<or> hd (url_path u) = CHR ''/''"
      and "url_path u = [] \<or> url_path u = ''/'' \<Longrightarrow> url_raw_path u = []"
      and "url_raw_path u \<noteq> [] \<Longrightarrow> url_unescape False (url_raw_path u) \<noteq> Some []"
    using x by (cases t; auto simp: u' escape_slash zero)+
  have "sc \<noteq> []" using scheme by (auto simp: u' to_lower_def zero)
  from get_scheme_result [OF sc this] have s: "s = sc @ CHR '':'' # rest" and ok: "scheme_ok (to_lower sc)"
    using \<open>sc \<noteq> []\<close> scheme_ok_lower [of sc] by auto
  have "CHR ''#'' \<notin> set q" "\<not> list_ex control_byte q"
    using split_query_parts [OF q] hash ctl unfolding s by (auto simp: list_ex_iff)
  then show "p = [] \<or> hd p = CHR ''/'' \<Longrightarrow> canonical_url parse_host (u\<lparr>url_path := p, url_raw_path := []\<rparr>)"
    using ok host stable split_query_parts [OF q] by (simp add: canonical_url_def u' zero)
qed

text \<open>
  Parsing, setting the path, and printing, as the code does to change the database of a URL: what is printed
  parses to the URL with that path and otherwise as it was. An empty path may be set in any URL, another one
  in a URL whose path is empty or a slash.
\<close>

definition url_with_path :: "host_parser \<Rightarrow> string \<Rightarrow> string \<Rightarrow> (go_error, string) result" where
  "url_with_path parse_host raw p = and_then (url_parse parse_host raw) (\<lambda>u. Inr (url_string (u\<lparr>url_path := p\<rparr>)))"

lemma with_path_parses:
  assumes parse: "url_parse parse_host s = Inr u" and hash: "CHR ''#'' \<notin> set s"
    and scheme: "url_scheme u \<noteq> []" and host: "url_host u \<noteq> []"
    and stable: "parse_host (url_scheme u) (url_escape Encode_host (url_host u)) = Inr (url_host u)"
    and path: "p = [] \<or> hd p = CHR ''/'' \<and> (url_path u = [] \<or> url_path u = ''/'')"
  shows "url_with_path parse_host s p = Inr (url_string (u\<lparr>url_path := p, url_raw_path := []\<rparr>))"
    and "url_parse parse_host (url_string (u\<lparr>url_path := p, url_raw_path := []\<rparr>)) = Inr (u\<lparr>url_path := p, url_raw_path := []\<rparr>)"
proof -
  note c = parse_canonical [OF parse hash scheme host stable]
  have "escaped_path (u\<lparr>url_path := p\<rparr>) = escaped_path (u\<lparr>url_path := p, url_raw_path := []\<rparr>)"
    using path c(2,3) by (auto simp: escaped_path_def)
  then have "url_string (u\<lparr>url_path := p\<rparr>) = url_string (u\<lparr>url_path := p, url_raw_path := []\<rparr>)"
    by (simp add: url_string_def url_authority_def escaped_fragment_def)
  then show "url_with_path parse_host s p = Inr (url_string (u\<lparr>url_path := p, url_raw_path := []\<rparr>))"
    by (simp add: url_with_path_def parse)
  show "url_parse parse_host (url_string (u\<lparr>url_path := p, url_raw_path := []\<rparr>)) = Inr (u\<lparr>url_path := p, url_raw_path := []\<rparr>)"
    using path by (intro parse_string c(4)) auto
qed

end
