(* ===== verification/Mongo_Uri.thy ===== *)
theory Mongo_Uri
  imports Mongo_Config Net_Url
begin

section \<open>Connection strings (pkg/mongo/config.go, BuildURI and BuildBaseURI)\<close>

text \<open>
  The URIs of a configuration: its connection string with the database put into it or taken out of it,
  or a URI built from its fields, over the standard library's \<^verbatim>\<open>net/url\<close>.
  \<open>read_uri\<close> reads a URI by the generic syntax of RFC 3986; whatever bytes the fields hold, it reads
  them back.
\<close>

subsection \<open>The URIs of a configuration\<close>

definition query_values :: "mongo_config \<Rightarrow> url_values" where
  "query_values c =
     (let q = [];
          q = (if mc_replica_set c \<noteq> [] then values_set ''replicaSet'' (mc_replica_set c) q else q);
          q = (if mc_direct_connection c then values_set ''directConnection'' ''true'' q else q)
      in q)"

definition uri_fields :: "mongo_config \<Rightarrow> string \<Rightarrow> url" where
  "uri_fields c path = url_zero\<lparr>url_scheme := ''mongodb'',
     url_user := (if mc_username c \<noteq> [] then Some (mc_username c, Some (mc_password c)) else None),
     url_host := mc_host c @ '':'' @ int_text (mc_port c),
     url_path := path,
     url_raw_query := values_encode (query_values c)\<rparr>"

text \<open>\<^verbatim>\<open>BuildURI\<close> and \<^verbatim>\<open>BuildBaseURI\<close>, and their part from the point where there is no connection string.\<close>

definition build_uri_fields :: "mongo_config \<Rightarrow> string" where
  "build_uri_fields c = url_string (uri_fields c (''/'' @ mc_database c))"

definition build_base_uri_fields :: "mongo_config \<Rightarrow> string" where
  "build_base_uri_fields c = url_string (uri_fields c [])"

definition build_uri :: "host_parser \<Rightarrow> mongo_config \<Rightarrow> string" where
  "build_uri parse_host c =
     (if mc_connection_string c \<noteq> [] then
        (if mc_database c \<noteq> [] then
           (case url_parse parse_host (mc_connection_string c) of
              Inr u \<Rightarrow> if url_path u = [] \<or> url_path u = ''/''
                       then url_string (u\<lparr>url_path := ''/'' @ mc_database c\<rparr>) else mc_connection_string c
            | Inl err \<Rightarrow> mc_connection_string c)
         else mc_connection_string c)
      else build_uri_fields c)"

definition build_base_uri :: "host_parser \<Rightarrow> mongo_config \<Rightarrow> string" where
  "build_base_uri parse_host c =
     (case (if mc_connection_string c \<noteq> [] then Some (url_parse parse_host (mc_connection_string c)) else None) of
        Some (Inr u) \<Rightarrow> url_string (u\<lparr>url_path := []\<rparr>)
      | _ \<Rightarrow> build_base_uri_fields c)"

subsection \<open>Reading a URI\<close>

record uri_parts =
  up_user :: "(string \<times> string) option"
  up_host :: string
  up_path :: string
  up_query :: "(string \<times> string) list"

definition read_pair :: "string \<Rightarrow> (string \<times> string) option" where
  "read_pair s = (case cut (CHR ''='') s of
     (k, Some v) \<Rightarrow> (case (url_unescape True k, url_unescape True v) of (Some k, Some v) \<Rightarrow> Some (k, v) | _ \<Rightarrow> None)
   | (k, None) \<Rightarrow> None)"

fun all_some :: "'a option list \<Rightarrow> 'a list option" where
  "all_some [] = Some []"
| "all_some (x # xs) = (case (x, all_some xs) of (Some a, Some as) \<Rightarrow> Some (a # as) | _ \<Rightarrow> None)"

definition read_query :: "string option \<Rightarrow> (string \<times> string) list option" where
  "read_query q = (case q of None \<Rightarrow> Some [] | Some q \<Rightarrow> all_some (map read_pair (split_char (CHR ''&'') q)))"

definition read_userinfo :: "string \<Rightarrow> (string \<times> string) option" where
  "read_userinfo s = (case cut (CHR '':'') s of
     (u, Some p) \<Rightarrow> (case (url_unescape False u, url_unescape False p) of (Some u, Some p) \<Rightarrow> Some (u, p) | _ \<Rightarrow> None)
   | (u, None) \<Rightarrow> None)"

text \<open>The user information ends at the at sign of the authority, which ends at a slash or question mark.\<close>

definition read_authority :: "string \<Rightarrow> ((string \<times> string) option \<times> string) option" where
  "read_authority s = (case cut (CHR ''@'') s of
     (h, None) \<Rightarrow> map_option (\<lambda>h. (None, h)) (url_unescape False h)
   | (ui, Some h) \<Rightarrow> (case (read_userinfo ui, url_unescape False h) of
        (Some ui, Some h) \<Rightarrow> Some (Some ui, h) | _ \<Rightarrow> None))"

definition read_uri :: "string \<Rightarrow> uri_parts option" where
  "read_uri s =
     (if take 10 s \<noteq> ''mongodb://'' \<or> CHR ''#'' \<in> set s then None
      else
        (let (hier, q) = cut (CHR ''?'') (drop 10 s);
             authority = takeWhile (\<lambda>c. c \<noteq> CHR ''/'') hier;
             path = dropWhile (\<lambda>c. c \<noteq> CHR ''/'') hier
         in case (read_authority authority, url_unescape False path, read_query q) of
              (Some (ui, h), Some p, Some q) \<Rightarrow> Some \<lparr>up_user = ui, up_host = h, up_path = p, up_query = q\<rparr>
            | _ \<Rightarrow> None))"

subsection \<open>The query\<close>

lemma split_char_append: "d \<notin> set w \<Longrightarrow> split_char d (w @ d # r) = w # split_char d r"
  by (induction w) auto

lemma split_char_one: "d \<notin> set w \<Longrightarrow> split_char d w = [w]"
  by (induction w) auto

lemma split_join: "ws \<noteq> [] \<Longrightarrow> \<forall>w \<in> set ws. d \<notin> set w \<Longrightarrow> split_char d (join_with [d] ws) = ws"
  by (induction "[d]" ws rule: join_with.induct) (auto simp: split_char_append split_char_one)

lemma set_join_with: "c \<in> set (join_with sep ws) \<Longrightarrow> c \<in> set sep \<or> (\<exists>w \<in> set ws. c \<in> set w)"
  by (induction sep ws rule: join_with.induct) auto

definition encode_pair :: "string \<times> string \<Rightarrow> string" where
  "encode_pair p = url_escape Encode_query_component (fst p) @ ''='' @ url_escape Encode_query_component (snd p)"

lemma encode_pair_free: "d \<in> {CHR ''&'', CHR ''?'', CHR ''#''} \<Longrightarrow> d \<notin> set (encode_pair p)"
  by (auto simp: encode_pair_def)

lemma read_encode_pair: "read_pair (encode_pair p) = Some p"
  by (simp add: read_pair_def encode_pair_def cut_append)

lemma all_some_map: "(\<And>x. f x = Some (g x)) \<Longrightarrow> all_some (map f xs) = Some (map g xs)"
  by (induction xs) auto

lemma read_query_pairs:
  assumes "ps \<noteq> []"
  shows "read_query (Some (join_with ''&'' (map encode_pair ps))) = Some ps"
proof -
  have "split_char (CHR ''&'') (join_with ''&'' (map encode_pair ps)) = map encode_pair ps"
    using assms by (intro split_join) (auto simp: encode_pair_free)
  moreover have "all_some (map (read_pair \<circ> encode_pair) ps) = Some (map id ps)"
    by (rule all_some_map) (simp add: read_encode_pair)
  ultimately show ?thesis by (simp add: read_query_def)
qed

text \<open>The options a configuration asks for, in the order of their names.\<close>

definition uri_options :: "mongo_config \<Rightarrow> (string \<times> string) list" where
  "uri_options c = (if mc_direct_connection c then [(''directConnection'', ''true'')] else [])
     @ (if mc_replica_set c \<noteq> [] then [(''replicaSet'', mc_replica_set c)] else [])"

lemma values_encode_options: "values_encode (query_values c) = join_with ''&'' (map encode_pair (uri_options c))"
  by (simp add: values_encode_def query_values_def uri_options_def values_set_def encode_pair_def less_char_def less_eq_char_def)

lemma encoded_options_free: "d \<in> {CHR ''?'', CHR ''#''} \<Longrightarrow> d \<notin> set (values_encode (query_values c))"
  unfolding values_encode_options using encode_pair_free by (fastforce dest: set_join_with)

lemma encoded_options_Nil: "values_encode (query_values c) = [] \<longleftrightarrow> uri_options c = []"
  by (simp add: values_encode_options uri_options_def encode_pair_def)

subsection \<open>The round trip\<close>

definition uri_user :: "mongo_config \<Rightarrow> (string \<times> string) option" where
  "uri_user c = (if mc_username c \<noteq> [] then Some (mc_username c, mc_password c) else None)"

definition authority_text :: "mongo_config \<Rightarrow> string" where
  "authority_text c = (case uri_user c of Some ui \<Rightarrow> userinfo_string (fst ui, Some (snd ui)) @ ''@'' | None \<Rightarrow> [])
     @ url_escape Encode_host (mc_host c @ '':'' @ int_text (mc_port c))"

lemma read_authority_text: "read_authority (authority_text c) = Some (uri_user c, mc_host c @ '':'' @ int_text (mc_port c))"
proof (cases "uri_user c")
  case None
  then show ?thesis by (simp add: read_authority_def authority_text_def cut_none)
next
  case (Some ui)
  let ?h = "url_escape Encode_host (mc_host c @ '':'' @ int_text (mc_port c))"
  let ?ui = "userinfo_string (fst ui, Some (snd ui))"
  have "cut (CHR ''@'') (authority_text c) = (?ui, Some ?h)"
    using cut_append [of "CHR ''@''" ?ui ?h] by (simp add: Some authority_text_def userinfo_string_def)
  moreover have "read_userinfo ?ui = Some ui"
    by (simp add: read_userinfo_def userinfo_string_def cut_append)
  ultimately show ?thesis by (simp add: read_authority_def Some)
qed

lemma authority_text_free: "d \<in> {CHR ''/'', CHR ''?'', CHR ''#''} \<Longrightarrow> d \<notin> set (authority_text c)"
  by (cases "uri_user c") (auto simp: authority_text_def userinfo_string_def)

lemma url_string_fields:
  assumes "path = [] \<or> hd path = CHR ''/''"
  shows "url_string (uri_fields c path) = ''mongodb://'' @ authority_text c @ url_escape Encode_path path
    @ (if uri_options c = [] then [] else CHR ''?'' # values_encode (query_values c))"
proof -
  have "path \<noteq> ''*''" using assms by auto
  moreover have "path \<noteq> [] \<Longrightarrow> url_escape Encode_path path \<noteq> [] \<and> hd (url_escape Encode_path path) = CHR ''/''"
    using assms by (cases path) (auto simp: escape_slash)
  moreover have "url_escape Encode_path [] = []" by (simp add: url_escape_def)
  ultimately show ?thesis
    by (cases "path = []")
      (auto simp: url_string_def url_authority_def url_zero_def uri_fields_def authority_text_def uri_user_def escaped_path_def encoded_options_Nil)
qed

lemma read_url_string:
  assumes path: "path = [] \<or> hd path = CHR ''/''"
  shows "read_uri (url_string (uri_fields c path)) = Some \<lparr>up_user = uri_user c,
     up_host = mc_host c @ '':'' @ int_text (mc_port c), up_path = path, up_query = uri_options c\<rparr>"
proof -
  let ?p = "url_escape Encode_path path" and ?a = "authority_text c"
    and ?q = "if uri_options c = [] then None else Some (values_encode (query_values c))"
  have str: "url_string (uri_fields c path) = ''mongodb://'' @ ?a @ ?p
      @ (case ?q of None \<Rightarrow> [] | Some q \<Rightarrow> CHR ''?'' # q)"
    using url_string_fields [OF path, of c] by simp
  have free: "CHR ''#'' \<notin> set (url_string (uri_fields c path))"
    using authority_text_free [of "CHR ''#''" c] encoded_options_free [of "CHR ''#''" c] by (simp add: str)
  have q: "cut (CHR ''?'') (?a @ ?p @ (case ?q of None \<Rightarrow> [] | Some q \<Rightarrow> CHR ''?'' # q)) = (?a @ ?p, ?q)"
    using cut_append [of "CHR ''?''" "?a @ ?p"] cut_none [of "CHR ''?''" "?a @ ?p"]
      authority_text_free [of "CHR ''?''" c] by simp
  have "?p = [] \<or> hd ?p = CHR ''/''"
    using path by (cases path) (simp add: url_escape_def, simp add: escape_slash)
  with authority_text_free [of "CHR ''/''" c] have hier: "takeWhile (\<lambda>ch. ch \<noteq> CHR ''/'') (?a @ ?p) = ?a"
    "dropWhile (\<lambda>ch. ch \<noteq> CHR ''/'') (?a @ ?p) = ?p"
    using while_append [of "CHR ''/''" ?a ?p] by simp_all
  have opts: "read_query ?q = Some (uri_options c)"
    using read_query_pairs [of "uri_options c"] by (simp add: read_query_def values_encode_options)
  have head: "take 10 (url_string (uri_fields c path)) = ''mongodb://''"
    and rest: "drop 10 (url_string (uri_fields c path)) = ?a @ ?p @ (case ?q of None \<Rightarrow> [] | Some q \<Rightarrow> CHR ''?'' # q)"
    unfolding str by simp_all
  show ?thesis
    unfolding read_uri_def rest q Let_def prod.case hier read_authority_text opts unescape_escaped option.case
    using free head by simp
qed

text \<open>
  C21. The URI of a configuration without a connection string, read by the generic syntax of URIs, gives
  back the user name, password, host, port, database and options, whatever characters they contain: no
  field can change the meaning of another. The base URI differs in having no database.
\<close>

theorem build_uri_round_trip:
  "read_uri (build_uri_fields c) = Some \<lparr>up_user = (if mc_username c \<noteq> [] then Some (mc_username c, mc_password c) else None),
      up_host = mc_host c @ '':'' @ int_text (mc_port c), up_path = ''/'' @ mc_database c,
      up_query = (if mc_direct_connection c then [(''directConnection'', ''true'')] else [])
        @ (if mc_replica_set c \<noteq> [] then [(''replicaSet'', mc_replica_set c)] else [])\<rparr>
   \<and> read_uri (build_base_uri_fields c) = map_option (\<lambda>parts. parts\<lparr>up_path := []\<rparr>) (read_uri (build_uri_fields c))"
  using read_url_string [of "''/'' @ mc_database c" c] read_url_string [of "[]" c]
  by (simp add: build_uri_fields_def build_base_uri_fields_def uri_user_def uri_options_def)

subsection \<open>The database in a URI\<close>

lemma values_no_control: "\<not> list_ex control_byte (values_encode (query_values c))"
proof -
  have "\<not> control_byte d" if "d \<in> set (values_encode (query_values c))" for d
    using set_join_with [OF that [unfolded values_encode_options]] escape_no_control [of Encode_query_component]
    by (auto simp: encode_pair_def list_ex_iff control_byte_def)
  then show ?thesis by (auto simp: list_ex_iff)
qed

text \<open>What the URIs are built from parses, whenever the release's rules for hosts accept the host and port.\<close>

lemma uri_fields_canonical:
  assumes "parse_host ''mongodb'' (url_escape Encode_host (mc_host c @ '':'' @ int_text (mc_port c)))
      = Inr (mc_host c @ '':'' @ int_text (mc_port c))" and "path = [] \<or> hd path = CHR ''/''"
  shows "canonical_url parse_host (uri_fields c path)"
  using assms values_no_control [of c] encoded_options_free [of "CHR ''#''" c]
  by (simp add: canonical_url_def uri_fields_def url_zero_def scheme_ok_def letter_def to_lower_def lower_char_def)

definition database_url :: "url \<Rightarrow> string \<Rightarrow> url" where
  "database_url u path = u\<lparr>url_path := path, url_raw_path := []\<rparr>"

lemma database_url_path: "(database_url u q)\<lparr>url_path := p\<rparr> = database_url u p"
  by (simp add: database_url_def)

text \<open>
  C22. A given connection string, whatever its user, host, options and escapes: with a configured database
  and no path it gets the database as its path and is otherwise the same URL, one with a path is left as it
  is; the base URI is the same URL without a path; and setting a path in the base URI, as a tenant's migration does, gives the
  same URL with that path. The hypotheses are that the string parses, to a URL with a scheme and a host, and that its
  host, printed again, is accepted again.
\<close>

theorem connection_string_database:
  assumes string: "mc_connection_string c = s" "s \<noteq> []" and parse: "url_parse parse_host s = Inr u"
    and hash: "CHR ''#'' \<notin> set s" and scheme: "url_scheme u \<noteq> []" and host: "url_host u \<noteq> []"
    and stable: "parse_host (url_scheme u) (url_escape Encode_host (url_host u)) = Inr (url_host u)"
  shows "url_parse parse_host (build_uri parse_host c) = Inr
      (if mc_database c \<noteq> [] \<and> (url_path u = [] \<or> url_path u = ''/'') then database_url u (''/'' @ mc_database c) else u)
    \<and> url_parse parse_host (build_base_uri parse_host c) = Inr (database_url u [])
    \<and> (\<exists>t. url_with_path parse_host (build_base_uri parse_host c) (''/'' @ db) = Inr t
         \<and> url_parse parse_host t = Inr (database_url u (''/'' @ db)))"
proof -
  note with_path = with_path_parses [OF parse hash scheme host stable]
  have set_path: "url_string (u\<lparr>url_path := p\<rparr>) = url_string (database_url u p)"
    if "p = [] \<or> hd p = CHR ''/'' \<and> (url_path u = [] \<or> url_path u = ''/'')" for p
    using with_path(1) [OF that] by (simp add: url_with_path_def parse database_url_def)
  have uri: "url_parse parse_host (build_uri parse_host c) = Inr
      (if mc_database c \<noteq> [] \<and> (url_path u = [] \<or> url_path u = ''/'') then database_url u (''/'' @ mc_database c) else u)"
    using with_path(2) [of "''/'' @ mc_database c"] set_path [of "''/'' @ mc_database c"] string parse
    by (simp add: build_uri_def database_url_def)
  have base: "build_base_uri parse_host c = url_string (database_url u [])"
    using string parse set_path [of "[]"] by (simp add: build_base_uri_def)
  have canonical: "canonical_url parse_host (database_url u p)" if "p = [] \<or> hd p = CHR ''/''" for p
    unfolding database_url_def by (rule parse_canonical(4) [OF parse hash scheme host stable that])
  have parsed: "url_parse parse_host (build_base_uri parse_host c) = Inr (database_url u [])"
    unfolding base by (rule parse_string [OF canonical]) simp
  have "url_with_path parse_host (build_base_uri parse_host c) (''/'' @ db) = Inr (url_string (database_url u (''/'' @ db)))"
    by (simp add: url_with_path_def parsed database_url_path)
  moreover have "url_parse parse_host (url_string (database_url u (''/'' @ db))) = Inr (database_url u (''/'' @ db))"
    by (rule parse_string [OF canonical]) simp
  ultimately show ?thesis using uri parsed by blast
qed

definition any_host :: host_parser where "any_host scheme host = Inr host"

definition given_url :: url where
  "given_url = url_zero\<lparr>url_scheme := ''mongodb'', url_user := Some (''app'', Some ''p@ss''), url_host := ''db:27017'',
     url_path := ''/'', url_raw_query := ''replicaSet=rs0''\<rparr>"

definition given_mongo :: mongo_config where
  "given_mongo = mongo_zero\<lparr>mc_connection_string := ''mongodb://app:p%40ss@db:27017/?replicaSet=rs0'', mc_database := ''shop''\<rparr>"

lemma connection_string_database_witness:
  "url_parse any_host (build_uri any_host given_mongo) = Inr (given_url\<lparr>url_path := ''/shop''\<rparr>)"
proof -
  have parse: "url_parse any_host ''mongodb://app:p%40ss@db:27017/?replicaSet=rs0'' = Inr given_url" by code_simp
  have hash: "CHR ''#'' \<notin> set ''mongodb://app:p%40ss@db:27017/?replicaSet=rs0''" by simp
  have scheme: "url_scheme given_url \<noteq> []" and host: "url_host given_url \<noteq> []" by (simp_all add: given_url_def)
  have stable: "any_host (url_scheme given_url) (url_escape Encode_host (url_host given_url)) = Inr (url_host given_url)" by code_simp
  have string: "mc_connection_string given_mongo = ''mongodb://app:p%40ss@db:27017/?replicaSet=rs0''" by (simp add: given_mongo_def)
  from connection_string_database [OF string _ parse hash scheme host stable, THEN conjunct1]
  show ?thesis by (simp add: given_mongo_def) (simp add: given_url_def database_url_def url_zero_def)
qed

text \<open>The database of a configuration with fields goes the same way.\<close>

lemma fields_path: "(uri_fields c q)\<lparr>url_path := p\<rparr> = uri_fields (c\<lparr>mc_database := db\<rparr>) p"
  by (simp add: uri_fields_def query_values_def url_zero_def)

lemma fields_database:
  assumes "mc_connection_string c = []" and "parse_host ''mongodb'' (url_escape Encode_host (mc_host c @ '':'' @ int_text (mc_port c)))
      = Inr (mc_host c @ '':'' @ int_text (mc_port c))"
  shows "url_parse parse_host (build_base_uri parse_host c) = Inr (uri_fields c [])"
    and "url_with_path parse_host (build_base_uri parse_host c) (''/'' @ db) = Inr (build_uri parse_host (c\<lparr>mc_database := db\<rparr>))"
proof -
  have base: "build_base_uri parse_host c = url_string (uri_fields c [])"
    by (simp add: build_base_uri_def assms(1) build_base_uri_fields_def)
  show parsed: "url_parse parse_host (build_base_uri parse_host c) = Inr (uri_fields c [])"
    unfolding base by (rule parse_string [OF uri_fields_canonical]) (use assms(2) in simp_all)
  show "url_with_path parse_host (build_base_uri parse_host c) (''/'' @ db) = Inr (build_uri parse_host (c\<lparr>mc_database := db\<rparr>))"
    by (simp add: url_with_path_def parsed build_uri_def assms(1) build_uri_fields_def fields_path [where db = db])
qed

text \<open>
  A connection string that does not parse, here for its user information: \<^verbatim>\<open>BuildURI\<close> returns it as it is, and
  \<^verbatim>\<open>BuildBaseURI\<close> a URI of the fields, which nothing requires to be set then.
\<close>

lemma port_digits: "char_of (48 :: nat) = CHR ''0''" "char_of (49 :: nat) = CHR ''1''" "char_of (50 :: nat) = CHR ''2''"
  "char_of (55 :: nat) = CHR ''7''"
  by code_simp+

lemma unparsable_connection_string:
  assumes "parse_host ''mongodb'' ''db:27017'' = Inr ''db:27017''"
    and c: "c = (mongo_apply_defaults mongo_zero)\<lparr>mc_connection_string := ''mongodb://app:pa{ss@db:27017/shop''\<rparr>"
  shows "mongo_validate c = None \<and> build_uri parse_host c = mc_connection_string c
    \<and> build_base_uri parse_host c = ''mongodb://:27017''"
proof -
  have fails: "\<exists>e. url_parse parse_host ''mongodb://app:pa{ss@db:27017/shop'' = Inl e"
    using assms(1)
    by (simp add: url_parse_def parse_without_fragment_def parse_failed_def cut_def control_byte_def letter_def
        scheme_mark_def alphanumeric_def split_query_def parse_hierarchy_def parse_authority_def cut_last_def
        parse_userinfo_def valid_userinfo_def to_lower_def lower_char_def url_zero_def)
  have "build_base_uri_fields c = ''mongodb://:27017''"
    by (simp add: build_base_uri_fields_def uri_fields_def c mongo_zero_def mongo_apply_defaults_def url_string_def
        url_authority_def escaped_path_def url_zero_def query_values_def values_encode_def int_text_def nat_digits.simps
        url_escape_def escape_char_def should_escape_def alphanumeric_def host_delims_def if_zero_def port_digits)
  moreover have "mongo_validate c = None" by (simp add: c cfg_defs mongo_zero_def)
  ultimately show ?thesis
    using fails by (auto simp: build_uri_def build_base_uri_def c)
qed

end
