(* ===== verification/Mongo_Transactions.thy ===== *)
theory Mongo_Transactions
  imports Generic_Repository Event_Round_Trip
begin

section \<open>Transactions (pkg/mongo/txmanager.go)\<close>

text \<open>
  The transaction manager over the driver's sessions, a parameter, and what it is for: an update of an
  entity and the outbox message of its event in one transaction. A callback may panic, so its outcome
  is a \<open>may_panic\<close> next to the state it left.
\<close>

subsection \<open>Sessions\<close>

text \<open>
  A value of type \<^verbatim>\<open>any\<close>. A value of a type parameter \<^verbatim>\<open>T\<close> is the \<^verbatim>\<open>any\<close> it converts to, which is nil only
  for a nil interface value, that is when \<^verbatim>\<open>T\<close> is an interface type. The assertion \<^verbatim>\<open>x.(T)\<close> panics on nil.
\<close>

datatype 'v go_any = Nil_any | Any 'v

fun assert_type :: "'v go_any \<Rightarrow> 'v go_any may_panic" where
  "assert_type Nil_any = Inl ''interface conversion: interface is nil''"
| "assert_type (Any v) = Inr (Any v)"

type_synonym ('s, 'v) tx_fn = "go_ctx \<Rightarrow> 's \<Rightarrow> (go_error, 'v go_any) result may_panic \<times> 's"

text \<open>
  The driver's sessions: \<^verbatim>\<open>StartSession\<close>, the session's \<^verbatim>\<open>WithTransaction\<close>, the context it gives to its
  callback, and \<^verbatim>\<open>EndSession\<close>.
\<close>

record ('s, 'v) sessions =
  start_session :: "'s \<Rightarrow> go_error option \<times> 's"
  run_transaction :: "go_ctx \<Rightarrow> ('s, 'v) tx_fn \<Rightarrow> 's \<Rightarrow> (go_error, 'v go_any) result may_panic \<times> 's"
  session_ctx :: "go_ctx \<Rightarrow> go_ctx"
  end_session :: "go_ctx \<Rightarrow> 's \<Rightarrow> 's"

definition tx_with_transaction ::
  "('s, 'v) sessions \<Rightarrow> go_ctx \<Rightarrow> ('s, 'v) tx_fn \<Rightarrow> 's \<Rightarrow> (go_error, 'v go_any) result may_panic \<times> 's" where
  "tx_with_transaction lib ctx fn s =
     (case start_session lib s of
        (Some err, s1) \<Rightarrow> (Inr (Inl (Wrapf ''failed to start session: '' err [])), s1)
      | (None, s1) \<Rightarrow>
          (let (r, s2) = run_transaction lib ctx (\<lambda>sessCtx. fn sessCtx) s1;
               s3 = end_session lib ctx s2
           in case r of
                Inl p \<Rightarrow> (Inl p, s3)
              | Inr (Inl err) \<Rightarrow> (Inr (Inl (Wrapf ''transaction failed: '' err [])), s3)
              | Inr (Inr result) \<Rightarrow> (Inr (Inr result), s3)))"

text \<open>The generic wrapper \<^verbatim>\<open>WithTransaction[T]\<close> over the method \<open>tm\<close> of a transaction manager.\<close>

definition with_transaction where
  "with_transaction tm ctx fn s =
     (case tm ctx (\<lambda>txCtx. fn txCtx) s of
        (Inl p, s') \<Rightarrow> (Inl p, s')
      | (Inr (Inl err), s') \<Rightarrow> (Inr (Inl err), s')
      | (Inr (Inr result), s') \<Rightarrow> (map_sum id Inr (assert_type result), s'))"

text \<open>
  The documented behaviour, \<open>data\<close> being what the database holds. Sessions themselves change nothing. A
  transaction that returns a value has committed the writes of the callback's last call, which found the
  data as they were and returned that value. One that returns an error has committed nothing, or its
  commit's outcome is unknown. A panic of the callback commits nothing.
\<close>

definition committed :: "('s \<Rightarrow> 'd) \<Rightarrow> go_ctx \<Rightarrow> ('s, 'v) tx_fn \<Rightarrow> 's \<Rightarrow> 's \<Rightarrow> 'v go_any \<Rightarrow> bool" where
  "committed data ctx fn s s' v \<longleftrightarrow>
     (\<exists>s0 s1. data s0 = data s \<and> fn ctx s0 = (Inr (Inr v), s1) \<and> data s' = data s1)"

definition sessions_conform :: "('s \<Rightarrow> 'd) \<Rightarrow> ('s, 'v) sessions \<Rightarrow> bool" where
  "sessions_conform data lib \<longleftrightarrow>
     (\<forall>s. data (snd (start_session lib s)) = data s)
   \<and> (\<forall>ctx s. data (end_session lib ctx s) = data s)
   \<and> (\<forall>ctx fn s. (let (r, s') = run_transaction lib ctx fn s
        in (\<forall>v. r = Inr (Inr v) \<longrightarrow> committed data (session_ctx lib ctx) fn s s' v)
         \<and> (\<forall>err. r = Inr (Inl err) \<longrightarrow>
              data s' = data s \<or> (\<exists>v. committed data (session_ctx lib ctx) fn s s' v))
         \<and> (\<forall>p. r = Inl p \<longrightarrow> data s' = data s)))"

lemma tx_atomic:
  assumes conf: "sessions_conform data lib" and run: "tx_with_transaction lib ctx fn s = (r, s')"
  shows "r = Inr (Inr v) \<Longrightarrow> committed data (session_ctx lib ctx) fn s s' v"
    and "data s' = data s \<or> (\<exists>v. committed data (session_ctx lib ctx) fn s s' v)"
    and "r = Inl p \<Longrightarrow> data s' = data s"
proof -
  obtain e s1 where start: "start_session lib s = (e, s1)" by (cases "start_session lib s")
  obtain q s2 where tx: "run_transaction lib ctx fn s1 = (q, s2)" by (cases "run_transaction lib ctx fn s1")
  have s1: "data s1 = data s" using conf start unfolding sessions_conform_def by (metis snd_conv)
  have law: "(\<forall>v. q = Inr (Inr v) \<longrightarrow> committed data (session_ctx lib ctx) fn s1 s2 v)
      \<and> (\<forall>err. q = Inr (Inl err) \<longrightarrow> data s2 = data s1 \<or> (\<exists>v. committed data (session_ctx lib ctx) fn s1 s2 v))
      \<and> (\<forall>p. q = Inl p \<longrightarrow> data s2 = data s1)"
    using conf [unfolded sessions_conform_def, THEN conjunct2, THEN conjunct2, rule_format, of ctx fn s1] tx by simp
  have fin: "data (end_session lib ctx s2) = data s2" using conf unfolding sessions_conform_def by blast
  have shift: "committed data (session_ctx lib ctx) fn s1 s2 v \<Longrightarrow> data t = data s2 \<Longrightarrow>
      committed data (session_ctx lib ctx) fn s t v" for t v
    by (auto simp: committed_def s1)
  have outcome: "(\<exists>err. r = Inr (Inl err)) \<and> data s' = data s
      \<or> s' = end_session lib ctx s2 \<and> (\<forall>p. r = Inl p \<longrightarrow> q = Inl p) \<and> (\<forall>v. r = Inr (Inr v) \<longrightarrow> q = Inr (Inr v))"
    using run start tx s1 by (cases e) (auto simp: tx_with_transaction_def Let_def split: sum.splits)
  show "committed data (session_ctx lib ctx) fn s s' v" if "r = Inr (Inr v)"
    using outcome law shift [OF _ fin] that by blast
  show "data s' = data s" if "r = Inl p"
    using outcome law s1 fin that by auto
  have "data s2 = data s1 \<or> (\<exists>v. committed data (session_ctx lib ctx) fn s1 s2 v)"
    using law by (metis sumE)
  then show "data s' = data s \<or> (\<exists>v. committed data (session_ctx lib ctx) fn s s' v)"
    using outcome shift [OF _ fin] s1 fin by auto
qed

subsection \<open>An update with its event\<close>

text \<open>
  What the services pass to \<^verbatim>\<open>WithTransaction\<close>: \<^verbatim>\<open>Update\<close> of the generic repository, then \<^verbatim>\<open>Outbox.Create\<close>,
  each with the transaction's context, each error returned.
\<close>

definition update_with_event where
  "update_with_event drv provider m lib source repo domain msg ctx s =
     (case repo_update drv provider m ctx domain s of
        Inl p \<Rightarrow> (Inl p, s)
      | Inr (Inl err, s1) \<Rightarrow> (Inr (Inl err), s1)
      | Inr (Inr newer, s1) \<Rightarrow>
          (case outbox_create lib source repo ctx msg s1 of
             (Inl err, s2) \<Rightarrow> (Inr (Inl err), s2)
           | (Inr entity, s2) \<Rightarrow> (Inr (Inr (Any (newer, entity))), s2)))"

text \<open>The two collections are apart: a write to one leaves the other as it is.\<close>

definition apart :: "('s, 'e) driver \<Rightarrow> 's outbox_driver \<Rightarrow> bool" where
  "apart drv od \<longleftrightarrow>
     (\<forall>ctx coll f e s. od_docs od (snd (find_and_replace drv ctx coll f e s)) = od_docs od s)
   \<and> (\<forall>ctx e s. stored drv (snd (od_insert od ctx e s)) = stored drv s)"

definition saved_both where
  "saved_both drv od m coll domain msg s s' \<longleftrightarrow>
     (\<exists>old entity. stored drv s coll (get_id m (to_entity m domain)) = Some old
        \<and> get_version m old = get_version m (to_entity m domain)
        \<and> stored drv s' = put_doc (get_id m) coll
             (set_version m (to_entity m domain) (wrap64 (get_version m (to_entity m domain) + 1))) (stored drv s)
        \<and> od_docs od s (ob_id entity) = None \<and> od_docs od s' = (od_docs od s)(ob_id entity \<mapsto> entity)
        \<and> ob_status entity = status_processing
        \<and> ob_topic entity = msg_topic msg \<and> ob_key entity = msg_key msg)"

lemma update_with_event_saves:
  assumes conf: "driver_conforms (get_id m) (get_version m) drv" "mapper_ok m" "outbox_conforms od" "apart drv od"
    and coll: "provider ctx = Inr coll"
    and run: "update_with_event drv provider m lib source (outbox_repository od mb) domain msg ctx s = (Inr (Inr v), s')"
  shows "saved_both drv od m coll domain msg s s' \<and> v \<noteq> Nil_any"
proof -
  obtain d s1 entity where upd: "repo_update drv provider m ctx domain s = Inr (Inr d, s1)"
    and cr: "outbox_create lib source (outbox_repository od mb) ctx msg s1 = (Inr entity, s')"
    and v: "v = Any (d, entity)"
    using run by (auto simp: update_with_event_def split: sum.splits prod.splits)
  note eff = repo_update_effect(1) [OF conf(1,2) coll upd refl refl refl refl]
  have docs1: "od_docs od s1 = od_docs od s"
  proof -
    obtain f e q where "find_and_replace drv ctx coll f e s = (q, s1)"
      using upd coll by (auto simp: repo_update_def Let_def split: prod.splits)
    then show ?thesis using conf(4) [unfolded apart_def, THEN conjunct1, rule_format, of ctx coll f e s] by simp
  qed
  obtain payload headers where e: "entity = new_entity (od_now od s1) payload (ev_uuid lib) (msg_key msg) (msg_topic msg) headers"
    and ins: "od_insert od ctx entity s1 = (None, s')"
  proof -
    from outbox_create_entity [OF cr] obtain payload headers where
      e: "entity = new_entity (od_now od s1) payload (ev_uuid lib) (msg_key msg) (msg_topic msg) headers" by metis
    moreover have "od_insert od ctx entity s1 = (None, s')"
      using cr by (auto simp: outbox_create_def populate_headers_def outbox_repository_def repo_create_def Let_def
          split: sum.splits prod.splits option.splits)
    ultimately show ?thesis by (rule that)
  qed
  from outbox_laws(2) [OF conf(3) ins] have "od_docs od s1 (ob_id entity) = None"
    "od_docs od s' = (od_docs od s1)(ob_id entity \<mapsto> entity)" by simp_all
  moreover have "stored drv s' = stored drv s1" using conf(4) ins unfolding apart_def by (metis snd_conv)
  moreover have "ob_status entity = status_processing" "ob_topic entity = msg_topic msg" "ob_key entity = msg_key msg"
    by (simp_all add: e new_entity_def)
  moreover obtain old where "stored drv s coll (get_id m (to_entity m domain)) = Some old"
    "get_version m old = get_version m (to_entity m domain)" using eff by blast
  ultimately have "saved_both drv od m coll domain msg s s'"
    unfolding saved_both_def using eff docs1 by (intro exI [of _ old] exI [of _ entity]) simp
  then show ?thesis by (simp add: v)
qed

text \<open>
  C9. In a transaction an update and the message of its event are atomic: when \<^verbatim>\<open>WithTransaction\<close> returns a
  value, the entity was replaced at the version that was read and the message is stored, to be sent; in
  every other case, an error of either call, a failed or unknown commit, or a panic, either both were done
  or the data are unchanged. The type assertion never panics here.
\<close>

theorem transaction_saves_both_or_none:
  assumes conf: "driver_conforms (get_id m) (get_version m) drv" "mapper_ok m" "outbox_conforms od" "apart drv od"
    and sessions: "sessions_conform (\<lambda>s. (stored drv s, od_docs od s)) sess"
    and coll: "provider (session_ctx sess ctx) = Inr coll"
    and run: "with_transaction (tx_with_transaction sess) ctx
       (update_with_event drv provider m lib source (outbox_repository od mb) domain msg) s = (r, s')"
  shows "((\<exists>v. r = Inr (Inr v)) \<longrightarrow> saved_both drv od m coll domain msg s s')
    \<and> (saved_both drv od m coll domain msg s s' \<or> stored drv s' = stored drv s \<and> od_docs od s' = od_docs od s)
    \<and> (\<forall>p. r = Inl p \<longrightarrow> stored drv s' = stored drv s \<and> od_docs od s' = od_docs od s)"
proof -
  let ?fn = "update_with_event drv provider m lib source (outbox_repository od mb) domain msg"
    and ?data = "\<lambda>s. (stored drv s, od_docs od s)"
  have both: "saved_both drv od m coll domain msg s t \<and> v \<noteq> Nil_any"
    if "committed ?data (session_ctx sess ctx) ?fn s t v" for t v
  proof -
    from that obtain s0 s1 where s0: "?data s0 = ?data s" "?data t = ?data s1"
      and fn: "?fn (session_ctx sess ctx) s0 = (Inr (Inr v), s1)" by (auto simp: committed_def)
    from update_with_event_saves [OF conf coll fn] s0 show ?thesis by (simp add: saved_both_def)
  qed
  obtain q where tx: "tx_with_transaction sess ctx ?fn s = (q, s')"
    and r: "r = (case q of Inl p \<Rightarrow> Inl p | Inr (Inl err) \<Rightarrow> Inr (Inl err) | Inr (Inr v) \<Rightarrow> map_sum id Inr (assert_type v))"
    using run by (auto simp: with_transaction_def split: sum.splits prod.splits)
  note atomic = tx_atomic [OF sessions tx]
  have "(\<exists>v. r = Inr (Inr v)) \<longrightarrow> saved_both drv od m coll domain msg s s'"
    using atomic(1) both r by (auto split: sum.splits)
  moreover have "saved_both drv od m coll domain msg s s' \<or> ?data s' = ?data s" using atomic(2) both by blast
  moreover have "?data s' = ?data s" if "r = Inl p" for p
  proof -
    have "assert_type v = Inr v" if "q = Inr (Inr v)" for v
      using atomic(1) [OF that] both by (cases v) auto
    with that r have q: "q = Inl p" by (auto split: sum.splits)
    show ?thesis by (rule atomic(3) [OF q])
  qed
  ultimately show ?thesis by auto
qed

subsection \<open>A database in memory\<close>

text \<open>
  The state is a pair, the documents of the repository and the outbox collection; a driver for one part
  works on the pair.
\<close>

definition on_fst :: "('s \<Rightarrow> 'r \<times> 's) \<Rightarrow> 's \<times> 't \<Rightarrow> 'r \<times> 's \<times> 't" where
  "on_fst f p = (let (r, s') = f (fst p) in (r, s', snd p))"

definition on_snd :: "('t \<Rightarrow> 'r \<times> 't) \<Rightarrow> 's \<times> 't \<Rightarrow> 'r \<times> 's \<times> 't" where
  "on_snd f p = (let (r, t') = f (snd p) in (r, fst p, t'))"

definition fst_driver :: "('s, 'e) driver \<Rightarrow> ('s \<times> 't, 'e) driver" where
  "fst_driver drv = \<lparr>stored = (\<lambda>p. stored drv (fst p)), matches = matches drv, in_order = in_order drv,
     insert_one = (\<lambda>ctx coll e. on_fst (insert_one drv ctx coll e)),
     find_one = (\<lambda>ctx coll f. on_fst (find_one drv ctx coll f)),
     find_many = (\<lambda>ctx coll f opts. on_fst (find_many drv ctx coll f opts)),
     count_docs = (\<lambda>ctx coll f lim. on_fst (count_docs drv ctx coll f lim)),
     find_and_replace = (\<lambda>ctx coll f e. on_fst (find_and_replace drv ctx coll f e)),
     delete_one = (\<lambda>ctx coll f. on_fst (delete_one drv ctx coll f)),
     replace_upsert = (\<lambda>ctx coll f e. on_fst (replace_upsert drv ctx coll f e))\<rparr>"

definition snd_outbox :: "'t outbox_driver \<Rightarrow> ('s \<times> 't) outbox_driver" where
  "snd_outbox od = \<lparr>od_docs = (\<lambda>p. od_docs od (snd p)), od_now = (\<lambda>p. od_now od (snd p)),
     od_insert = (\<lambda>ctx e. on_snd (od_insert od ctx e)),
     od_find_and_update = (\<lambda>ctx P f sort_keys. on_snd (od_find_and_update od ctx P f sort_keys)),
     od_update_many = (\<lambda>ctx ids f. on_snd (od_update_many od ctx ids f))\<rparr>"

lemma fst_driver_found: "found (fst_driver drv) p coll f = found drv (fst p) coll f"
  by (simp add: found_def fst_driver_def)

lemma fst_driver_conforms:
  assumes "driver_conforms ident version drv"
  shows "driver_conforms ident version (fst_driver drv)"
proof -
  note parts = conforms_parts [OF assms]
  have "filters_conform ident version (fst_driver drv)" "stored_by_id ident (fst_driver drv)"
    using parts(1,2) by (simp_all add: filters_conform_def stored_by_id_def fst_driver_def)
  moreover have "reads_conform (fst_driver drv)"
    using parts(3) unfolding reads_conform_def find_one_conforms_def find_many_conforms_def count_conforms_def
      fst_driver_found by (simp add: fst_driver_def on_fst_def split_beta Let_def)
  moreover have "insert_conforms ident (fst_driver drv)" "replace_conforms ident (fst_driver drv)"
    "delete_conforms ident (fst_driver drv)" "upsert_conforms ident (fst_driver drv)"
    using parts(4-7) unfolding insert_conforms_def replace_conforms_def delete_conforms_def upsert_conforms_def
      fst_driver_found by (simp_all add: fst_driver_def on_fst_def split_beta Let_def)
  ultimately show ?thesis by (simp add: driver_conforms_def)
qed

lemma snd_outbox_conforms: "outbox_conforms od \<Longrightarrow> outbox_conforms (snd_outbox od)"
  unfolding outbox_conforms_def
  by (elim conjE, intro conjI; simp add: snd_outbox_def on_snd_def split_beta Let_def del: split_paired_All; blast)

lemma parts_apart: "apart (fst_driver drv) (snd_outbox od)"
  by (simp add: apart_def fst_driver_def snd_outbox_def on_fst_def on_snd_def split_beta Let_def)

text \<open>Sessions that take back what a callback did unless it returns a value.\<close>

definition mem_sessions :: "('s, 'v) sessions" where
  "mem_sessions = \<lparr>start_session = (\<lambda>s. (None, s)),
     run_transaction = (\<lambda>ctx fn s. case fn ctx s of (Inr (Inr v), s') \<Rightarrow> (Inr (Inr v), s') | (r, s') \<Rightarrow> (r, s)),
     session_ctx = id, end_session = (\<lambda>ctx s. s)\<rparr>"

lemma mem_sessions_conform: "sessions_conform data mem_sessions"
  by (auto simp: sessions_conform_def mem_sessions_def committed_def Let_def split: prod.splits sum.splits)

lemma create_on_snd:
  "outbox_create lib source (outbox_repository (snd_outbox od) mb) ctx msg (a, t) =
     (let (r, t') = outbox_create lib source (outbox_repository od mb) ctx msg t in (r, (a, t')))"
  by (simp add: outbox_create_def outbox_repository_def repo_create_def snd_outbox_def on_snd_def split_beta Let_def
      split: sum.split prod.split option.split)

text \<open>An order with its event, and the same order with an event that cannot be serialised.\<close>

definition shop_db :: "mem \<times> mem_outbox_state" where
  "shop_db = (one_item, (0, []))"

definition save_item where
  "save_item lib = with_transaction (tx_with_transaction mem_sessions) (context_with_slug ctx_background ''acme'')
     (update_with_event (fst_driver mem_driver) (static_collection shop) doc_mapper lib ''shop''
        (outbox_repository (snd_outbox mem_od) hour) (item ''a'' 1) shop_message) shop_db"

theorem transaction_saves_both_or_none_witness:
  "(\<exists>v s'. save_item shop_lib = (Inr (Inr v), s')
      \<and> saved_both (fst_driver mem_driver) (snd_outbox mem_od) doc_mapper shop (item ''a'' 1) shop_message shop_db s')
   \<and> (\<exists>err s'. save_item (shop_lib\<lparr>ev_marshal := (\<lambda>_. Inl (New_error ''bad''))\<rparr>) = (Inr (Inl err), s')
      \<and> s' = shop_db)"
proof -
  let ?ctx = "context_with_slug ctx_background ''acme''"
  let ?s1 = "(mem_put shop (item ''a'' 2) one_item, (0, []))"
  have upd: "repo_update (fst_driver mem_driver) (static_collection shop) doc_mapper ?ctx (item ''a'' 1) shop_db
      = Inr (Inr (item ''a'' 2), ?s1)"
    by (simp add: repo_update_def fst_driver_def on_fst_def shop_db_def mem_eval Let_def wrap64_def wrap_err_def)
  have save: "save_item lib = (case outbox_create lib ''shop'' (outbox_repository (snd_outbox mem_od) hour) ?ctx shop_message ?s1 of
      (Inl err, s') \<Rightarrow> (Inr (Inl (Wrapf ''transaction failed: '' err [])), shop_db)
    | (Inr e, s') \<Rightarrow> (Inr (Inr (Any (item ''a'' 2, e))), s'))" for lib
    by (simp add: save_item_def with_transaction_def tx_with_transaction_def mem_sessions_def update_with_event_def upd
        split: prod.split sum.split)
  have ok: "save_item shop_lib = (Inr (Inr (Any (item ''a'' 2, shop_entity))), (mem_put shop (item ''a'' 2) one_item, (0, [shop_entity])))"
    by (simp add: save create_on_snd shop_create)
  moreover have "saved_both (fst_driver mem_driver) (snd_outbox mem_od) doc_mapper shop (item ''a'' 1) shop_message shop_db
      (mem_put shop (item ''a'' 2) one_item, (0, [shop_entity]))"
    by (rule transaction_saves_both_or_none [OF fst_driver_conforms [OF doc_mapper_ok(2)] doc_mapper_ok(1)
          snd_outbox_conforms [OF mem_outbox_conforms] parts_apart mem_sessions_conform _ ok [unfolded save_item_def],
          THEN conjunct1, THEN mp])
      (simp_all add: static_collection_def)
  moreover have "save_item (shop_lib\<lparr>ev_marshal := (\<lambda>_. Inl (New_error ''bad''))\<rparr>) =
      (Inr (Inl (Wrapf ''transaction failed: '' (Wrapf ''failed to serialize outbox message: ''
         (Wrapf ''proto marshal failed: '' (New_error ''bad'') []) []) [])), shop_db)"
    by (simp add: save outbox_create_def proto_serialize_def split_beta Let_def)
  ultimately show ?thesis by blast
qed

text \<open>
  A function whose type parameter is an interface may return nil; the transaction is committed and then
  the wrapper's type assertion panics.
\<close>

lemma nil_result_panics_after_commit:
  "with_transaction (tx_with_transaction mem_sessions) ctx (\<lambda>ctx s. (Inr (Inr Nil_any), write s)) s
    = (Inl ''interface conversion: interface is nil'', write s)"
  by (simp add: with_transaction_def tx_with_transaction_def mem_sessions_def)

end
