(* ===== verification/Tenant_Module.thy ===== *)
theory Tenant_Module
  imports Tenant_Operations Mongo_Uri
begin

section \<open>The tenant module (pkg/tenant/fxconfig, pkg/mongo/migrator.go, cleanup_worker.go)\<close>

text \<open>
  What the module provides with and without multi-tenancy, the choice of the migration runner, and the
  loop of the cleanup worker between which the registry is changed by others. A value that is not provided is \<open>None\<close>, Go's nil.
\<close>

subsection \<open>Migration runners\<close>

text \<open>
  The tenants' runner holds the syncer (a provider of slugs and a repository), the registry, the base URI,
  the base database and the path of the migrations. \<open>baseURI\<close> is what \<^verbatim>\<open>BuildBaseURI\<close>, and \<open>uri\<close> what \<^verbatim>\<open>BuildURI\<close> returns.
\<close>

type_synonym 's slugs_provider = "go_ctx \<Rightarrow> 's \<Rightarrow> (go_error, string list) result \<times> 's"
type_synonym 's tenant_syncer = "'s slugs_provider \<times> 's tenant_repo option"

record 's tenant_runner =
  trun_syncer :: "'s tenant_syncer option"
  trun_repo :: "'s tenant_repo option"
  trun_base_uri :: string
  trun_base_database :: string
  trun_path :: string

definition new_tenant_migration_runner ::
  "'s tenant_syncer option \<Rightarrow> 's tenant_repo option \<Rightarrow> string \<Rightarrow> mongo_config \<Rightarrow> 's tenant_runner" where
  "new_tenant_migration_runner syncer repo baseURI cfg = \<lparr>trun_syncer = syncer, trun_repo = repo,
     trun_base_uri = baseURI, trun_base_database = mc_database cfg, trun_path = mc_migrations_path cfg\<rparr>"

datatype 's migration_runner = Single_runner string string | Tenants_runner "'s tenant_runner"

definition new_single_migration_runner :: "string \<Rightarrow> mongo_config \<Rightarrow> 's migration_runner" where
  "new_single_migration_runner uri cfg = Single_runner uri (mc_migrations_path cfg)"

text \<open>
  \<^verbatim>\<open>Run\<close> of either; \<open>migrate url path\<close> is \<^verbatim>\<open>MigrateDatabase\<close>. A call on a nil syncer or registry panics.
\<close>

definition nil_call :: string where "nil_call = ''invalid memory address or nil pointer dereference''"

fun run_migrations where
  "run_migrations lo with_path migrate ctx (Single_runner uri path) s = Inr (migrate uri path s)"
| "run_migrations lo with_path migrate ctx (Tenants_runner r) s =
     (case (trun_syncer r, trun_repo r) of
        (Some (slugs, Some syncRepo), Some repo) \<Rightarrow>
          Inr (case tenant_sync lo syncRepo slugs ctx s of
             (Inl e, s1) \<Rightarrow> (Some (Wrapf ''tenant sync failed: '' e []), s1)
           | (Inr _, s1) \<Rightarrow>
               (case repo_active repo ctx s1 of
                  (Inl e, s2) \<Rightarrow> (Some (Wrapf ''failed to list active tenants: '' e []), s2)
                | (Inr records, s2) \<Rightarrow>
                    if records = [] then (None, s2)
                    else migrate_each (migrate_tenant with_path (\<lambda>u. migrate u (trun_path r))
                           (trun_base_uri r) (trun_base_database r)) records s2))
      | _ \<Rightarrow> Inl nil_call)"

subsection \<open>Providers\<close>

definition provide_tenant_repository :: "bool \<Rightarrow> 's registry_driver \<Rightarrow> 's tenant_repo option" where
  "provide_tenant_repository enabled rd = (if \<not> enabled then None else Some (mongo_repository rd))"

definition provide_tenant_syncer :: "bool \<Rightarrow> 's slugs_provider \<Rightarrow> 's tenant_repo option \<Rightarrow> 's tenant_syncer option" where
  "provide_tenant_syncer enabled slugs repo = (if \<not> enabled then None else Some (slugs, repo))"

definition provide_tenant_migration_runner ::
  "bool \<Rightarrow> 's tenant_syncer option \<Rightarrow> 's tenant_repo option \<Rightarrow> string \<Rightarrow> mongo_config \<Rightarrow> 's tenant_runner option" where
  "provide_tenant_migration_runner enabled syncer repo baseURI cfg =
     (if \<not> enabled then None else Some (new_tenant_migration_runner syncer repo baseURI cfg))"

definition decorate_migration_runner ::
  "bool \<Rightarrow> 's migration_runner \<Rightarrow> 's tenant_runner option \<Rightarrow> 's migration_runner" where
  "decorate_migration_runner enabled defaultRunner tenantRunner =
     (if \<not> enabled then defaultRunner
      else case tenantRunner of None \<Rightarrow> defaultRunner | Some r \<Rightarrow> Tenants_runner r)"

definition provide_tenant_lifecycle ::
  "bool \<Rightarrow> 's tenant_repo option \<Rightarrow> 's tenant_runner option \<Rightarrow> ('s tenant_repo option \<times> 's tenant_runner option) option" where
  "provide_tenant_lifecycle enabled repo runner = (if \<not> enabled then None else Some (repo, runner))"

type_synonym 's cleaner = "go_ctx \<Rightarrow> string \<Rightarrow> 's \<Rightarrow> go_error option \<times> 's"

definition provide_tenant_cleaner ::
  "bool \<Rightarrow> (go_ctx \<Rightarrow> string \<Rightarrow> 's \<Rightarrow> go_error option \<times> 's) \<Rightarrow> string \<Rightarrow> 's cleaner option" where
  "provide_tenant_cleaner enabled drop_db base = (if \<not> enabled then None else Some (mongo_cleaner drop_db base))"

subsection \<open>The cleanup worker\<close>

datatype 's cleanup_worker = Noop_cleanup | Default_cleanup "'s tenant_repo option" "'s cleaner list"

definition provide_cleanup_worker :: "bool \<Rightarrow> 's tenant_repo option \<Rightarrow> 's cleaner list \<Rightarrow> 's cleanup_worker" where
  "provide_cleanup_worker enabled repo cleaners = (if \<not> enabled then Noop_cleanup else Default_cleanup repo cleaners)"

text \<open>
  One iteration of the loop: false when the worker returns. \<open>tick\<close> is whether its ticker, every minute,
  has fired; it blocks when neither arm is ready.
\<close>

definition cleanup_step ::
  "'s tenant_repo \<Rightarrow> 's cleaner list \<Rightarrow> nat \<Rightarrow> go_ctx \<Rightarrow> bool \<Rightarrow> 's \<Rightarrow> (bool \<times> cleanup_event list \<times> 's) option" where
  "cleanup_step repo cleaners pick ctx tick s = go_select pick
     [(ctx_done ctx, (False, [], s)),
      (tick, (let (evs, s') = process_expired_tenants repo cleaners ctx s in (True, evs, s')))]"

text \<open>
  A run over rounds, each with what others do before it, the runtime's choice, the context and the ticker:
  whether the worker has returned, and its sweeps with the states before and after.
\<close>

type_synonym 's round = "('s \<Rightarrow> 's) \<times> nat \<times> go_ctx \<times> bool"

fun cleanup_loop ::
  "'s tenant_repo \<Rightarrow> 's cleaner list \<Rightarrow> 's round list \<Rightarrow> 's \<Rightarrow> bool \<times> ('s \<times> cleanup_event list \<times> 's) list" where
  "cleanup_loop repo cleaners [] s = (False, [])"
| "cleanup_loop repo cleaners ((others, pick, ctx, tick) # rounds) s =
     (case cleanup_step repo cleaners pick ctx tick (others s) of
        None \<Rightarrow> cleanup_loop repo cleaners rounds (others s)
      | Some (False, evs, s') \<Rightarrow> (True, [])
      | Some (True, evs, s') \<Rightarrow>
          (let (returned, sweeps) = cleanup_loop repo cleaners rounds s'
           in (returned, (others s, evs, s') # sweeps)))"

fun run_cleanup_worker ::
  "'s cleanup_worker \<Rightarrow> 's round list \<Rightarrow> 's \<Rightarrow> (bool \<times> ('s \<times> cleanup_event list \<times> 's) list) may_panic" where
  "run_cleanup_worker Noop_cleanup rounds s = Inr (True, [])"
| "run_cleanup_worker (Default_cleanup None cleaners) rounds s = Inl nil_call"
| "run_cleanup_worker (Default_cleanup (Some repo) cleaners) rounds s = Inr (cleanup_loop repo cleaners rounds s)"

subsection \<open>Properties\<close>

lemma run_tenants_runner:
  assumes "trun_syncer r = Some (slugs, Some repo)" and "trun_repo r = Some repo"
    and "trun_base_uri r = uri" and "trun_base_database r = base" and "trun_path r = path"
  shows "run_migrations lo with_path migrate ctx (Tenants_runner r) s
    = Inr (tenant_migrations_run lo repo slugs (migrate_tenant with_path (\<lambda>u. migrate u path) uri base) ctx s)"
  unfolding run_migrations.simps(2) tenant_migrations_run_def assms by simp

text \<open>
  The runner the container builds. The parameter of \<^verbatim>\<open>provideTenantMigrationRunner\<close> for the syncer is optional: in a container
  without a \<^verbatim>\<open>SlugsProvider\<close> (\<open>slugs\<close> is \<open>None\<close>) the syncer cannot be built, and the runner gets a nil one.
\<close>

definition module_runner where
  "module_runner parse_host enabled slugs rd c =
     (let repo = provide_tenant_repository enabled rd;
          syncer = (case slugs of None \<Rightarrow> None | Some provider \<Rightarrow> provide_tenant_syncer enabled provider repo)
      in decorate_migration_runner enabled (new_single_migration_runner (build_uri parse_host c) c)
           (provide_tenant_migration_runner enabled syncer repo (build_base_uri parse_host c) c))"

text \<open>The URIs of a tenant's database: of the fields, of a connection string, of the fields despite a connection string.\<close>

definition host_port :: "mongo_config \<Rightarrow> string" where
  "host_port c = mc_host c @ '':'' @ int_text (mc_port c)"

definition accepts_host :: "host_parser \<Rightarrow> string \<Rightarrow> string \<Rightarrow> bool" where
  "accepts_host parse_host sch host \<longleftrightarrow> parse_host sch (url_escape Encode_host host) = Inr host"

definition server_string :: "host_parser \<Rightarrow> string \<Rightarrow> url \<Rightarrow> bool" where
  "server_string parse_host s u \<longleftrightarrow> s \<noteq> [] \<and> url_parse parse_host s = Inr u \<and> CHR ''#'' \<notin> set s \<and> url_scheme u \<noteq> []
     \<and> url_host u \<noteq> [] \<and> accepts_host parse_host (url_scheme u) (url_host u)"

lemma base_uri_unparsable:
  assumes "url_parse parse_host (mc_connection_string c) = Inl err"
  shows "build_base_uri parse_host c = build_base_uri parse_host (c\<lparr>mc_connection_string := []\<rparr>)"
  using assms by (simp add: build_base_uri_def build_base_uri_fields_def uri_fields_def query_values_def)

definition names_database :: "host_parser \<Rightarrow> mongo_config \<Rightarrow> string \<Rightarrow> string \<Rightarrow> bool" where
  "names_database parse_host c db t \<longleftrightarrow>
     (mc_connection_string c = [] \<and> accepts_host parse_host ''mongodb'' (host_port c) \<longrightarrow>
        t = build_uri parse_host (c\<lparr>mc_database := db\<rparr>))
   \<and> (\<forall>u. server_string parse_host (mc_connection_string c) u \<longrightarrow> url_parse parse_host t = Inr (database_url u (''/'' @ db)))
   \<and> (\<forall>err. url_parse parse_host (mc_connection_string c) = Inl err \<and> accepts_host parse_host ''mongodb'' (host_port c) \<longrightarrow>
        t = build_uri parse_host (c\<lparr>mc_connection_string := [], mc_database := db\<rparr>))"

lemma tenant_uri:
  assumes "url_with_path parse_host (build_base_uri parse_host c) (''/'' @ db) = Inr t"
  shows "names_database parse_host c db t"
proof -
  have fields: "t = build_uri parse_host (d\<lparr>mc_database := db\<rparr>)"
    if "mc_connection_string d = []" "accepts_host parse_host ''mongodb'' (host_port d)"
      and "build_base_uri parse_host c = build_base_uri parse_host d" for d
    using fields_database(2) [OF that(1), of parse_host db] that(2,3) assms by (simp add: accepts_host_def host_port_def)
  have "url_parse parse_host t = Inr (database_url u (''/'' @ db))" if "server_string parse_host (mc_connection_string c) u" for u
    using connection_string_database [OF refl, of c parse_host u db, THEN conjunct2, THEN conjunct2] assms that
    by (auto simp: server_string_def accepts_host_def)
  moreover have "t = build_uri parse_host (c\<lparr>mc_connection_string := [], mc_database := db\<rparr>)"
    if "url_parse parse_host (mc_connection_string c) = Inl err" "accepts_host parse_host ''mongodb'' (host_port c)" for err
    using fields [of "c\<lparr>mc_connection_string := []\<rparr>"] base_uri_unparsable [OF that(1)] that(2) by (simp add: host_port_def)
  ultimately show ?thesis using fields [of c] by (auto simp: names_database_def)
qed

lemma module_migrates_covered:
  assumes conf: "registry_conforms rd"
    and migrate: "\<forall>u p s s'. migrate u p s = (None, s') \<longrightarrow>
      registry rd s' = registry rd s \<and> insert u (migrated s) \<subseteq> migrated s'"
  shows "\<exists>e s'. run_migrations lo (url_with_path parse_host) migrate ctx (module_runner parse_host True (Some provider) rd c) s = Inr (e, s')
    \<and> (e = None \<longrightarrow> (\<forall>slug \<in> active_set (registry rd s'). \<exists>t \<in> migrated s'.
         names_database parse_host c (tenant_database (mc_database c) slug) t))"
proof -
  let ?base = "build_base_uri parse_host c"
  let ?one = "migrate_tenant (url_with_path parse_host) (\<lambda>u. migrate u (mc_migrations_path c)) ?base (mc_database c)"
  obtain e s' where run: "tenant_migrations_run lo (mongo_repository rd) provider ?one ctx s = (e, s')"
    by (cases "tenant_migrations_run lo (mongo_repository rd) provider ?one ctx s")
  have eq: "run_migrations lo (url_with_path parse_host) migrate ctx (module_runner parse_host True (Some provider) rd c) s = Inr (e, s')"
    unfolding module_runner_def Let_def provide_tenant_repository_def provide_tenant_syncer_def
      provide_tenant_migration_runner_def decorate_migration_runner_def new_tenant_migration_runner_def
    by (simp add: run_tenants_runner run del: run_migrations.simps(2))
  have "\<forall>slug \<in> active_set (registry rd s'). \<exists>u.
      url_with_path parse_host ?base (''/'' @ tenant_database (mc_database c) slug) = Inr u \<and> u \<in> migrated s'" if "e = None"
    by (rule migrations_cover_active [OF conf _ run [unfolded that]]) (use migrate in blast)
  then have "e = None \<longrightarrow> (\<forall>slug \<in> active_set (registry rd s'). \<exists>t \<in> migrated s'.
      names_database parse_host c (tenant_database (mc_database c) slug) t)" by (meson tenant_uri)
  with eq show ?thesis by blast
qed

text \<open>
  C28. The module's migration runner panics with multi-tenancy on in a service that provides no source of slugs, which the wiring
  allows, and otherwise it returns. With multi-tenancy a run that returns nil has migrated, for every tenant active at the end, the URI of
  the tenant's database (\<open>names_database\<close>): the URI of the configuration's fields with that database; with a connection string
  that parses, the same URL with the database as its path; but with a connection string that does not parse, the URI of the fields,
  whatever server the string names. Without multi-tenancy it migrates exactly the configured database.
\<close>

theorem module_migrates_all_active:
  assumes conf: "registry_conforms rd"
    and migrate: "\<forall>u p s s'. migrate u p s = (None, s') \<longrightarrow>
      registry rd s' = registry rd s \<and> insert u (migrated s) \<subseteq> migrated s'"
  shows "(enabled \<and> slugs = None \<longrightarrow>
      run_migrations lo (url_with_path parse_host) migrate ctx (module_runner parse_host enabled slugs rd c) s = Inl nil_call)
    \<and> (\<not> enabled \<or> slugs \<noteq> None \<longrightarrow> (\<exists>e s'.
      run_migrations lo (url_with_path parse_host) migrate ctx (module_runner parse_host enabled slugs rd c) s = Inr (e, s')
      \<and> (enabled \<and> e = None \<longrightarrow> (\<forall>slug \<in> active_set (registry rd s'). \<exists>t \<in> migrated s'.
           names_database parse_host c (tenant_database (mc_database c) slug) t))
      \<and> (\<not> enabled \<longrightarrow> (e, s') = migrate (build_uri parse_host c) (mc_migrations_path c) s)))"
proof -
  consider "\<not> enabled" | "enabled" "slugs = None" | provider where "enabled" "slugs = Some provider" by auto
  then show ?thesis
  proof cases
    case 1
    then show ?thesis
      by (cases "migrate (build_uri parse_host c) (mc_migrations_path c) s")
        (simp add: module_runner_def decorate_migration_runner_def new_single_migration_runner_def)
  next
    case 2
    then show ?thesis
      by (simp add: module_runner_def decorate_migration_runner_def provide_tenant_migration_runner_def new_tenant_migration_runner_def)
  next
    case 3
    with module_migrates_covered [OF conf migrate, where lo = lo and parse_host = parse_host and ctx = ctx and provider = provider
        and c = c and s = s] show ?thesis by auto
  qed
qed

text \<open>Three configurations: a configuration with fields, a provider and a migration that records.\<close>

definition tenants_mongo :: mongo_config where
  "tenants_mongo = mongo_zero\<lparr>mc_host := ''db'', mc_port := 27017, mc_database := ''shop'', mc_replica_set := ''rs0''\<rparr>"

definition record_migration :: "string \<Rightarrow> string \<Rightarrow> mem_registry \<Rightarrow> go_error option \<times> mem_registry" where
  "record_migration u p s = demo_migrate u s"

lemma tenants_host: "mc_host tenants_mongo @ '':'' @ int_text (mc_port tenants_mongo) = ''db:27017''"
    "any_host ''mongodb'' (url_escape Encode_host ''db:27017'') = Inr ''db:27017''"
proof -
  show "mc_host tenants_mongo @ '':'' @ int_text (mc_port tenants_mongo) = ''db:27017''"
    by (simp add: tenants_mongo_def mongo_zero_def int_text_def nat_digits.simps port_digits)
qed code_simp

lemma tenants_with_path:
  "url_with_path any_host (build_base_uri any_host tenants_mongo) (''/'' @ db) = Inr (build_uri any_host (tenants_mongo\<lparr>mc_database := db\<rparr>))"
proof (rule fields_database(2))
  show "any_host ''mongodb'' (url_escape Encode_host (mc_host tenants_mongo @ '':'' @ int_text (mc_port tenants_mongo)))
      = Inr (mc_host tenants_mongo @ '':'' @ int_text (mc_port tenants_mongo))" by (simp only: tenants_host)
qed (simp add: tenants_mongo_def mongo_zero_def)

lemma module_migrates_all_active_witness:
  "run_migrations std_lo (url_with_path any_host) record_migration ctx_background
      (module_runner any_host True None mem_rd tenants_mongo) two_tenants = Inl nil_call
   \<and> (\<exists>s'. run_migrations std_lo (url_with_path any_host) record_migration ctx_background
      (module_runner any_host True (Some (demo_provider [''a'', ''c''])) mem_rd tenants_mongo) two_tenants = Inr (None, s')
    \<and> ''c'' \<in> active_set (registry mem_rd s')
    \<and> build_uri any_host (tenants_mongo\<lparr>mc_database := ''shop_c''\<rparr>) \<in> set (mr_migrated s'))"
proof -
  let ?run = "\<lambda>slugs. run_migrations std_lo (url_with_path any_host) record_migration ctx_background
      (module_runner any_host True slugs mem_rd tenants_mongo) two_tenants"
  let ?slugs = "Some (demo_provider [''a'', ''c''])"
  obtain s' where run: "?run ?slugs = Inr (None, s')" and act: "''c'' \<in> active_set (registry mem_rd s')"
    by (simp add: module_runner_def provide_tenant_repository_def provide_tenant_syncer_def
        provide_tenant_migration_runner_def decorate_migration_runner_def new_tenant_migration_runner_def
        tenant_sync_def slugs_from_registry_def sync_registry_def migrate_tenant_def tenants_with_path [simplified] record_migration_def
        demo_migrate_def demo_provider_def mem_rd_eval Let_def active_set_def)
  have migrate: "\<forall>u p s s'. record_migration u p s = (None, s') \<longrightarrow>
      registry mem_rd s' = registry mem_rd s \<and> insert u (set (mr_migrated s)) \<subseteq> set (mr_migrated s')"
    by (auto simp: record_migration_def demo_migrate_def mem_rd_def)
  note runs = module_migrates_all_active [where migrated = "\<lambda>s. set (mr_migrated s)" and rd = mem_rd
      and migrate = record_migration and c = tenants_mongo and parse_host = any_host, OF mem_rd_conforms migrate,
      where lo = std_lo and ctx = ctx_background and enabled = True and s = two_tenants]
  from runs [of ?slugs] run act
  obtain t where t: "names_database any_host tenants_mongo (tenant_database (mc_database tenants_mongo) ''c'') t" "t \<in> set (mr_migrated s')"
    by auto
  have "accepts_host any_host ''mongodb'' (host_port tenants_mongo)" by (simp only: accepts_host_def host_port_def tenants_host)
  moreover have "mc_connection_string tenants_mongo = []" and "mc_database tenants_mongo = ''shop''"
    by (simp_all add: tenants_mongo_def mongo_zero_def)
  ultimately have "t = build_uri any_host (tenants_mongo\<lparr>mc_database := tenant_database ''shop'' ''c''\<rparr>)"
    using t(1) by (simp add: names_database_def)
  with t(2) have "build_uri any_host (tenants_mongo\<lparr>mc_database := ''shop_c''\<rparr>) \<in> set (mr_migrated s')"
    by (simp add: tenant_database_def)
  with run act runs [of None] show ?thesis by auto
qed

text \<open>The sweeps of the loop, and when it returns.\<close>

definition sweep_ok :: "'s registry_driver \<Rightarrow> 's cleaner list \<Rightarrow> 's \<times> cleanup_event list \<times> 's \<Rightarrow> bool" where
  "sweep_ok rd cleaners sweep \<longleftrightarrow>
     (let (t, evs, t') = sweep; due = (\<lambda>slug. \<exists>r. registry rd t slug = Some r \<and> expired (rd_clock rd t) r)
      in (\<forall>n slug e. Cleaner_called n slug e \<in> set evs \<longrightarrow> due slug)
       \<and> (\<forall>slug e. Record_removed slug e \<in> set evs \<longrightarrow>
            due slug \<and> (\<forall>n < length cleaners. Cleaner_called n slug None \<in> set evs))
       \<and> (\<forall>slug. \<not> due slug \<longrightarrow> registry rd t' slug = registry rd t slug))"

lemma cleanup_step_cases:
  assumes "cleanup_step repo cleaners pick ctx tick s = Some (go, evs, s')"
  shows "\<not> go \<and> ctx_done ctx \<or> go \<and> tick \<and> process_expired_tenants repo cleaners ctx s = (evs, s')"
  using go_select_ready [OF assms [unfolded cleanup_step_def]] by (auto split: prod.splits)

lemma cleanup_loop_ok:
  assumes conf: "registry_conforms rd"
    and cleaners: "\<forall>cl \<in> set cleaners. \<forall>ctx slug s. registry rd (snd (cl ctx slug s)) = registry rd s"
  shows "cleanup_loop (mongo_repository rd) cleaners rounds s = (returned, sweeps) \<Longrightarrow>
    (\<forall>sweep \<in> set sweeps. sweep_ok rd cleaners sweep)
    \<and> (returned \<longrightarrow> (\<exists>(others, pick, ctx, tick) \<in> set rounds. ctx_done ctx))
    \<and> ((\<exists>(others, pick, ctx, tick) \<in> set rounds. ctx_done ctx \<and> \<not> tick) \<longrightarrow> returned)"
proof (induction rounds arbitrary: s returned sweeps)
  case (Cons round rounds)
  obtain others pick ctx tick where round: "round = (others, pick, ctx, tick)" by (cases round)
  let ?step = "cleanup_step (mongo_repository rd) cleaners pick ctx tick (others s)"
  have stops: "?step = Some (False, [], others s)" if "ctx_done ctx" "\<not> tick"
    using that by (simp add: cleanup_step_def go_select_only)
  show ?case
  proof (cases ?step)
    case None
    with Cons.prems round have "cleanup_loop (mongo_repository rd) cleaners rounds (others s) = (returned, sweeps)" by simp
    from Cons.IH [OF this] stops None show ?thesis by (auto simp: round)
  next
    case (Some r)
    obtain go evs s' where r: "r = (go, evs, s')" by (cases r)
    note step = Some [unfolded r]
    show ?thesis
    proof (cases go)
      case False
      with cleanup_step_cases [OF step] Cons.prems round step show ?thesis by auto
    next
      case True
      obtain sweeps' where rest: "cleanup_loop (mongo_repository rd) cleaners rounds s' = (returned, sweeps')"
        and sweeps: "sweeps = (others s, evs, s') # sweeps'"
        using Cons.prems round step True by (auto split: prod.splits)
      from cleanup_step_cases [OF step] True
      have "process_expired_tenants (mongo_repository rd) cleaners ctx (others s) = (evs, s')" by blast
      from cleanup_only_expired [OF conf _ this] cleaners have "sweep_ok rd cleaners (others s, evs, s')"
        by (simp add: sweep_ok_def)
      with Cons.IH [OF rest] stops step True show ?thesis by (auto simp: round sweeps)
    qed
  qed
qed simp

text \<open>
  C29. Every sweep of the cleanup worker, whatever others do to the registry between sweeps, calls cleaners and
  removes records only of tenants that were pending and expired when it began, removes a record only after
  every cleaner returned nil for it, and leaves all other tenants alone. The worker returns only when its
  context is done, and then it does at the next wait without a tick; without multi-tenancy it returns at once.
\<close>

theorem cleanup_worker_only_expired:
  assumes conf: "registry_conforms rd"
    and cleaners: "\<forall>cl \<in> set cleaners. \<forall>ctx slug s. registry rd (snd (cl ctx slug s)) = registry rd s"
  shows "\<exists>returned sweeps.
      run_cleanup_worker (provide_cleanup_worker enabled (provide_tenant_repository enabled rd) cleaners) rounds s
        = Inr (returned, sweeps)
    \<and> (\<not> enabled \<longrightarrow> returned \<and> sweeps = [])
    \<and> (\<forall>(t, evs, t') \<in> set sweeps.
         (\<forall>n slug e. Cleaner_called n slug e \<in> set evs \<longrightarrow>
            (\<exists>r. registry rd t slug = Some r \<and> expired (rd_clock rd t) r))
       \<and> (\<forall>slug e. Record_removed slug e \<in> set evs \<longrightarrow>
            (\<exists>r. registry rd t slug = Some r \<and> expired (rd_clock rd t) r)
            \<and> (\<forall>n < length cleaners. Cleaner_called n slug None \<in> set evs))
       \<and> (\<forall>slug. (\<nexists>r. registry rd t slug = Some r \<and> expired (rd_clock rd t) r) \<longrightarrow>
            registry rd t' slug = registry rd t slug))
    \<and> (enabled \<and> returned \<longrightarrow> (\<exists>(others, pick, ctx, tick) \<in> set rounds. ctx_done ctx))
    \<and> ((\<exists>(others, pick, ctx, tick) \<in> set rounds. ctx_done ctx \<and> \<not> tick) \<longrightarrow> returned)"
proof (cases enabled)
  case False
  then show ?thesis by (intro exI [of _ True] exI [of _ "[]"]) (simp add: provide_cleanup_worker_def)
next
  case True
  obtain returned sweeps where loop: "cleanup_loop (mongo_repository rd) cleaners rounds s = (returned, sweeps)"
    by (cases "cleanup_loop (mongo_repository rd) cleaners rounds s")
  with cleanup_loop_ok [OF conf cleaners loop] True show ?thesis
    by (intro exI [of _ returned] exI [of _ sweeps])
      (auto simp: provide_cleanup_worker_def provide_tenant_repository_def sweep_ok_def Let_def)
qed

text \<open>One sweep, then a shutdown: tenant \<open>b\<close>, pending since time 5, is removed at time 10.\<close>

definition demo_rounds :: "mem_registry round list" where
  "demo_rounds = [(id, 0, ctx_background, True), (id, 0, ctx_background\<lparr>ctx_err := Some (Sentinel ContextCanceled)\<rparr>, False)]"

lemma cleanup_worker_only_expired_witness:
  "\<exists>evs t'. run_cleanup_worker (provide_cleanup_worker True (provide_tenant_repository True mem_rd) [demo_cleaner])
      demo_rounds two_tenants = Inr (True, [(two_tenants, evs, t')])
    \<and> Record_removed ''b'' None \<in> set evs \<and> registry mem_rd t' ''a'' = registry mem_rd two_tenants ''a''"
proof -
  let ?run = "run_cleanup_worker (provide_cleanup_worker True (provide_tenant_repository True mem_rd) [demo_cleaner])
      demo_rounds two_tenants"
  obtain evs t' where sweep: "process_expired_tenants (mongo_repository mem_rd) [demo_cleaner] ctx_background two_tenants = (evs, t')"
    and removed: "Record_removed ''b'' None \<in> set evs"
    by (simp add: process_expired_tenants_def cleanup_tenant_def demo_cleaner_def mongo_cleaner_def mem_rd_eval Let_def)
  have run: "?run = Inr (True, [(two_tenants, evs, t')])"
    by (simp add: provide_cleanup_worker_def provide_tenant_repository_def demo_rounds_def cleanup_step_def go_select_def
        ctx_background_def sweep [unfolded ctx_background_def])
  have keeps: "\<forall>cl \<in> set [demo_cleaner]. \<forall>ctx slug s. registry mem_rd (snd (cl ctx slug s)) = registry mem_rd s"
    by (simp add: demo_cleaner_keeps)
  have "\<nexists>t. registry mem_rd two_tenants ''a'' = Some t \<and> expired (rd_clock mem_rd two_tenants) t"
    by (simp add: mem_rd_eval expired_def)
  with cleanup_worker_only_expired [OF mem_rd_conforms keeps, where enabled = True and rounds = demo_rounds and s = two_tenants]
  have "registry mem_rd t' ''a'' = registry mem_rd two_tenants ''a''" unfolding run by auto
  with run removed show ?thesis by blast
qed

end
