(* ===== verification/Service_Startup.thy ===== *)
theory Service_Startup
  imports Startup Core_Config Server_Config Service_Configs
begin

section \<open>Starting a service: configuration, HTTP server and observability\<close>

text \<open>
  \<^verbatim>\<open>core/config/koanf.go\<close> and \<^verbatim>\<open>core/config/fxconfig\<close> up to the library calls, \<^verbatim>\<open>http/server/fxconfig\<close>,
  \<^verbatim>\<open>observability/fxconfig\<close> and the stop hook of \<^verbatim>\<open>mongo/fxconfig\<close>. The libraries' answers are parameters:
  the errors they return, the loaded files and the exporters.
\<close>

subsection \<open>Configuration sources\<close>

text \<open>\<open>loaded\<close> is what \<^verbatim>\<open>godotenv.Load\<close> returns; the result is whether the file was loaded.\<close>

definition load_dot_env :: "go_error option \<Rightarrow> (go_error, bool) result" where
  "load_dot_env loaded =
     (case loaded of
        None \<Rightarrow> Inr True
      | Some err \<Rightarrow> if errors_is err OsErrNotExist then Inr False
                   else Inl (Wrapf ''failed to load .env file: '' err []))"

definition resolve_config_path :: "(string \<Rightarrow> string) \<Rightarrow> (go_error, string) result" where
  "resolve_config_path getenv =
     (let path = getenv ''CONFIG_FILE''
      in if path = [] then Inl (New_error ''CONFIG_FILE environment variable is not set'') else Inr path)"

text \<open>
  The library koanf over an instance \<open>'k\<close>: an empty one, \<^verbatim>\<open>Load\<close> of a YAML file and \<^verbatim>\<open>Load\<close> of the
  environment with a translation of its names.
\<close>

record 'k koanf_lib =
  koanf_new :: 'k
  koanf_load_file :: "string \<Rightarrow> 'k \<Rightarrow> go_error option \<times> 'k"
  koanf_load_env :: "(string \<Rightarrow> string \<Rightarrow> string \<times> string) \<Rightarrow> 'k \<Rightarrow> go_error option \<times> 'k"

definition new_koanf :: "'k koanf_lib \<Rightarrow> string \<Rightarrow> (go_error, 'k) result" where
  "new_koanf lib configFile =
     (let k = koanf_new lib;
          (ferr, k) = (if configFile \<noteq> [] then koanf_load_file lib configFile k else (None, k))
      in case ferr of
           Some err \<Rightarrow> Inl (Wrapf (''failed to read config file ['' @ configFile @ '']: '') err [])
         | None \<Rightarrow>
             (case koanf_load_env lib transform_env_key k of
                (Some err, k) \<Rightarrow> Inl (Wrapf ''failed to load environment variables: '' err [])
              | (None, k) \<Rightarrow> Inr k))"

subsection \<open>The HTTP server\<close>

text \<open>
  The start hook listens, marks the component ready and serves in a goroutine; \<open>http_check\<close> is the error of
  \<^verbatim>\<open>net.Listen\<close> and \<open>serve_ended\<close> whether the end of \<^verbatim>\<open>Serve\<close> shuts the application down. The stop hook has a
  server only when the start hook ran.
\<close>

definition http_component :: string where "http_component = ''http-server''"

definition http_check :: "go_error option \<Rightarrow> go_error option" where
  "http_check listened = (case listened of Some err \<Rightarrow> Some err | None \<Rightarrow> None)"

definition serve_ended :: "go_error option \<Rightarrow> bool" where
  "serve_ended err = (err \<noteq> None \<and> err \<noteq> Some (Sentinel HttpErrServerClosed))"

definition http_stop :: "bool \<Rightarrow> go_error option \<Rightarrow> go_error option" where
  "http_stop started shutdown = (if started then shutdown else None)"

subsection \<open>Metrics\<close>

text \<open>A view drops an instrument or keeps only some attributes of it; other modules may contribute views.\<close>

datatype metric_view = Drop_instrument string | Keep_attributes string "string list"

definition metric_views :: "metric_view list" where
  "metric_views = [Drop_instrument ''go.schedule.duration'', Drop_instrument ''go.memory.limit'']"

definition mongo_metric_views :: "metric_view list" where
  "mongo_metric_views =
     [Keep_attributes ''db.client.operation.duration'' [''db.operation.name'', ''db.collection.name'']]"

record meter_provider =
  mp_endpoint :: string
  mp_interval :: duration
  mp_views :: "metric_view list"

text \<open>\<open>None\<close> is the nil SDK provider next to the no-op one. \<open>resource\<close> and \<open>exporter\<close> are the libraries' errors.\<close>

definition provide_meter_provider ::
  "observability_config \<Rightarrow> metric_view list \<Rightarrow> go_error option \<Rightarrow> go_error option \<Rightarrow> (go_error, meter_provider option) result" where
  "provide_meter_provider cfg extra resource exporter =
     (if \<not> ob_metrics_enabled cfg then Inr None
      else if ob_endpoint cfg = [] then Inl (New_error ''metrics: otel-collector-endpoint is required'')
      else case resource of
        Some err \<Rightarrow> Inl err
      | None \<Rightarrow>
          (case exporter of
             Some err \<Rightarrow> Inl err
           | None \<Rightarrow> Inr (Some \<lparr>mp_endpoint = ob_endpoint cfg, mp_interval = ob_metrics_interval cfg,
               mp_views = metric_views @ extra\<rparr>)))"

text \<open>
  \<^verbatim>\<open>activateMetrics\<close>: the component it registers, its start hook (the global provider it sets) and its stop hook.
\<close>

definition metrics_component :: string where "metrics_component = ''metrics''"

definition metrics_start :: "meter_provider option \<Rightarrow> meter_provider option \<Rightarrow> meter_provider option" where
  "metrics_start provider global = (case provider of None \<Rightarrow> global | Some p \<Rightarrow> Some p)"

definition metrics_stop :: "meter_provider option \<Rightarrow> (meter_provider \<Rightarrow> go_error option) \<Rightarrow> go_error option may_panic" where
  "metrics_stop provider shutdown =
     (if provider = None then Inr None else and_then (deref provider) (\<lambda>p. Inr (shutdown p)))"

subsection \<open>Tracing\<close>

text \<open>\<^verbatim>\<open>newResource\<close>: what every provider's data is labelled with; \<open>create\<close> is \<^verbatim>\<open>resource.New\<close> with the attributes of the environment.\<close>

definition new_resource :: "((string, string) go_map \<Rightarrow> (go_error, 'r) result) \<Rightarrow> app_config \<Rightarrow> (go_error, 'r) result" where
  "new_resource create appCfg = create
     [(''service.name'', service_name appCfg), (''service.version'', service_version appCfg),
      (''deployment.environment.name'', environment appCfg)]"

record tracer_provider =
  tp_sample_ratio :: float64
  tp_export_to :: "string option"

definition provide_tracer_provider ::
  "observability_config \<Rightarrow> go_error option \<Rightarrow> go_error option \<Rightarrow> (go_error, tracer_provider option) result" where
  "provide_tracer_provider cfg resource exporter =
     (if \<not> ob_tracing_enabled cfg then Inr None
      else case resource of
        Some err \<Rightarrow> Inl err
      | None \<Rightarrow>
          if ob_endpoint cfg = []
          then Inr (Some \<lparr>tp_sample_ratio = ob_sample_ratio cfg, tp_export_to = None\<rparr>)
          else (case exporter of
             Some err \<Rightarrow> Inl err
           | None \<Rightarrow> Inr (Some \<lparr>tp_sample_ratio = ob_sample_ratio cfg, tp_export_to = Some (ob_endpoint cfg)\<rparr>)))"

text \<open>
  \<^verbatim>\<open>activateTracing\<close>: the component it registers, if any, and the stop hook it then appends, whose call on the
  provider panics when that is nil.
\<close>

definition tracing_component :: "observability_config \<Rightarrow> string option" where
  "tracing_component cfg = (if \<not> ob_tracing_enabled cfg then None else Some ''tracing'')"

text \<open>Its start hook: the global provider and the propagators of all headers.\<close>

datatype propagator = Propagate_trace_context | Propagate_baggage

record otel_globals =
  og_tracer :: "tracer_provider option"
  og_propagators :: "propagator list"

definition tracing_start :: "observability_config \<Rightarrow> tracer_provider option \<Rightarrow> otel_globals \<Rightarrow> otel_globals" where
  "tracing_start cfg provider globals =
     (if \<not> ob_tracing_enabled cfg then globals
      else globals\<lparr>og_tracer := provider, og_propagators := [Propagate_trace_context, Propagate_baggage]\<rparr>)"

definition tracing_stop ::
  "observability_config \<Rightarrow> tracer_provider option \<Rightarrow> (tracer_provider \<Rightarrow> go_error option) \<Rightarrow> go_error option may_panic" where
  "tracing_stop cfg provider shutdown =
     (if \<not> ob_tracing_enabled cfg then Inr None else and_then (deref provider) (\<lambda>p. Inr (shutdown p)))"

subsection \<open>Profiling\<close>

datatype profile_type =
    Profile_cpu | Profile_inuse_objects | Profile_inuse_space | Profile_alloc_objects | Profile_alloc_space
  | Profile_goroutines | Profile_mutex_count | Profile_mutex_duration | Profile_block_count | Profile_block_duration

definition build_profile_types :: "profiling_config \<Rightarrow> profile_type list may_panic" where
  "build_profile_types cfg =
     and_then (deref (prof_cpu cfg)) (\<lambda>cpu.
     let types = (if cpu then [Profile_cpu] else []) in
     and_then (deref (prof_heap cfg)) (\<lambda>heap.
     let types = types @ (if heap then [Profile_inuse_objects, Profile_inuse_space, Profile_alloc_objects,
           Profile_alloc_space] else []) in
     and_then (deref (prof_goroutines cfg)) (\<lambda>goroutines.
     let types = types @ (if goroutines then [Profile_goroutines] else []) in
     and_then (deref (prof_mutex cfg)) (\<lambda>mutex.
     let types = types @ (if mutex then [Profile_mutex_count, Profile_mutex_duration] else []) in
     and_then (deref (prof_block cfg)) (\<lambda>block.
     Inr (types @ (if block then [Profile_block_count, Profile_block_duration] else [])))))))"

text \<open>The rates set in the runtime and the configuration the profiler is started with.\<close>

record profiler_start =
  ps_mutex_fraction :: "int option"
  ps_block_rate :: "int option"
  ps_application :: string
  ps_server :: string
  ps_tags :: "(string, string) go_map"
  ps_types :: "profile_type list"

definition start_profiler :: "observability_config \<Rightarrow> app_config \<Rightarrow> profiler_start option may_panic" where
  "start_profiler cfg app =
     (let prof = ob_profiling cfg
      in if \<not> prof_enabled prof then Inr None
         else
           and_then (build_profile_types prof) (\<lambda>types.
           and_then (deref (prof_mutex prof)) (\<lambda>mutex.
           and_then (deref (prof_block prof)) (\<lambda>block.
             Inr (Some \<lparr>ps_mutex_fraction = (if mutex then Some (prof_mutex_fraction prof) else None),
               ps_block_rate = (if block then Some (prof_block_rate prof) else None),
               ps_application = service_name app, ps_server = prof_endpoint prof,
               ps_tags = [(''version'', service_version app), (''environment'', environment app)],
               ps_types = types\<rparr>)))))"

text \<open>Its start hook: an error of the profiler does not stop the application; a started one is stopped at the end.\<close>

definition profiler_check :: "go_error option \<Rightarrow> go_error option \<times> bool" where
  "profiler_check started = (case started of Some err \<Rightarrow> (None, False) | None \<Rightarrow> (None, True))"

subsection \<open>The MongoDB client's stop hook\<close>

definition mongo_stop :: "go_error option \<Rightarrow> go_error option" where
  "mongo_stop disconnect = map_option (\<lambda>err. Wrapf ''failed to disconnect from mongo: '' err []) disconnect"

subsection \<open>Properties\<close>

text \<open>What the defaults leave of the profiling section: no nil pointer, and rates where they are used.\<close>

lemma profiling_complete:
  assumes "profiling_defaults p = p"
  obtains cpu heap goroutines mutex block where "prof_cpu p = Some cpu" and "prof_heap p = Some heap"
    and "prof_goroutines p = Some goroutines" and "prof_mutex p = Some mutex" and "prof_block p = Some block"
    and "mutex \<Longrightarrow> prof_mutex_fraction p \<noteq> 0" and "block \<Longrightarrow> prof_block_rate p \<noteq> 0"
proof -
  have fields: "prof_cpu (profiling_defaults p) = if_nil True (prof_cpu p)"
    "prof_heap (profiling_defaults p) = if_nil True (prof_heap p)"
    "prof_goroutines (profiling_defaults p) = if_nil True (prof_goroutines p)"
    "prof_mutex (profiling_defaults p) = if_nil False (prof_mutex p)"
    "prof_block (profiling_defaults p) = if_nil False (prof_block p)"
    "prof_mutex (profiling_defaults p) = Some True \<Longrightarrow> prof_mutex_fraction (profiling_defaults p) \<noteq> 0"
    "prof_block (profiling_defaults p) = Some True \<Longrightarrow> prof_block_rate (profiling_defaults p) \<noteq> 0"
    by (cases "if_nil False (prof_mutex p) = Some True"; cases "if_nil False (prof_block p) = Some True";
        simp add: profiling_defaults_def Let_def)+
  note f = fields [unfolded assms]
  have "prof_cpu p \<noteq> None" "prof_heap p \<noteq> None" "prof_goroutines p \<noteq> None" "prof_mutex p \<noteq> None" "prof_block p \<noteq> None"
    using f(1-5) by (metis if_nil_simps(2))+
  then show ?thesis using f(6,7) that by auto
qed

lemma profiler_complete:
  assumes "profiling_defaults (ob_profiling c) = ob_profiling c" and "prof_enabled (ob_profiling c)"
  shows "\<exists>p. start_profiler c app = Inr (Some p)
    \<and> (Profile_cpu \<in> set (ps_types p) \<longleftrightarrow> prof_cpu (ob_profiling c) = Some True)
    \<and> (Profile_alloc_space \<in> set (ps_types p) \<longleftrightarrow> prof_heap (ob_profiling c) = Some True)
    \<and> (Profile_goroutines \<in> set (ps_types p) \<longleftrightarrow> prof_goroutines (ob_profiling c) = Some True)
    \<and> (Profile_mutex_count \<in> set (ps_types p) \<longleftrightarrow> prof_mutex (ob_profiling c) = Some True)
    \<and> (ps_mutex_fraction p \<noteq> None \<longleftrightarrow> prof_mutex (ob_profiling c) = Some True)
    \<and> (Profile_block_count \<in> set (ps_types p) \<longleftrightarrow> prof_block (ob_profiling c) = Some True)
    \<and> (ps_block_rate p \<noteq> None \<longleftrightarrow> prof_block (ob_profiling c) = Some True)
    \<and> ps_mutex_fraction p \<noteq> Some 0 \<and> ps_block_rate p \<noteq> Some 0"
  by (rule profiling_complete [OF assms(1)])
    (use assms(2) in \<open>simp add: start_profiler_def build_profile_types_def Let_def del: and_then_Inr\<close>)

text \<open>
  C35. With a configuration that loads, observability never dereferences a nil pointer: starting the profiler
  does not panic and asks for exactly the profiles that are switched on (unset ones have their defaults),
  with a rate, other than zero, for mutexes and blocking exactly when they are profiled; and when the
  providers are built, stopping metrics and tracing does not panic, tracing has a provider exactly if it is
  enabled, and metrics only with an endpoint to send to and a non-zero interval.
\<close>

theorem observability_never_dereferences_nil:
  assumes load: "load_config observability_apply_defaults (validating observability_validate) z k key ov = Inr c"
    and meter: "provide_meter_provider c extra resource exporter = Inr mp"
    and tracer: "provide_tracer_provider c resource' exporter' = Inr tp"
  shows "(\<exists>start. start_profiler c app = Inr start \<and> (start = None \<longleftrightarrow> \<not> prof_enabled (ob_profiling c))
      \<and> (\<forall>p. start = Some p \<longrightarrow>
           (Profile_cpu \<in> set (ps_types p) \<longleftrightarrow> prof_cpu (ob_profiling c) = Some True)
         \<and> (Profile_alloc_space \<in> set (ps_types p) \<longleftrightarrow> prof_heap (ob_profiling c) = Some True)
         \<and> (Profile_goroutines \<in> set (ps_types p) \<longleftrightarrow> prof_goroutines (ob_profiling c) = Some True)
         \<and> (Profile_mutex_count \<in> set (ps_types p) \<longleftrightarrow> prof_mutex (ob_profiling c) = Some True)
    \<and> (ps_mutex_fraction p \<noteq> None \<longleftrightarrow> prof_mutex (ob_profiling c) = Some True)
         \<and> (Profile_block_count \<in> set (ps_types p) \<longleftrightarrow> prof_block (ob_profiling c) = Some True)
    \<and> (ps_block_rate p \<noteq> None \<longleftrightarrow> prof_block (ob_profiling c) = Some True)
         \<and> ps_mutex_fraction p \<noteq> Some 0 \<and> ps_block_rate p \<noteq> Some 0))
    \<and> (\<exists>e. metrics_stop mp shutdown = Inr e) \<and> (\<exists>e. tracing_stop c tp shutdown' = Inr e)
    \<and> (tp \<noteq> None \<longleftrightarrow> ob_tracing_enabled c)
    \<and> (\<forall>p. mp = Some p \<longrightarrow> ob_metrics_enabled c \<and> mp_endpoint p \<noteq> [] \<and> mp_interval p \<noteq> 0)"
proof -
  have complete: "observability_apply_defaults c = c" by (rule observability_cfg.loaded_complete(1) [OF load])
  have "ob_profiling (observability_apply_defaults c) = profiling_defaults (ob_profiling c)" if "prof_enabled (ob_profiling c)"
    using that by (simp add: observability_apply_defaults_def)
  then have prof: "profiling_defaults (ob_profiling c) = ob_profiling c" if "prof_enabled (ob_profiling c)"
    using that complete by simp
  have interval: "ob_metrics_interval c \<noteq> 0"
    by (subst complete [symmetric]) (simp add: observability_apply_defaults_def)
  have tp: "tp \<noteq> None \<longleftrightarrow> ob_tracing_enabled c"
    using tracer by (auto simp: provide_tracer_provider_def split: if_splits option.splits)
  have "\<exists>e. tracing_stop c tp shutdown' = Inr e" using tp by (auto simp: tracing_stop_def)
  moreover have "\<exists>e. metrics_stop mp shutdown = Inr e" by (cases mp) (simp_all add: metrics_stop_def)
  moreover have "\<forall>p. mp = Some p \<longrightarrow> ob_metrics_enabled c \<and> mp_endpoint p \<noteq> [] \<and> mp_interval p \<noteq> 0"
    using meter interval by (auto simp: provide_meter_provider_def split: if_splits option.splits)
  moreover have "\<exists>start. start_profiler c app = Inr start \<and> (start = None \<longleftrightarrow> \<not> prof_enabled (ob_profiling c))
      \<and> (\<forall>p. start = Some p \<longrightarrow>
           (Profile_cpu \<in> set (ps_types p) \<longleftrightarrow> prof_cpu (ob_profiling c) = Some True)
         \<and> (Profile_alloc_space \<in> set (ps_types p) \<longleftrightarrow> prof_heap (ob_profiling c) = Some True)
         \<and> (Profile_goroutines \<in> set (ps_types p) \<longleftrightarrow> prof_goroutines (ob_profiling c) = Some True)
         \<and> (Profile_mutex_count \<in> set (ps_types p) \<longleftrightarrow> prof_mutex (ob_profiling c) = Some True)
    \<and> (ps_mutex_fraction p \<noteq> None \<longleftrightarrow> prof_mutex (ob_profiling c) = Some True)
         \<and> (Profile_block_count \<in> set (ps_types p) \<longleftrightarrow> prof_block (ob_profiling c) = Some True)
    \<and> (ps_block_rate p \<noteq> None \<longleftrightarrow> prof_block (ob_profiling c) = Some True)
         \<and> ps_mutex_fraction p \<noteq> Some 0 \<and> ps_block_rate p \<noteq> Some 0)"
  proof (cases "prof_enabled (ob_profiling c)")
    case False
    then show ?thesis by (simp add: start_profiler_def)
  next
    case True
    from profiler_complete [OF prof [OF True] True, of app] True show ?thesis by auto
  qed
  ultimately show ?thesis using tp by blast
qed

definition profiled :: observability_config where
  "profiled = demo_observability\<lparr>ob_endpoint := ''otel:4317'', ob_metrics_enabled := True,
     ob_profiling := (ob_profiling demo_observability)\<lparr>prof_enabled := True, prof_mutex := Some True\<rparr>\<rparr>"

lemma observability_never_dereferences_nil_witness:
  "\<exists>p. start_profiler (observability_apply_defaults profiled) app_config_zero = Inr (Some p)
    \<and> Profile_cpu \<in> set (ps_types p) \<and> Profile_mutex_count \<in> set (ps_types p)"
proof -
  let ?c = "observability_apply_defaults profiled"
  have load: "load_config observability_apply_defaults (validating observability_validate) profiled
      \<lparr>exists_key = \<lambda>_. False, unmarshal = \<lambda>_. Inr\<rparr> ''observability'' (Some profiled) = Inr ?c"
    by (rule load_valid) (simp add: observability_validate_def observability_apply_defaults_def profiled_def demo_observability_def)
  have meter: "provide_meter_provider ?c [] None None
      = Inr (Some \<lparr>mp_endpoint = ''otel:4317'', mp_interval = 10 * second, mp_views = metric_views\<rparr>)"
    by (simp add: provide_meter_provider_def observability_apply_defaults_def profiled_def demo_observability_def if_zero_def)
  have tracer: "provide_tracer_provider ?c None None
      = Inr (Some \<lparr>tp_sample_ratio = Dyadic 1 1, tp_export_to = Some ''otel:4317''\<rparr>)"
    by (simp add: provide_tracer_provider_def observability_apply_defaults_def profiled_def demo_observability_def)
  have on: "prof_enabled (ob_profiling ?c)" "prof_cpu (ob_profiling ?c) = Some True" "prof_mutex (ob_profiling ?c) = Some True"
    by (simp_all add: observability_apply_defaults_def profiled_def demo_observability_def profiling_defaults_def if_nil_def Let_def)
  from observability_never_dereferences_nil [OF load meter tracer, where app = app_config_zero, THEN conjunct1]
  obtain start where "start_profiler ?c app_config_zero = Inr start" "start \<noteq> None"
    "\<forall>p. start = Some p \<longrightarrow> Profile_cpu \<in> set (ps_types p) \<and> Profile_mutex_count \<in> set (ps_types p)"
    using on by auto
  then show ?thesis by auto
qed

end
