(* ===== verification/Service_Modules.thy ===== *)
theory Service_Modules
  imports Worker Startup
begin

section \<open>A whole service: components, workers, probes and the container\<close>

text \<open>
  The modules of \<^verbatim>\<open>NewCommonsModule\<close> and of the consumers put components and workers into one application:
  \<open>module_entry\<close> is what a module's constructors and invoked functions append to the container's lifecycle,
  in their order. The container starts what was appended in that order, stops at the first error, and
  stops what it started in reverse order (fx, documented behaviour). Meanwhile the workers' goroutines run and wait on the
  same \<open>readiness\<close> that the start hooks and the probes change. The order in which modules are built is left
  open: the properties hold for any list of entries.
\<close>

subsection \<open>What the modules append\<close>

datatype module_entry =
    Component string
  | Background string "(worker_options \<Rightarrow> worker_options) list"

definition outbox_entries :: "module_entry list" where
  "outbox_entries =
     [Background ''outbox-fetcher'' [with_traffic_ready],
      Background ''outbox-sender'' [with_traffic_ready],
      Background ''outbox-confirmer'' [with_traffic_ready],
      Component ''outbox-schema'']"

text \<open>The client, which the reader needs, is built before the reader's worker.\<close>

definition consumer_entries :: "consumer_config \<Rightarrow> module_entry list" where
  "consumer_entries conf =
     [Component (consumer_component conf),
      Background ''reader'' [with_traffic_ready, with_shutdown],
      Background ''deserializer'' [],
      Background ''processor'' []]"

definition tenant_entries :: "module_entry list" where
  "tenant_entries = [Background ''tenant-cleanup'' [with_ready]]"

subsection \<open>The application\<close>

datatype lifecycle_hook = Component_hook marker | Worker_hook nat

text \<open>\<open>Stopping_hooks k\<close>: the first \<open>k\<close> hooks are still to be stopped; \<open>sv_pending\<close> probes are past the checks of \<^verbatim>\<open>MarkTrafficReady\<close>.\<close>

datatype app_phase = Starting | Start_failed | Started | Stopping_hooks nat

record service =
  sv_readiness :: readiness
  sv_hooks :: "lifecycle_hook list"
  sv_workers :: "(string \<times> worker) list"
  sv_started :: nat
  sv_phase :: app_phase
  sv_pending :: nat
  sv_shutdown :: bool

definition new_service :: "bool \<Rightarrow> service" where
  "new_service isKubernetes = \<lparr>sv_readiness = new_readiness isKubernetes, sv_hooks = [], sv_workers = [],
     sv_started = 0, sv_phase = Starting, sv_pending = 0, sv_shutdown = False\<rparr>"

text \<open>\<^verbatim>\<open>RunWorker\<close> and \<^verbatim>\<open>registerWorker\<close>: a worker with its options, and its hook.\<close>

definition run_worker :: "string \<Rightarrow> (worker_options \<Rightarrow> worker_options) list \<Rightarrow> service \<Rightarrow> service" where
  "run_worker name opts s =
     (let w = new_worker (run_worker_options opts)
      in s\<lparr>sv_workers := sv_workers s @ [(name, w)], sv_hooks := sv_hooks s @ [Worker_hook (length (sv_workers s))]\<rparr>)"

fun append_entry :: "time \<Rightarrow> module_entry \<Rightarrow> service \<Rightarrow> service may_panic" where
  "append_entry now (Component name) s =
     and_then (add_component now name (sv_readiness s)) (\<lambda>(markReady, r).
       Inr (s\<lparr>sv_readiness := r, sv_hooks := sv_hooks s @ [Component_hook markReady]\<rparr>))"
| "append_entry now (Background name opts) s = Inr (run_worker name opts s)"

fun build_service :: "time \<Rightarrow> module_entry list \<Rightarrow> service \<Rightarrow> service may_panic" where
  "build_service now [] s = Inr s"
| "build_service now (e # es) s = and_then (append_entry now e s) (build_service now es)"

subsection \<open>Its steps\<close>

text \<open>\<^verbatim>\<open>context.WithCancel(context.Background())\<close> of a started worker.\<close>

definition worker_ctx :: "worker \<Rightarrow> go_ctx" where
  "worker_ctx w = (if w_cancel w = Some True then ctx_background\<lparr>ctx_err := Some (Sentinel ContextCanceled)\<rparr> else ctx_background)"

definition set_worker :: "nat \<Rightarrow> worker \<Rightarrow> service \<Rightarrow> service" where
  "set_worker i w s = s\<lparr>sv_workers := (sv_workers s)[i := (fst (sv_workers s ! i), w)]\<rparr>"

definition hook_done :: "service \<Rightarrow> service" where
  "hook_done s = s\<lparr>sv_started := sv_started s + 1\<rparr>"

text \<open>
  The goroutine of \<^verbatim>\<open>run\<close> at its waits: what they return in this moment, if they do. The two selects of
  \<^verbatim>\<open>WaitForTrafficReady\<close> are taken in one moment, that of the second: the ready channel stays closed.
\<close>

definition goroutine_waits :: "nat \<Rightarrow> nat \<Rightarrow> readiness \<Rightarrow> worker \<Rightarrow> worker option" where
  "goroutine_waits pick\<^sub>1 pick\<^sub>2 r w =
     (if w_pc w = At_ready then
        map_option (\<lambda>e. worker_goto [Waited_ready e] (if e = None then next_pc_traffic (w_options w) else Finished) w)
          (wait_ready pick\<^sub>1 (worker_ctx w) r)
      else if w_pc w = At_traffic then
        map_option (\<lambda>e. worker_goto [Waited_traffic e] (if e = None then At_work else Finished) w)
          (wait_for_traffic_ready pick\<^sub>1 (worker_ctx w) r pick\<^sub>2 (worker_ctx w) r)
      else None)"

text \<open>The goroutine at its function, which returns \<open>res\<close>, and after an error.\<close>

definition goroutine_works :: "go_error option \<Rightarrow> worker \<Rightarrow> worker option" where
  "goroutine_works res w =
     (if w_pc w = At_work then Some (worker_goto [Ran res] (if res = None then Finished else At_error) w)
      else if w_pc w = At_error then Some (worker_goto (worker_on_error (w_options w)) Finished w)
      else None)"

text \<open>\<^verbatim>\<open>Stop\<close>: cancelling; its wait ends with the goroutine or with the context of the stop. Hooks of components stop nothing here.\<close>

definition stop_begins :: "worker \<Rightarrow> worker" where
  "stop_begins w = w\<lparr>w_cancel := map_option (\<lambda>_. True) (w_cancel w), w_stop := Stopping\<rparr>"

inductive service_step :: "service \<Rightarrow> service \<Rightarrow> bool" where
  component_starts: "sv_phase s = Starting \<Longrightarrow> sv_started s < length (sv_hooks s) \<Longrightarrow>
    sv_hooks s ! sv_started s = Component_hook m \<Longrightarrow> finish_hook now m None (sv_readiness s) = Inr (None, r) \<Longrightarrow>
    service_step s (hook_done (s\<lparr>sv_readiness := r\<rparr>))"
| component_fails: "sv_phase s = Starting \<Longrightarrow> sv_started s < length (sv_hooks s) \<Longrightarrow>
    sv_hooks s ! sv_started s = Component_hook m \<Longrightarrow> finish_hook now m (Some e) (sv_readiness s) = Inr (Some e, r) \<Longrightarrow>
    service_step s (s\<lparr>sv_readiness := r, sv_phase := Start_failed\<rparr>)"
| worker_starts: "sv_phase s = Starting \<Longrightarrow> sv_started s < length (sv_hooks s) \<Longrightarrow>
    sv_hooks s ! sv_started s = Worker_hook i \<Longrightarrow>
    service_step s (hook_done (set_worker i (worker_start (snd (sv_workers s ! i))) s))"
| start_aborts: "sv_phase s = Starting \<Longrightarrow> service_step s (s\<lparr>sv_phase := Start_failed\<rparr>)"
| start_ends: "sv_phase s = Starting \<Longrightarrow> sv_started s = length (sv_hooks s) \<Longrightarrow>
    service_step s (s\<lparr>sv_phase := Started\<rparr>)"
| worker_waits: "i < length (sv_workers s) \<Longrightarrow>
    goroutine_waits pick\<^sub>1 pick\<^sub>2 (sv_readiness s) (snd (sv_workers s ! i)) = Some w \<Longrightarrow>
    service_step s (set_worker i w s)"
| worker_works: "i < length (sv_workers s) \<Longrightarrow> goroutine_works res (snd (sv_workers s ! i)) = Some w \<Longrightarrow>
    service_step s ((set_worker i w s)\<lparr>sv_shutdown := sv_shutdown s \<or> Shutdown_app 1 \<in> set (w_trace w)\<rparr>)"
| probe_checks: "traffic_check (sv_readiness s) \<Longrightarrow> service_step s (s\<lparr>sv_pending := Suc (sv_pending s)\<rparr>)"
| probe_commits: "sv_pending s = Suc k \<Longrightarrow> traffic_commit now (sv_readiness s) = Inr r \<Longrightarrow>
    service_step s (s\<lparr>sv_readiness := r, sv_pending := k\<rparr>)"
| app_stops: "sv_phase s = Start_failed \<or> sv_phase s = Started \<Longrightarrow>
    service_step s (s\<lparr>sv_phase := Stopping_hooks (sv_started s)\<rparr>)"
| component_stops: "sv_phase s = Stopping_hooks (Suc k) \<Longrightarrow> sv_hooks s ! k = Component_hook m \<Longrightarrow>
    service_step s (s\<lparr>sv_phase := Stopping_hooks k\<rparr>)"
| worker_stop_begins: "sv_phase s = Stopping_hooks (Suc k) \<Longrightarrow> sv_hooks s ! k = Worker_hook i \<Longrightarrow>
    w_stop (snd (sv_workers s ! i)) = Not_stopping \<Longrightarrow>
    service_step s (set_worker i (stop_begins (snd (sv_workers s ! i))) s)"
| worker_stop_ends: "sv_phase s = Stopping_hooks (Suc k) \<Longrightarrow> sv_hooks s ! k = Worker_hook i \<Longrightarrow>
    snd (sv_workers s ! i) = w \<Longrightarrow> w_stop w = Stopping \<Longrightarrow>
    st = Stopped_gracefully \<and> w_wg w = 0 \<or> st = Stop_timed_out \<Longrightarrow>
    service_step s ((set_worker i (w\<lparr>w_stop := st\<rparr>) s)\<lparr>sv_phase := Stopping_hooks k\<rparr>)"

inductive_cases service_stepE: "service_step s s'"

inductive service_reach :: "bool \<Rightarrow> module_entry list \<Rightarrow> service \<Rightarrow> bool" for kube es where
  built: "build_service now es (new_service kube) = Inr s \<Longrightarrow> service_reach kube es s"
| step: "service_reach kube es s \<Longrightarrow> service_step s s' \<Longrightarrow> service_reach kube es s'"

subsection \<open>What is built\<close>

definition hook_names :: "lifecycle_hook list \<Rightarrow> string set" where
  "hook_names hooks = {n. Component_hook (Marker n) \<in> set hooks}"

lemma hook_names_simps [simp]:
  "hook_names [] = {}"
  "hook_names (hs @ [Component_hook (Marker n)]) = insert n (hook_names hs)"
  "hook_names (hs @ [Component_hook No_marker]) = hook_names hs"
  "hook_names (hs @ [Worker_hook i]) = hook_names hs"
  by (auto simp: hook_names_def)

definition worker_kinds :: "service \<Rightarrow> (string \<times> worker_options) list" where
  "worker_kinds s = map (\<lambda>(n, w). (n, w_options w)) (sv_workers s)"

fun entry_hook :: "(string \<times> worker_options) list \<Rightarrow> module_entry \<Rightarrow> lifecycle_hook \<Rightarrow> bool" where
  "entry_hook kinds (Component c) (Component_hook m) = (m = Marker c \<or> m = No_marker)"
| "entry_hook kinds (Background n opts) (Worker_hook i) = (i < length kinds \<and> kinds ! i = (n, run_worker_options opts))"
| "entry_hook kinds _ _ = False"

lemma list_all2_snoc: "list_all2 P (xs @ [x]) (ys @ [y]) \<longleftrightarrow> list_all2 P xs ys \<and> P x y"
  by (auto simp: list_all2_conv_all_nth nth_append less_Suc_eq)

lemma entry_hook_append: "entry_hook kinds e h \<Longrightarrow> entry_hook (kinds @ ks) e h"
  by (cases "(kinds, e, h)" rule: entry_hook.cases) (auto simp: nth_append)

text \<open>
  What holds of the hooks and workers of a built service: a hook per entry, the first component of a name with
  its marker, and a hook of its own for every worker.
\<close>

definition built_from :: "module_entry list \<Rightarrow> service \<Rightarrow> bool" where
  "built_from es s \<longleftrightarrow> list_all2 (entry_hook (worker_kinds s)) es (sv_hooks s)
     \<and> (\<forall>c. Component c \<in> set es \<longrightarrow> c \<in> hook_names (sv_hooks s))
     \<and> (\<forall>i. i < length (sv_workers s) \<longrightarrow> Worker_hook i \<in> set (sv_hooks s))
     \<and> (\<forall>j k i. j < length (sv_hooks s) \<longrightarrow> k < length (sv_hooks s)
          \<longrightarrow> sv_hooks s ! j = Worker_hook i \<longrightarrow> sv_hooks s ! k = Worker_hook i \<longrightarrow> j = k)"

definition fresh_service :: "bool \<Rightarrow> service \<Rightarrow> bool" where
  "fresh_service kube s \<longleftrightarrow> registered (sv_readiness s) (hook_names (sv_hooks s)) {}
     \<and> in_kubernetes (sv_readiness s) = kube \<and> sv_started s = 0 \<and> sv_phase s = Starting \<and> sv_pending s = 0
     \<and> (\<forall>(n, w) \<in> set (sv_workers s). w = new_worker (w_options w))"

lemma add_component_kube: "add_component now name r = Inr (m, r') \<Longrightarrow> in_kubernetes r' = in_kubernetes r"
  by (auto elim!: add_component_cases)

lemma append_component:
  assumes "built_from es s" and "fresh_service kube s" and "append_entry now (Component c) s = Inr s'"
  shows "built_from (es @ [Component c]) s' \<and> fresh_service kube s'"
proof -
  obtain m r where add: "add_component now c (sv_readiness s) = Inr (m, r)"
    and s': "s' = s\<lparr>sv_readiness := r, sv_hooks := sv_hooks s @ [Component_hook m]\<rparr>"
    using assms(3) by (auto simp: and_then_Inr)
  have reg: "registered (sv_readiness s) (hook_names (sv_hooks s)) {}" and kube: "in_kubernetes r = kube"
    using assms(2) add_component_kube [OF add] by (auto simp: fresh_service_def)
  from add show ?thesis
  proof (cases rule: add_component_cases)
    case 1
    then have "map_of (components (sv_readiness s)) c \<noteq> None"
      using add by (auto simp: add_component_def split: if_splits)
    then have "c \<in> hook_names (sv_hooks s)"
      using reg by (metis map_of_eq_None_iff registered_def)
    with 1 assms(1,2) kube show ?thesis
      by (auto simp: s' built_from_def fresh_service_def worker_kinds_def list_all2_snoc nth_append less_Suc_eq)
  next
    case 2
    have "c \<notin> hook_names (sv_hooks s)"
      using 2(2) reg by (auto simp: registered_def map_of_eq_None_iff)
    with add_registered [OF reg 2(1), of now] add have "registered r (insert c (hook_names (sv_hooks s))) {}" by auto
    with 2(3) assms(1,2) kube show ?thesis
      by (auto simp: s' built_from_def fresh_service_def worker_kinds_def list_all2_snoc nth_append less_Suc_eq)
  qed
qed

lemma append_background:
  assumes "built_from es s" and "fresh_service kube s"
  shows "built_from (es @ [Background n opts]) (run_worker n opts s) \<and> fresh_service kube (run_worker n opts s)"
proof -
  let ?s = "run_worker n opts s" and ?k = "length (sv_workers s)"
  have kinds: "worker_kinds ?s = worker_kinds s @ [(n, run_worker_options opts)]"
    by (simp add: worker_kinds_def run_worker_def Let_def new_worker_def)
  have new: "Worker_hook ?k \<notin> set (sv_hooks s)"
  proof
    assume "Worker_hook ?k \<in> set (sv_hooks s)"
    then obtain j where "j < length (sv_hooks s)" "sv_hooks s ! j = Worker_hook ?k" by (auto simp: in_set_conv_nth)
    with assms(1) have "entry_hook (worker_kinds s) (es ! j) (Worker_hook ?k)"
      by (metis built_from_def list_all2_conv_all_nth)
    then show False by (cases "es ! j") (simp_all add: worker_kinds_def)
  qed
  then have new': "sv_hooks s ! j \<noteq> Worker_hook ?k" if "j < length (sv_hooks s)" for j
    using that by (metis nth_mem)
  have all2: "list_all2 (entry_hook (worker_kinds ?s)) es (sv_hooks s)"
    using assms(1) unfolding built_from_def kinds by (auto elim!: list_all2_mono intro: entry_hook_append)
  have "entry_hook (worker_kinds ?s) (Background n opts) (Worker_hook ?k)"
    by (simp add: kinds nth_append) (simp add: worker_kinds_def)
  with all2 have hooks: "list_all2 (entry_hook (worker_kinds ?s)) (es @ [Background n opts]) (sv_hooks ?s)"
    by (simp add: list_all2_snoc) (simp add: run_worker_def Let_def list_all2_snoc)
  have fields: "sv_hooks ?s = sv_hooks s @ [Worker_hook ?k]" "sv_workers ?s = sv_workers s @ [(n, new_worker (run_worker_options opts))]"
    "sv_readiness ?s = sv_readiness s" "sv_started ?s = sv_started s" "sv_phase ?s = sv_phase s" "sv_pending ?s = sv_pending s"
    by (simp_all add: run_worker_def Let_def)
  have unique: "\<forall>j k i. j < length (sv_hooks ?s) \<longrightarrow> k < length (sv_hooks ?s)
      \<longrightarrow> sv_hooks ?s ! j = Worker_hook i \<longrightarrow> sv_hooks ?s ! k = Worker_hook i \<longrightarrow> j = k"
    using assms(1) new' unfolding built_from_def fields by (auto simp: nth_append less_Suc_eq)
  show ?thesis
    using assms hooks unique unfolding built_from_def fresh_service_def fields
    by (auto simp: less_Suc_eq new_worker_def)
qed

lemma build_service_built:
  "build_service now es s = Inr s' \<Longrightarrow> built_from ds s \<Longrightarrow> fresh_service kube s \<Longrightarrow>
     built_from (ds @ es) s' \<and> fresh_service kube s'"
proof (induction es arbitrary: ds s)
  case (Cons e es)
  then obtain s1 where s1: "append_entry now e s = Inr s1" and rest: "build_service now es s1 = Inr s'"
    by (auto simp: and_then_Inr)
  have "built_from (ds @ [e]) s1 \<and> fresh_service kube s1"
    using s1 append_component [OF Cons.prems(2,3)] append_background [OF Cons.prems(2,3)] by (cases e) auto
  with Cons.IH [OF rest, of "ds @ [e]"] show ?case by simp
qed simp

lemma new_service_fresh: "built_from [] (new_service kube) \<and> fresh_service kube (new_service kube)"
  using readiness_inv_new [of kube]
  by (simp add: built_from_def fresh_service_def new_service_def registered_def is_ready_def new_readiness_def)

lemmas built_service = build_service_built [where ds = "[]", OF _ conjunct1 [OF new_service_fresh] conjunct2 [OF new_service_fresh], simplified]

subsection \<open>The invariant\<close>

text \<open>The components that are ready are those whose hooks have been run.\<close>

definition readiness_follows :: "bool \<Rightarrow> service \<Rightarrow> bool" where
  "readiness_follows kube s \<longleftrightarrow>
     registered (sv_readiness s) (hook_names (sv_hooks s)) (hook_names (take (sv_started s) (sv_hooks s)))
     \<and> in_kubernetes (sv_readiness s) = kube \<and> sv_started s \<le> length (sv_hooks s)
     \<and> (0 < sv_pending s \<longrightarrow> is_ready (sv_readiness s)) \<and> (sv_phase s = Started \<longrightarrow> sv_started s = length (sv_hooks s))"

text \<open>Every worker is a reachable one of theory \<open>Worker\<close>, and the waits it has behind it were justified.\<close>

definition wait_marks :: "readiness \<Rightarrow> worker \<Rightarrow> bool" where
  "wait_marks r w \<longleftrightarrow> (Waited_ready None \<in> set (w_trace w) \<longrightarrow> is_ready r)
     \<and> (Waited_traffic None \<in> set (w_trace w) \<longrightarrow> is_ready r \<and> (in_kubernetes r \<longrightarrow> k8s_closed r))"

definition worker_fine :: "readiness \<Rightarrow> worker \<Rightarrow> bool" where
  "worker_fine r w \<longleftrightarrow> worker_reach (w_options w) w \<and> wait_marks r w"

text \<open>Which workers have been started and stopped: \<open>stop_progress\<close> is about that of the \<open>j\<close>-th hook.\<close>

fun stop_progress :: "app_phase \<Rightarrow> nat \<Rightarrow> stop_state \<Rightarrow> bool" where
  "stop_progress (Stopping_hooks k) j st =
     (if k \<le> j then st = Stopped_gracefully \<or> st = Stop_timed_out
      else if Suc j = k then st = Not_stopping \<or> st = Stopping else st = Not_stopping)"
| "stop_progress _ j st = (st = Not_stopping)"

definition hook_worker_fine :: "service \<Rightarrow> nat \<Rightarrow> worker \<Rightarrow> bool" where
  "hook_worker_fine s j w \<longleftrightarrow>
     (if j < sv_started s then w_pc w \<noteq> Not_started \<and> stop_progress (sv_phase s) j (w_stop w)
      else w = new_worker (w_options w))"

definition service_inv :: "bool \<Rightarrow> module_entry list \<Rightarrow> service \<Rightarrow> bool" where
  "service_inv kube es s \<longleftrightarrow> built_from es s \<and> readiness_follows kube s
     \<and> (\<forall>(n, w) \<in> set (sv_workers s). worker_fine (sv_readiness s) w)
     \<and> (\<forall>j i. j < length (sv_hooks s) \<longrightarrow> sv_hooks s ! j = Worker_hook i \<longrightarrow> hook_worker_fine s j (snd (sv_workers s ! i)))
     \<and> (\<forall>k. sv_phase s = Stopping_hooks k \<longrightarrow> k \<le> sv_started s)"

lemma hook_names_take:
  "k < length hooks \<Longrightarrow> hook_names (take (Suc k) hooks) =
     (case hooks ! k of Component_hook (Marker n) \<Rightarrow> insert n (hook_names (take k hooks)) | _ \<Rightarrow> hook_names (take k hooks))"
  by (auto simp: take_Suc_conv_app_nth split: lifecycle_hook.splits marker.splits)

lemma finish_registered:
  assumes reg: "registered r names done" and known: "\<forall>n. m = Marker n \<longrightarrow> n \<in> names" and fin: "finish_hook now m None r = Inr (e, r')"
  shows "registered r' names (case m of Marker n \<Rightarrow> insert n done | No_marker \<Rightarrow> done)
    \<and> (is_ready r \<longrightarrow> is_ready r') \<and> k8s_closed r' = k8s_closed r \<and> in_kubernetes r' = in_kubernetes r"
proof (cases m)
  case (Marker n)
  have inv: "readiness_inv r" and "n \<in> fst ` set (components r)" using reg known Marker by (auto simp: registered_def)
  then obtain c where c: "map_of (components r) n = Some c" by (metis map_of_eq_None_iff not_None_eq)
  have mark: "mark_ready now (Marker n) r = Inr r'" using fin Marker by (auto simp: finish_hook_def and_then_Inr)
  from mark_registered [OF reg, of n now] mark known Marker have "registered r' names (insert n done)" by auto
  moreover from mark_ready_total [OF inv c, of now] mark
  have "(is_ready r \<longrightarrow> is_ready r') \<and> k8s_closed r' = k8s_closed r \<and> in_kubernetes r' = in_kubernetes r"
    by (auto simp: is_ready_def)
  ultimately show ?thesis using Marker by simp
next
  case No_marker
  with fin reg show ?thesis by (auto simp: finish_hook_def and_then_Inr)
qed

lemma commit_registered:
  assumes reg: "registered r names done" and ready: "is_ready r" and commit: "traffic_commit now r = Inr r'"
  shows "registered r' names done \<and> is_ready r' \<and> k8s_closed r' \<and> in_kubernetes r' = in_kubernetes r"
proof -
  have inv: "readiness_inv r" using reg by (simp add: registered_def)
  from traffic_commit_inv [OF inv ready commit] traffic_commit_eq [OF inv, of now] commit reg show ?thesis
    by (auto simp: registered_def is_ready_def split: if_splits)
qed

lemma wait_marks_mono:
  "wait_marks r w \<Longrightarrow> (is_ready r \<longrightarrow> is_ready r') \<Longrightarrow> (k8s_closed r \<longrightarrow> k8s_closed r') \<Longrightarrow> in_kubernetes r' = in_kubernetes r \<Longrightarrow>
     wait_marks r' w"
  by (auto simp: wait_marks_def)

subsection \<open>It is kept\<close>

text \<open>The steps of a goroutine in a service are steps of its worker.\<close>

definition goroutine_step :: "readiness \<Rightarrow> worker \<Rightarrow> worker \<Rightarrow> bool" where
  "goroutine_step r w w' \<longleftrightarrow> worker_step w w' \<and> worker_fine r w' \<and> w_stop w' = w_stop w \<and> w_pc w \<noteq> Not_started
     \<and> w_pc w' \<noteq> Not_started \<and> w_options w' = w_options w"

lemma worker_ctx_done: "ctx_done (worker_ctx w) \<longleftrightarrow> w_cancel w = Some True"
  by (simp add: worker_ctx_def ctx_background_def)

lemma waited_ready: "wait_ready pick ctx r = Some e \<Longrightarrow> (case e of None \<Rightarrow> is_ready r | Some _ \<Rightarrow> ctx_done ctx)"
  by (auto simp: wait_ready_def is_ready_def dest!: select_arms split: option.splits)

lemma waited_traffic:
  "wait_for_traffic_ready p\<^sub>1 ctx r p\<^sub>2 ctx r = Some e \<Longrightarrow>
     (case e of None \<Rightarrow> is_ready r \<and> (in_kubernetes r \<longrightarrow> k8s_closed r) | Some _ \<Rightarrow> ctx_done ctx)"
  by (auto simp: wait_for_traffic_ready_def dest!: waited_ready select_arms split: option.splits if_splits)

lemma goto_facts:
  "w_stop (worker_goto evs pc w) = w_stop w" "w_pc (worker_goto evs pc w) = pc" "w_options (worker_goto evs pc w) = w_options w"
  "w_trace (worker_goto evs pc w) = w_trace w @ evs" "w_cancel (worker_goto evs pc w) = w_cancel w"
  by (simp_all add: worker_goto_def Let_def)

lemma goroutine_waits_step:
  assumes run: "goroutine_waits p\<^sub>1 p\<^sub>2 r w = Some w'" and fine: "worker_fine r w"
  shows "goroutine_step r w w'"
proof -
  consider (ready) e where "w_pc w = At_ready" "wait_ready p\<^sub>1 (worker_ctx w) r = Some e"
      "w' = worker_goto [Waited_ready e] (if e = None then next_pc_traffic (w_options w) else Finished) w"
    | (traffic) e where "w_pc w = At_traffic" "wait_for_traffic_ready p\<^sub>1 (worker_ctx w) r p\<^sub>2 (worker_ctx w) r = Some e"
      "w' = worker_goto [Waited_traffic e] (if e = None then At_work else Finished) w"
    using run by (auto simp: goroutine_waits_def split: if_splits)
  then show ?thesis
  proof cases
    case ready
    have res: "case e of None \<Rightarrow> is_ready r | Some _ \<Rightarrow> w_cancel w = Some True"
      using waited_ready [OF ready(2), unfolded worker_ctx_done] .
    then have step: "worker_step w w'"
      using ready worker_step.ready_ok [of w] worker_step.ready_err [of w] by (auto split: option.splits)
    with fine res have "worker_fine r w'"
      unfolding worker_fine_def wait_marks_def ready(3) goto_facts
      by (auto intro: worker_reach.step split: option.splits)
    with step ready next_pc_live [of "w_options w"] show ?thesis by (auto simp: goroutine_step_def goto_facts)
  next
    case traffic
    have res: "case e of None \<Rightarrow> is_ready r \<and> (in_kubernetes r \<longrightarrow> k8s_closed r) | Some _ \<Rightarrow> w_cancel w = Some True"
      using waited_traffic [OF traffic(2), unfolded worker_ctx_done] .
    then have step: "worker_step w w'"
      using traffic worker_step.traffic_ok [of w] worker_step.traffic_err [of w] by (auto split: option.splits)
    with fine res have "worker_fine r w'"
      unfolding worker_fine_def wait_marks_def traffic(3) goto_facts
      by (auto intro: worker_reach.step split: option.splits)
    with step traffic show ?thesis by (auto simp: goroutine_step_def goto_facts)
  qed
qed

lemma goroutine_works_step:
  assumes run: "goroutine_works res w = Some w'" and fine: "worker_fine r w"
  shows "goroutine_step r w w'"
proof -
  have step: "worker_step w w'" and live: "w_pc w \<noteq> Not_started"
    using run worker_step.work_ok [of w] worker_step.work_err [of w] worker_step.error [of w]
    by (auto simp: goroutine_works_def split: if_splits)
  moreover have "w_pc w' \<noteq> Not_started \<and> w_stop w' = w_stop w \<and> w_options w' = w_options w"
    using run by (auto simp: goroutine_works_def goto_facts split: if_splits)
  moreover have "wait_marks r w'"
    using run fine by (auto simp: goroutine_works_def worker_fine_def wait_marks_def goto_facts worker_on_error_def split: if_splits)
  ultimately show ?thesis using fine worker_reach.step by (auto simp: goroutine_step_def worker_fine_def)
qed

text \<open>Replacing one worker by one that is as far as its hook.\<close>

definition same_but_worker :: "nat \<Rightarrow> worker \<Rightarrow> service \<Rightarrow> service \<Rightarrow> bool" where
  "same_but_worker i w s s' \<longleftrightarrow> sv_workers s' = (sv_workers s)[i := (fst (sv_workers s ! i), w)]
     \<and> sv_hooks s' = sv_hooks s \<and> sv_readiness s' = sv_readiness s"

lemma service_inv_worker:
  assumes inv: "service_inv kube es s" and same: "same_but_worker i w s s'" and i: "i < length (sv_workers s)"
    and opts: "w_options w = w_options (snd (sv_workers s ! i))" and fine: "worker_fine (sv_readiness s) w"
    and follows: "readiness_follows kube s'"
    and own: "\<And>j. j < length (sv_hooks s) \<Longrightarrow> sv_hooks s ! j = Worker_hook i \<Longrightarrow>
      hook_worker_fine s j (snd (sv_workers s ! i)) \<Longrightarrow> hook_worker_fine s' j w"
    and others: "\<And>j i'. j < length (sv_hooks s) \<Longrightarrow> sv_hooks s ! j = Worker_hook i' \<Longrightarrow> i' \<noteq> i \<Longrightarrow>
      hook_worker_fine s j (snd (sv_workers s ! i')) \<Longrightarrow> hook_worker_fine s' j (snd (sv_workers s ! i'))"
    and phase: "\<And>k. sv_phase s' = Stopping_hooks k \<Longrightarrow> k \<le> sv_started s'"
  shows "service_inv kube es s'"
proof -
  have fields: "sv_workers s' = (sv_workers s)[i := (fst (sv_workers s ! i), w)]" "sv_hooks s' = sv_hooks s"
    "sv_readiness s' = sv_readiness s" using same by (simp_all add: same_but_worker_def)
  have "worker_kinds s' = worker_kinds s"
    using i opts by (auto simp: worker_kinds_def fields map_update list_update_same_conv split: prod.splits)
  with inv have built: "built_from es s'" by (simp add: service_inv_def built_from_def fields)
  have workers: "\<forall>(n, v) \<in> set (sv_workers s'). worker_fine (sv_readiness s') v"
    using inv fine unfolding fields service_inv_def by (auto dest!: set_update_subset_insert [THEN subsetD])
  have hooks: "\<forall>j i'. j < length (sv_hooks s') \<longrightarrow> sv_hooks s' ! j = Worker_hook i' \<longrightarrow> hook_worker_fine s' j (snd (sv_workers s' ! i'))"
  proof (intro allI impI)
    fix j i' assume j: "j < length (sv_hooks s')" "sv_hooks s' ! j = Worker_hook i'"
    then have "hook_worker_fine s j (snd (sv_workers s ! i'))" using inv by (simp add: service_inv_def fields)
    with j i own others show "hook_worker_fine s' j (snd (sv_workers s' ! i'))"
      by (cases "i' = i") (simp_all add: fields)
  qed
  from built workers hooks follows phase show ?thesis by (auto simp: service_inv_def)
qed

text \<open>Changing only the container's state and the readiness.\<close>

lemma service_inv_readiness:
  assumes inv: "service_inv kube es s" and same: "sv_workers s' = sv_workers s" "sv_hooks s' = sv_hooks s"
    and follows: "readiness_follows kube s'" and ready: "is_ready (sv_readiness s) \<longrightarrow> is_ready (sv_readiness s')"
    and probed: "k8s_closed (sv_readiness s) \<longrightarrow> k8s_closed (sv_readiness s')"
    and hooks: "\<And>j i w. j < length (sv_hooks s) \<Longrightarrow> sv_hooks s ! j = Worker_hook i \<Longrightarrow> hook_worker_fine s j w \<Longrightarrow> hook_worker_fine s' j w"
    and phase: "\<And>k. sv_phase s' = Stopping_hooks k \<Longrightarrow> k \<le> sv_started s'"
  shows "service_inv kube es s'"
proof -
  have kube: "in_kubernetes (sv_readiness s') = in_kubernetes (sv_readiness s)"
    using inv follows by (simp add: service_inv_def readiness_follows_def)
  have "\<forall>(n, w) \<in> set (sv_workers s'). worker_fine (sv_readiness s') w"
    using inv wait_marks_mono [OF _ ready probed kube] by (auto simp: service_inv_def worker_fine_def same)
  moreover have "built_from es s'" using inv by (simp add: service_inv_def built_from_def worker_kinds_def same)
  ultimately show ?thesis using inv hooks follows phase by (auto simp: service_inv_def same)
qed

lemma hook_worker_index:
  assumes "built_from es s" and "j < length (sv_hooks s)" and "sv_hooks s ! j = Worker_hook i"
  shows "i < length (sv_workers s)"
proof -
  have "entry_hook (worker_kinds s) (es ! j) (Worker_hook i)"
    using assms by (metis built_from_def list_all2_conv_all_nth)
  then show ?thesis by (cases "es ! j") (simp_all add: worker_kinds_def)
qed

lemma component_known:
  "readiness_follows kube s \<Longrightarrow> sv_started s < length (sv_hooks s) \<Longrightarrow> sv_hooks s ! sv_started s = Component_hook m \<Longrightarrow>
     \<forall>n. m = Marker n \<longrightarrow> n \<in> hook_names (sv_hooks s)"
  by (auto simp: hook_names_def dest: nth_mem)

lemma follows_component:
  assumes fol: "readiness_follows kube s" and at: "sv_started s < length (sv_hooks s)" "sv_hooks s ! sv_started s = Component_hook m"
    and ph: "sv_phase s = Starting" and fin: "finish_hook now m None (sv_readiness s) = Inr (e, r)"
  shows "readiness_follows kube (hook_done (s\<lparr>sv_readiness := r\<rparr>))" "is_ready (sv_readiness s) \<longrightarrow> is_ready r"
    "k8s_closed (sv_readiness s) \<longrightarrow> k8s_closed r"
  using finish_registered [OF _ component_known [OF fol at] fin] fol at ph
  by (auto simp: readiness_follows_def hook_done_def hook_names_take split: marker.splits)

lemma hook_worker_goroutine:
  "goroutine_step r w w' \<Longrightarrow> hook_worker_fine s j w \<Longrightarrow> hook_worker_fine s j w'"
  by (auto simp: goroutine_step_def hook_worker_fine_def new_worker_def split: if_splits dest: arg_cong [where f = w_pc])

lemma set_worker_same: "same_but_worker i w s (set_worker i w s)"
  by (simp add: same_but_worker_def set_worker_def)

lemma service_inv_goroutine:
  assumes inv: "service_inv kube es s" and i: "i < length (sv_workers s)"
    and step: "goroutine_step (sv_readiness s) (snd (sv_workers s ! i)) w"
  shows "service_inv kube es ((set_worker i w s)\<lparr>sv_shutdown := b\<rparr>)"
proof (rule service_inv_worker [OF inv _ i, where w = w])
  let ?s = "(set_worker i w s)\<lparr>sv_shutdown := b\<rparr>"
  show "same_but_worker i w s ?s" by (simp add: same_but_worker_def set_worker_def)
  show "w_options w = w_options (snd (sv_workers s ! i))" "worker_fine (sv_readiness s) w"
    using step by (simp_all add: goroutine_step_def)
  show "readiness_follows kube ?s" using inv by (simp add: service_inv_def readiness_follows_def set_worker_def)
  show "hook_worker_fine ?s j w" if "hook_worker_fine s j (snd (sv_workers s ! i))" for j
    using hook_worker_goroutine [OF step that] by (simp add: hook_worker_fine_def set_worker_def)
  show "hook_worker_fine ?s j v" if "hook_worker_fine s j v" for j v
    using that by (simp add: hook_worker_fine_def set_worker_def)
  show "k \<le> sv_started ?s" if "sv_phase ?s = Stopping_hooks k" for k
    using that inv by (simp add: service_inv_def set_worker_def)
qed

lemma hook_unique:
  "built_from es s \<Longrightarrow> j < length (sv_hooks s) \<Longrightarrow> k < length (sv_hooks s) \<Longrightarrow> sv_hooks s ! j = Worker_hook i \<Longrightarrow>
     sv_hooks s ! k = Worker_hook i \<Longrightarrow> j = k"
  unfolding built_from_def by blast

lemma service_invD:
  assumes "service_inv kube es s"
  shows "built_from es s" "readiness_follows kube s"
    "j < length (sv_hooks s) \<Longrightarrow> sv_hooks s ! j = Worker_hook i \<Longrightarrow> hook_worker_fine s j (snd (sv_workers s ! i))"
    "i < length (sv_workers s) \<Longrightarrow> worker_fine (sv_readiness s) (snd (sv_workers s ! i))"
    "sv_phase s = Stopping_hooks k \<Longrightarrow> k \<le> sv_started s"
    "sv_started s \<le> length (sv_hooks s)"
proof -
  show "i < length (sv_workers s) \<Longrightarrow> worker_fine (sv_readiness s) (snd (sv_workers s ! i))"
    using assms nth_mem [of i "sv_workers s"] by (auto simp: service_inv_def case_prod_beta)
qed (use assms in \<open>simp_all add: service_inv_def readiness_follows_def\<close>)

lemma service_inv_starts_worker:
  assumes inv: "service_inv kube es s" and ph: "sv_phase s = Starting" and at: "sv_started s < length (sv_hooks s)"
    "sv_hooks s ! sv_started s = Worker_hook i"
  shows "service_inv kube es (hook_done (set_worker i (worker_start (snd (sv_workers s ! i))) s))"
proof -
  note built = service_invD(1) [OF inv]
  have i: "i < length (sv_workers s)" by (rule hook_worker_index [OF built at])
  let ?v = "snd (sv_workers s ! i)"
  have new: "?v = new_worker (w_options ?v)" using service_invD(3) [OF inv at] by (simp add: hook_worker_fine_def)
  then have pc: "w_pc ?v = Not_started" and stop: "w_stop ?v = Not_stopping" and trace: "w_trace ?v = []"
    by (metis new_worker_def worker.select_convs)+
  have step: "worker_step ?v (worker_start ?v)" by (rule worker_step.start [OF pc stop])
  have started: "w_options (worker_start ?v) = w_options ?v" "w_stop (worker_start ?v) = w_stop ?v" "w_trace (worker_start ?v) = []"
    "w_pc (worker_start ?v) \<noteq> Not_started" using trace next_pc_live by (simp_all add: worker_start_def)
  show ?thesis
  proof (rule service_inv_worker [OF inv _ i, where w = "worker_start ?v"])
    let ?s = "hook_done (set_worker i (worker_start ?v) s)"
    show "same_but_worker i (worker_start ?v) s ?s" by (simp add: same_but_worker_def set_worker_def hook_done_def)
    show "w_options (worker_start ?v) = w_options ?v" by (rule started)
    show "worker_fine (sv_readiness s) (worker_start ?v)"
      using service_invD(4) [OF inv i] worker_reach.step [OF _ step] started by (simp add: worker_fine_def wait_marks_def)
    show "readiness_follows kube ?s"
      using service_invD(2) [OF inv] at ph by (simp add: readiness_follows_def set_worker_def hook_done_def hook_names_take)
    show "hook_worker_fine ?s j (worker_start ?v)" if "j < length (sv_hooks s)" "sv_hooks s ! j = Worker_hook i" for j
      using hook_unique [OF built that(1) at(1) that(2) at(2)] started ph stop
      by (simp add: hook_worker_fine_def hook_done_def set_worker_def)
    show "hook_worker_fine ?s j v" if "sv_hooks s ! j = Worker_hook i'" "i' \<noteq> i" "hook_worker_fine s j v" for j i' v
    proof -
      have "j \<noteq> sv_started s" using that(1,2) at(2) by auto
      with that(3) show ?thesis by (simp add: hook_worker_fine_def hook_done_def set_worker_def less_Suc_eq)
    qed
    show "k \<le> sv_started ?s" if "sv_phase ?s = Stopping_hooks k" for k using that ph by (simp add: hook_done_def set_worker_def)
  qed
qed

lemma service_inv_stops_worker:
  assumes inv: "service_inv kube es s" and ph: "sv_phase s = Stopping_hooks (Suc k)" and at: "sv_hooks s ! k = Worker_hook i"
    and step: "worker_step (snd (sv_workers s ! i)) w" and same: "w_options w = w_options (snd (sv_workers s ! i))"
      "w_trace w = w_trace (snd (sv_workers s ! i))" "w_pc w = w_pc (snd (sv_workers s ! i))"
    and k': "k' = Suc k \<and> w_stop w = Stopping \<or> k' = k \<and> (w_stop w = Stopped_gracefully \<or> w_stop w = Stop_timed_out)"
  shows "service_inv kube es ((set_worker i w s)\<lparr>sv_phase := Stopping_hooks k'\<rparr>)"
proof -
  note built = service_invD(1) [OF inv]
  have started: "k < sv_started s" using service_invD(5) [OF inv ph] by simp
  then have k: "k < length (sv_hooks s)" using service_invD(6) [OF inv] by simp
  have i: "i < length (sv_workers s)" by (rule hook_worker_index [OF built k at])
  show ?thesis
  proof (rule service_inv_worker [OF inv _ i, where w = w])
    let ?s = "(set_worker i w s)\<lparr>sv_phase := Stopping_hooks k'\<rparr>"
    show "same_but_worker i w s ?s" by (simp add: same_but_worker_def set_worker_def)
    show "w_options w = w_options (snd (sv_workers s ! i))" by (rule same)
    show "worker_fine (sv_readiness s) w"
      using service_invD(4) [OF inv i] worker_reach.step [OF _ step] same by (simp add: worker_fine_def wait_marks_def)
    show "readiness_follows kube ?s"
      using service_invD(2) [OF inv] by (simp add: readiness_follows_def set_worker_def)
    show "hook_worker_fine ?s j w" if "j < length (sv_hooks s)" "sv_hooks s ! j = Worker_hook i"
      "hook_worker_fine s j (snd (sv_workers s ! i))" for j
      using hook_unique [OF built that(1) k that(2) at] that(3) started same k' by (auto simp: hook_worker_fine_def set_worker_def)
    show "hook_worker_fine ?s j v" if "sv_hooks s ! j = Worker_hook i'" "i' \<noteq> i" "hook_worker_fine s j v" for j i' v
    proof -
      have "j \<noteq> k" using that(1,2) at by auto
      with that(3) ph k' show ?thesis by (auto simp: hook_worker_fine_def set_worker_def split: if_splits)
    qed
    show "k'' \<le> sv_started ?s" if "sv_phase ?s = Stopping_hooks k''" for k''
      using that k' started by (auto simp: set_worker_def)
  qed
qed

text \<open>A hook of a worker is not the one of the component that starts.\<close>

lemma hook_worker_component:
  assumes "hook_worker_fine s j w" and "sv_hooks s ! j = Worker_hook i" and "sv_hooks s ! sv_started s = Component_hook m"
    and "sv_phase s = Starting"
  shows "hook_worker_fine (hook_done (s\<lparr>sv_readiness := r\<rparr>)) j w"
proof -
  have "j \<noteq> sv_started s" using assms(2,3) by auto
  with assms(1) show ?thesis by (simp add: hook_worker_fine_def hook_done_def less_Suc_eq)
qed

lemma service_inv_phase:
  assumes inv: "service_inv kube es s" and phase: "p = Start_failed \<and> sv_phase s = Starting
      \<or> p = Started \<and> sv_phase s = Starting \<and> sv_started s = length (sv_hooks s)
      \<or> p = Stopping_hooks (sv_started s) \<and> (sv_phase s = Start_failed \<or> sv_phase s = Started)
      \<or> (\<exists>k m. p = Stopping_hooks k \<and> sv_phase s = Stopping_hooks (Suc k) \<and> sv_hooks s ! k = Component_hook m)"
    and r: "r = sv_readiness s"
  shows "service_inv kube es (s\<lparr>sv_readiness := r, sv_phase := p\<rparr>)"
proof (rule service_inv_readiness [OF inv])
  let ?s = "s\<lparr>sv_readiness := r, sv_phase := p\<rparr>"
  show "readiness_follows kube ?s"
    using service_invD(2) [OF inv] phase r by (auto simp: readiness_follows_def)
  show "hook_worker_fine ?s j w" if "j < length (sv_hooks s)" "sv_hooks s ! j = Worker_hook i" "hook_worker_fine s j w" for j i w
    using that phase by (auto simp: hook_worker_fine_def less_Suc_eq split: if_splits)
  show "k \<le> sv_started ?s" if "sv_phase ?s = Stopping_hooks k" for k
    using that phase service_invD(5) [OF inv] by fastforce
qed (simp_all add: r)

lemma service_inv_pending:
  assumes inv: "service_inv kube es s" and follows: "readiness_follows kube (s\<lparr>sv_readiness := r, sv_pending := k\<rparr>)"
    and "is_ready (sv_readiness s) \<longrightarrow> is_ready r" and "k8s_closed (sv_readiness s) \<longrightarrow> k8s_closed r"
  shows "service_inv kube es (s\<lparr>sv_readiness := r, sv_pending := k\<rparr>)"
  by (rule service_inv_readiness [OF inv _ _ follows]) (use assms service_invD(5) [OF inv] in \<open>auto simp: hook_worker_fine_def\<close>)

lemma service_inv_step:
  assumes inv: "service_inv kube es s" and step: "service_step s s'"
  shows "service_inv kube es s'"
  using step
proof cases
  case (component_starts m now r)
  note fol = follows_component [OF service_invD(2) [OF inv] component_starts(3,4,2,5)]
  show ?thesis
    unfolding component_starts(1)
    by (rule service_inv_readiness [OF inv _ _ fol(1)])
      (use fol(2,3) component_starts(2) hook_worker_component [OF _ _ component_starts(4,2)] in \<open>simp_all add: hook_done_def\<close>)
next
  case (component_fails m now e r)
  then have "r = sv_readiness s" by (simp add: finish_hook_def)
  with component_fails service_inv_phase [OF inv, of Start_failed r] show ?thesis by simp
next
  case (worker_starts i)
  with service_inv_starts_worker [OF inv] show ?thesis by simp
next
  case start_aborts
  with service_inv_phase [OF inv, of Start_failed "sv_readiness s"] show ?thesis by simp
next
  case start_ends
  with service_inv_phase [OF inv, of Started "sv_readiness s"] show ?thesis by simp
next
  case (worker_waits i p\<^sub>1 p\<^sub>2 w)
  from service_inv_goroutine [OF inv worker_waits(2) goroutine_waits_step [OF worker_waits(3) service_invD(4) [OF inv worker_waits(2)]],
      of "sv_shutdown s"] worker_waits(1)
  show ?thesis by (simp add: set_worker_def)
next
  case (worker_works i res w)
  from service_inv_goroutine [OF inv worker_works(2) goroutine_works_step [OF worker_works(3) service_invD(4) [OF inv worker_works(2)]]]
    worker_works(1)
  show ?thesis by simp
next
  case probe_checks
  have "is_ready (sv_readiness s)" using probe_checks(2) by (simp add: traffic_check_def split: if_splits)
  with service_inv_pending [OF inv, where r = "sv_readiness s" and k = "Suc (sv_pending s)"] service_invD(2) [OF inv] probe_checks(1)
  show ?thesis by (simp add: readiness_follows_def)
next
  case (probe_commits k now r)
  have fol: "readiness_follows kube s" by (rule service_invD(2) [OF inv])
  then have ready: "is_ready (sv_readiness s)" using probe_commits(2) by (simp add: readiness_follows_def)
  from fol commit_registered [OF _ ready probe_commits(3)]
  have "registered r (hook_names (sv_hooks s)) (hook_names (take (sv_started s) (sv_hooks s)))" "is_ready r" "k8s_closed r"
    "in_kubernetes r = in_kubernetes (sv_readiness s)" by (auto simp: readiness_follows_def)
  with service_inv_pending [OF inv, where r = r and k = k] fol probe_commits(1) show ?thesis by (simp add: readiness_follows_def)
next
  case app_stops
  with service_inv_phase [OF inv, of "Stopping_hooks (sv_started s)" "sv_readiness s"] show ?thesis by simp
next
  case (component_stops k m)
  with service_inv_phase [OF inv, of "Stopping_hooks k" "sv_readiness s"] show ?thesis by simp
next
  case (worker_stop_begins k i)
  have "worker_step (snd (sv_workers s ! i)) (stop_begins (snd (sv_workers s ! i)))"
    unfolding stop_begins_def by (rule worker_step.stop) (rule worker_stop_begins(4))
  note stops = service_inv_stops_worker [OF inv worker_stop_begins(2,3) this, of "Suc k"]
  have "s' = (set_worker i (stop_begins (snd (sv_workers s ! i))) s)\<lparr>sv_phase := Stopping_hooks (Suc k)\<rparr>"
    using worker_stop_begins(1,2) by (cases s) (simp add: set_worker_def)
  with stops show ?thesis by (simp add: stop_begins_def)
next
  case (worker_stop_ends k i w st)
  have "worker_step (snd (sv_workers s ! i)) (w\<lparr>w_stop := st\<rparr>)"
    using worker_stop_ends worker_step.stop_done [of w] worker_step.stop_timeout [of w] by auto
  from service_inv_stops_worker [OF inv worker_stop_ends(2,3) this, of k] worker_stop_ends
  show ?thesis by auto
qed

lemma service_reach_inv: "service_reach kube es s \<Longrightarrow> service_inv kube es s"
proof (induction rule: service_reach.induct)
  case (built now s)
  have b: "built_from es s" and f: "fresh_service kube s" using built_service [OF built] by auto
  have "worker_fine r w" if "w = new_worker (w_options w)" for r w
    using that worker_reach.init [of "w_options w"] by (metis new_worker_def worker.select_convs(5) worker_fine_def wait_marks_def
        empty_iff empty_set)
  moreover have "snd (sv_workers s ! i) = new_worker (w_options (snd (sv_workers s ! i)))"
    if "j < length (sv_hooks s)" "sv_hooks s ! j = Worker_hook i" for j i
    using f nth_mem [OF hook_worker_index [OF b that]] by (auto simp: fresh_service_def case_prod_beta)
  ultimately show ?case
    using b f by (auto simp: service_inv_def fresh_service_def readiness_follows_def hook_worker_fine_def)
qed (rule service_inv_step)

subsection \<open>Workers wait for the components\<close>

lemma all_ready_started:
  assumes inv: "service_inv kube es s" and ready: "is_ready (sv_readiness s)" and c: "Component c \<in> set es"
  shows "\<exists>j < sv_started s. es ! j = Component c"
proof -
  have all2: "list_all2 (entry_hook (worker_kinds s)) es (sv_hooks s)" and "c \<in> hook_names (sv_hooks s)"
    using service_invD(1) [OF inv] c by (auto simp: built_from_def)
  then have "c \<in> hook_names (take (sv_started s) (sv_hooks s))"
    using service_invD(2) [OF inv] ready by (auto simp: readiness_follows_def registered_def)
  then obtain j where j: "j < sv_started s" "j < length (sv_hooks s)" "sv_hooks s ! j = Component_hook (Marker c)"
    by (auto simp: hook_names_def in_set_conv_nth)
  with all2 have "entry_hook (worker_kinds s) (es ! j) (Component_hook (Marker c))" by (metis list_all2_nthD2)
  then have "es ! j = Component c" by (cases "es ! j") auto
  with j(1) show ?thesis by blast
qed

lemma run_ran_waited:
  "Ran res \<in> set (fst (worker_run opts ready traffic work)) \<Longrightarrow>
     (wait_for_ready opts \<longrightarrow> Waited_ready None \<in> set (fst (worker_run opts ready traffic work)))
     \<and> (wait_for_traffic opts \<longrightarrow> Waited_traffic None \<in> set (fst (worker_run opts ready traffic work)))"
  by (auto simp: step_defs split: option.splits if_splits)

lemma worker_ran_waited:
  assumes "worker_reach opts w" and "Ran res \<in> set (w_trace w)"
  shows "(wait_for_ready opts \<longrightarrow> Waited_ready None \<in> set (w_trace w)) \<and> (wait_for_traffic opts \<longrightarrow> Waited_traffic None \<in> set (w_trace w))"
proof -
  have "pc_inv (w_pc w) opts (w_trace w)" using worker_reach_inv [OF assms(1)] by (simp add: worker_inv_def)
  moreover have ?thesis if "\<exists>ready traffic work. worker_run opts ready traffic work = (w_trace w, True)"
    using that assms(2) run_ran_waited by (metis fst_conv)
  ultimately show ?thesis
    using assms(2) by (cases "w_pc w") (auto simp: prefix_defs)
qed

lemma worker_kind:
  assumes built: "built_from es s" and mem: "(n, w) \<in> set (sv_workers s)"
  shows "\<exists>opts. Background n opts \<in> set es \<and> w_options w = run_worker_options opts"
proof -
  obtain i where i: "i < length (sv_workers s)" "sv_workers s ! i = (n, w)" using mem by (auto simp: in_set_conv_nth)
  then obtain j where j: "j < length (sv_hooks s)" "sv_hooks s ! j = Worker_hook i"
    using built by (metis built_from_def in_set_conv_nth)
  have len: "j < length es" using built j(1) unfolding built_from_def by (metis list_all2_lengthD)
  have "entry_hook (worker_kinds s) (es ! j) (Worker_hook i)"
    using built j by (metis built_from_def list_all2_nthD2)
  with i nth_mem [OF len] show ?thesis by (cases "es ! j") (auto simp: worker_kinds_def)
qed

lemma module_options:
  "Background n opts \<in> set outbox_entries \<Longrightarrow> opts = [with_traffic_ready]"
  "Background n opts \<in> set tenant_entries \<Longrightarrow> n = ''tenant-cleanup'' \<and> opts = [with_ready]"
  "Background n opts \<in> set (consumer_entries conf) \<Longrightarrow> n \<noteq> ''deserializer'' \<Longrightarrow> n \<noteq> ''processor'' \<Longrightarrow>
     opts = [with_traffic_ready, with_shutdown]"
  by (auto simp: outbox_entries_def tenant_entries_def consumer_entries_def)

lemma options_wait:
  "wait_for_traffic (run_worker_options [with_traffic_ready])" "wait_for_ready (run_worker_options [with_ready])"
  "wait_for_traffic (run_worker_options [with_traffic_ready, with_shutdown])"
  by (simp_all add: run_worker_options_def with_ready_def with_traffic_ready_def with_shutdown_def)

text \<open>
  C16. In a service made of the outbox, any consumers, the tenants' module and any other components, built in any order, no outbox
  worker, no reader and no tenant cleanup runs its function before the start hook of every component of the service, those started after
  the worker included, has succeeded; in Kubernetes the outbox workers and the readers have moreover waited for the first
  successful readiness probe. This holds under every interleaving of start hooks, goroutines, probes and stop; after a
  start that failed they never run.
\<close>

theorem workers_wait_for_components:
  assumes entries: "set es \<subseteq> set (outbox_entries @ tenant_entries @ concat (map consumer_entries consumers)) \<union> range Component"
    and reach: "service_reach kube es s" and mem: "(n, w) \<in> set (sv_workers s)" and ran: "Ran res \<in> set (w_trace w)"
    and n: "n \<noteq> ''deserializer''" "n \<noteq> ''processor''"
  shows "(\<forall>c. Component c \<in> set es \<longrightarrow> (\<exists>j < sv_started s. es ! j = Component c))
    \<and> (kube \<and> n \<noteq> ''tenant-cleanup'' \<longrightarrow> k8s_closed (sv_readiness s))"
proof -
  note inv = service_reach_inv [OF reach]
  obtain opts where opts: "Background n opts \<in> set es" "w_options w = run_worker_options opts"
    using worker_kind [OF service_invD(1) [OF inv] mem] by blast
  have kind: "n = ''tenant-cleanup'' \<and> wait_for_ready (w_options w) \<or> wait_for_traffic (w_options w)"
    using subsetD [OF entries opts(1)] n module_options options_wait unfolding opts(2) by fastforce
  have fine: "worker_fine (sv_readiness s) w" using inv mem by (auto simp: service_inv_def)
  then have waited: "is_ready (sv_readiness s) \<and> (n = ''tenant-cleanup'' \<or> (in_kubernetes (sv_readiness s) \<longrightarrow> k8s_closed (sv_readiness s)))"
    using worker_ran_waited [of "w_options w" w res] ran kind by (auto simp: worker_fine_def wait_marks_def)
  moreover have "in_kubernetes (sv_readiness s) = kube" using service_invD(2) [OF inv] by (simp add: readiness_follows_def)
  ultimately show ?thesis using all_ready_started [OF inv] by blast
qed

subsection \<open>Every worker can get to its function\<close>

definition on_its_way :: "worker \<Rightarrow> bool" where
  "on_its_way w \<longleftrightarrow> w_pc w \<in> {Not_started, At_ready, At_traffic, At_work}"

lemma reach_steps: "service_step\<^sup>*\<^sup>* s s' \<Longrightarrow> service_reach kube es s \<Longrightarrow> service_reach kube es s'"
  by (induction rule: rtranclp_induct) (auto intro: service_reach.step)

lemma finish_total:
  assumes "registered r names done" and "\<forall>n. m = Marker n \<longrightarrow> n \<in> names"
  shows "\<exists>r'. finish_hook now m None r = Inr (None, r')"
  using assms mark_registered [of r names "done" _ now] by (cases m) (auto simp: finish_hook_def)

text \<open>The next hook runs without a panic, and no goroutine loses its way.\<close>

lemma next_hook_starts:
  assumes reach: "service_reach kube es s" and ph: "sv_phase s = Starting" and at: "sv_started s < length (sv_hooks s)"
    and i: "i < length (sv_workers s)" "on_its_way (snd (sv_workers s ! i))"
  shows "\<exists>s'. service_step s s' \<and> sv_phase s' = Starting \<and> sv_started s' = Suc (sv_started s) \<and> sv_hooks s' = sv_hooks s
    \<and> i < length (sv_workers s') \<and> on_its_way (snd (sv_workers s' ! i))"
proof (cases "sv_hooks s ! sv_started s")
  case (Component_hook m)
  have fol: "readiness_follows kube s" by (rule service_invD(2) [OF service_reach_inv [OF reach]])
  then have "registered (sv_readiness s) (hook_names (sv_hooks s)) (hook_names (take (sv_started s) (sv_hooks s)))"
    by (simp add: readiness_follows_def)
  from finish_total [OF this component_known [OF fol at Component_hook]]
  obtain r where "finish_hook now m None (sv_readiness s) = Inr (None, r)" by blast
  from service_step.component_starts [OF ph at Component_hook this] ph i show ?thesis
    by (intro exI [where x = "hook_done (s\<lparr>sv_readiness := r\<rparr>)"]) (simp add: hook_done_def)
next
  case (Worker_hook k)
  have "on_its_way (worker_start w)" for w
    by (simp add: on_its_way_def worker_start_def next_pc_ready_def next_pc_traffic_def)
  with service_step.worker_starts [OF ph at Worker_hook] ph i show ?thesis
    by (intro exI [where x = "hook_done (set_worker k (worker_start (snd (sv_workers s ! k))) s)"], cases "i = k")
      (simp_all add: hook_done_def set_worker_def)
qed

lemma start_completes:
  assumes "service_reach kube es s" and "sv_phase s = Starting"
    and "i < length (sv_workers s)" and "on_its_way (snd (sv_workers s ! i))"
  shows "\<exists>s'. service_step\<^sup>*\<^sup>* s s' \<and> sv_phase s' = Started \<and> i < length (sv_workers s') \<and> on_its_way (snd (sv_workers s' ! i))"
  using assms
proof (induction "length (sv_hooks s) - sv_started s" arbitrary: s)
  case 0
  then have "sv_started s = length (sv_hooks s)" using service_invD(6) [OF service_reach_inv [OF 0(2)]] by simp
  from service_step.start_ends [OF 0(3) this] 0 show ?case
    by (intro exI [where x = "s\<lparr>sv_phase := Started\<rparr>"]) (auto simp: r_into_rtranclp)
next
  case (Suc n)
  then have "sv_started s < length (sv_hooks s)" by simp
  from next_hook_starts [OF Suc(3,4) this Suc(5,6)] obtain s1 where
    s1: "service_step s s1" "sv_phase s1 = Starting" "sv_started s1 = Suc (sv_started s)" "sv_hooks s1 = sv_hooks s"
    "i < length (sv_workers s1)" "on_its_way (snd (sv_workers s1 ! i))" by blast
  have "n = length (sv_hooks s1) - sv_started s1" using Suc(2) s1(3,4) by simp
  from Suc(1) [OF this service_reach.step [OF Suc(3) s1(1)] s1(2,5,6)] s1(1) show ?case
    by (meson converse_rtranclp_into_rtranclp)
qed

text \<open>A started service with a component is ready, and a probe opens the traffic.\<close>

lemma started_is_ready:
  assumes inv: "service_inv kube es s" and ph: "sv_phase s = Started" and c: "Component c \<in> set es"
  shows "is_ready (sv_readiness s)"
proof -
  have "c \<in> hook_names (sv_hooks s)" using service_invD(1) [OF inv] c by (simp add: built_from_def)
  then show ?thesis using service_invD(2) [OF inv] ph by (auto simp: readiness_follows_def registered_def)
qed

definition open_for_work :: "service \<Rightarrow> bool" where
  "open_for_work s \<longleftrightarrow> sv_phase s = Started \<and> is_ready (sv_readiness s) \<and> (in_kubernetes (sv_readiness s) \<longrightarrow> k8s_closed (sv_readiness s))"

lemma probe_opens:
  assumes inv: "service_inv kube es s" and ph: "sv_phase s = Started" and ready: "is_ready (sv_readiness s)"
  shows "\<exists>s'. service_step\<^sup>*\<^sup>* s s' \<and> open_for_work s' \<and> sv_workers s' = sv_workers s"
proof (cases "k8s_closed (sv_readiness s)")
  case True
  with ph ready show ?thesis by (intro exI [where x = s]) (simp add: open_for_work_def)
next
  case False
  let ?s1 = "s\<lparr>sv_pending := Suc (sv_pending s)\<rparr>"
  have reg: "registered (sv_readiness s) (hook_names (sv_hooks s)) (hook_names (take (sv_started s) (sv_hooks s)))"
    using service_invD(2) [OF inv] by (simp add: readiness_follows_def)
  then have ri: "readiness_inv (sv_readiness s)" by (simp add: registered_def)
  obtain r where commit: "traffic_commit now (sv_readiness s) = Inr r" using traffic_commit_eq [OF ri, of now] by blast
  have "traffic_check (sv_readiness s)" using False ready by (simp add: traffic_check_def)
  then have "service_step s ?s1" by (rule service_step.probe_checks)
  moreover have "service_step ?s1 (?s1\<lparr>sv_readiness := r, sv_pending := sv_pending s\<rparr>)"
    using commit by (intro service_step.probe_commits [where now = now]) simp_all
  ultimately have "service_step\<^sup>*\<^sup>* s (?s1\<lparr>sv_readiness := r, sv_pending := sv_pending s\<rparr>)" by simp
  moreover have "open_for_work (?s1\<lparr>sv_readiness := r, sv_pending := sv_pending s\<rparr>)"
    using commit_registered [OF reg ready commit] ph by (simp add: open_for_work_def)
  ultimately show ?thesis by (intro exI [where x = "?s1\<lparr>sv_readiness := r, sv_pending := sv_pending s\<rparr>"]) simp
qed

lemma set_worker_fields:
  "sv_phase (set_worker i w s) = sv_phase s" "sv_readiness (set_worker i w s) = sv_readiness s"
  "sv_hooks (set_worker i w s) = sv_hooks s" "sv_started (set_worker i w s) = sv_started s"
  "length (sv_workers (set_worker i w s)) = length (sv_workers s)"
  "i < length (sv_workers s) \<Longrightarrow> snd (sv_workers (set_worker i w s) ! i) = w"
  by (simp_all add: set_worker_def)

lemma traffic_passes:
  assumes opened: "open_for_work s" and i: "i < length (sv_workers s)" and pc: "w_pc (snd (sv_workers s ! i)) \<in> {At_traffic, At_work}"
  shows "\<exists>s'. service_step\<^sup>*\<^sup>* s s' \<and> sv_phase s' = Started \<and> w_pc (snd (sv_workers s' ! i)) = At_work"
proof (cases "w_pc (snd (sv_workers s ! i)) = At_work")
  case True
  with opened show ?thesis by (auto simp: open_for_work_def)
next
  case False
  let ?w = "snd (sv_workers s ! i)"
  have "wait_for_traffic_ready 0 (worker_ctx ?w) (sv_readiness s) 0 (worker_ctx ?w) (sv_readiness s) = Some None"
    using opened by (simp add: open_for_work_def wait_for_traffic_ready_def wait_ready_def go_select_def is_ready_def)
  then have "goroutine_waits 0 0 (sv_readiness s) ?w = Some (worker_goto [Waited_traffic None] At_work ?w)"
    using pc False by (simp add: goroutine_waits_def)
  from service_step.worker_waits [OF i this] i opened show ?thesis
    by (intro exI [where x = "set_worker i (worker_goto [Waited_traffic None] At_work ?w) s"])
      (simp add: set_worker_fields goto_facts open_for_work_def r_into_rtranclp)
qed

lemma waits_pass:
  assumes opened: "open_for_work s" and i: "i < length (sv_workers s)" and way: "on_its_way (snd (sv_workers s ! i))"
    and live: "w_pc (snd (sv_workers s ! i)) \<noteq> Not_started"
  shows "\<exists>s'. service_step\<^sup>*\<^sup>* s s' \<and> sv_phase s' = Started \<and> w_pc (snd (sv_workers s' ! i)) = At_work"
proof (cases "w_pc (snd (sv_workers s ! i)) = At_ready")
  case False
  with way live traffic_passes [OF opened i] show ?thesis by (auto simp: on_its_way_def)
next
  case True
  let ?w = "snd (sv_workers s ! i)"
  let ?w' = "worker_goto [Waited_ready None] (next_pc_traffic (w_options ?w)) ?w"
  have "wait_ready 0 (worker_ctx ?w) (sv_readiness s) = Some None"
    using opened by (simp add: open_for_work_def wait_ready_def go_select_def is_ready_def)
  then have "goroutine_waits 0 0 (sv_readiness s) ?w = Some ?w'"
    using True by (simp add: goroutine_waits_def)
  from service_step.worker_waits [OF i this] have step: "service_step s (set_worker i ?w' s)" .
  have "open_for_work (set_worker i ?w' s)" "i < length (sv_workers (set_worker i ?w' s))"
    "w_pc (snd (sv_workers (set_worker i ?w' s) ! i)) \<in> {At_traffic, At_work}"
    using opened i by (simp_all add: open_for_work_def set_worker_fields goto_facts next_pc_traffic_def)
  from traffic_passes [OF this] step show ?thesis by (meson converse_rtranclp_into_rtranclp)
qed

lemma service_works:
  assumes reach: "service_reach kube es s" and ph: "sv_phase s = Starting \<or> sv_phase s = Started" and c: "Component c \<in> set es"
    and i: "i < length (sv_workers s)" "on_its_way (snd (sv_workers s ! i))"
  shows "\<exists>s'. service_step\<^sup>*\<^sup>* s s' \<and> sv_phase s' = Started \<and> w_pc (snd (sv_workers s' ! i)) = At_work"
proof -
  obtain s1 where s1: "service_step\<^sup>*\<^sup>* s s1" "sv_phase s1 = Started" "i < length (sv_workers s1)" "on_its_way (snd (sv_workers s1 ! i))"
    using ph start_completes [OF reach _ i] i by blast
  note reach1 = reach_steps [OF s1(1) reach]
  note inv1 = service_reach_inv [OF reach1]
  obtain s2 where s2: "service_step\<^sup>*\<^sup>* s1 s2" "open_for_work s2" "sv_workers s2 = sv_workers s1"
    using probe_opens [OF inv1 s1(2) started_is_ready [OF inv1 s1(2) c]] by blast
  obtain j where j: "j < length (sv_hooks s1)" "sv_hooks s1 ! j = Worker_hook i"
    using service_invD(1) [OF inv1] s1(3) by (metis built_from_def in_set_conv_nth)
  have "j < sv_started s1" using service_invD(2) [OF inv1] s1(2) j(1) by (simp add: readiness_follows_def)
  then have "w_pc (snd (sv_workers s2 ! i)) \<noteq> Not_started"
    using service_invD(3) [OF inv1 j] by (simp add: hook_worker_fine_def s2(3))
  from waits_pass [OF s2(2) _ _ this] s1(3,4) s2(3) obtain s3 where
    "service_step\<^sup>*\<^sup>* s2 s3" "sv_phase s3 = Started" "w_pc (snd (sv_workers s3 ! i)) = At_work" by auto
  with s1(1) s2(1) show ?thesis by (meson rtranclp_trans)
qed

lemma build_total: "\<forall>c. Component c \<in> set es \<longrightarrow> c \<noteq> [] \<Longrightarrow> \<exists>s'. build_service now es s = Inr s'"
proof (induction es arbitrary: s)
  case (Cons e es)
  have "\<exists>s1. append_entry now e s = Inr s1"
    using Cons.prems by (cases e) (auto simp: add_component_def)
  then obtain s1 where "append_entry now e s = Inr s1" by blast
  with Cons.IH [of s1] Cons.prems show ?case by simp
qed simp

text \<open>
  C17. Building a service never panics when its components have names, and nothing it does leaves it stuck: from every state that is
  starting or started the remaining hooks can all run and a probe can open the traffic, without a panic, and any worker that has not left
  its waits with an error can get to its function, whatever it waits for, provided at least one component is registered.
\<close>

theorem service_gets_to_work:
  assumes names: "\<forall>c. Component c \<in> set es \<longrightarrow> c \<noteq> []" and c: "\<exists>c. Component c \<in> set es"
  shows "(\<exists>s. build_service now es (new_service kube) = Inr s)
    \<and> (\<forall>s i. service_reach kube es s \<and> (sv_phase s = Starting \<or> sv_phase s = Started)
          \<and> i < length (sv_workers s) \<and> on_its_way (snd (sv_workers s ! i)) \<longrightarrow>
        (\<exists>s'. service_step\<^sup>*\<^sup>* s s' \<and> sv_phase s' = Started \<and> w_pc (snd (sv_workers s' ! i)) = At_work))"
  using build_total [OF names] c service_works by blast

definition demo_entries :: "module_entry list" where
  "demo_entries = Component ''mongo-module'' # outbox_entries"

lemma demo_entries_names: "\<forall>c. Component c \<in> set demo_entries \<longrightarrow> c \<noteq> []"
  by (simp add: demo_entries_def outbox_entries_def)

lemma demo_service: "\<exists>s. build_service now demo_entries (new_service kube) = Inr s \<and> length (sv_workers s) = 3
    \<and> sv_phase s = Starting \<and> sv_workers s ! 0 = (''outbox-fetcher'', new_worker (run_worker_options [with_traffic_ready]))"
  by (simp add: demo_entries_def outbox_entries_def run_worker_def Let_def new_service_def add_component_def new_readiness_def)

lemma service_gets_to_work_witness:
  "\<exists>s s'. service_reach True demo_entries s \<and> service_step\<^sup>*\<^sup>* s s' \<and> w_pc (snd (sv_workers s' ! 0)) = At_work"
proof -
  have c: "\<exists>c. Component c \<in> set demo_entries" by (auto simp: demo_entries_def)
  obtain s where s: "build_service 0 demo_entries (new_service True) = Inr s" "length (sv_workers s) = 3" "sv_phase s = Starting"
    "sv_workers s ! 0 = (''outbox-fetcher'', new_worker (run_worker_options [with_traffic_ready]))" using demo_service by blast
  have "on_its_way (snd (sv_workers s ! 0))" by (simp add: s(4) on_its_way_def new_worker_def)
  with service_gets_to_work [OF demo_entries_names c, of 0 True] service_reach.built [OF s(1)] s(2,3)
  show ?thesis by fastforce
qed

lemma set_worker_names: "map fst (sv_workers (set_worker i w s)) = map fst (sv_workers s)"
  by (cases "i < length (sv_workers s)") (simp_all add: set_worker_def map_update list_update_same_conv list_update_beyond)

lemma step_names: "service_step s s' \<Longrightarrow> map fst (sv_workers s') = map fst (sv_workers s)"
  by (erule service_stepE) (simp_all add: hook_done_def set_worker_names)

lemma steps_names: "service_step\<^sup>*\<^sup>* s s' \<Longrightarrow> map fst (sv_workers s') = map fst (sv_workers s)"
  by (induction rule: rtranclp_induct) (auto dest: step_names)

lemma demo_runs: "\<exists>s w. service_reach True demo_entries s \<and> (''outbox-fetcher'', w) \<in> set (sv_workers s) \<and> Ran None \<in> set (w_trace w)"
proof -
  obtain s where s: "build_service 0 demo_entries (new_service True) = Inr s" "length (sv_workers s) = 3" "sv_phase s = Starting"
    "sv_workers s ! 0 = (''outbox-fetcher'', new_worker (run_worker_options [with_traffic_ready]))" using demo_service by blast
  have way: "on_its_way (snd (sv_workers s ! 0))" by (simp add: s(4) on_its_way_def new_worker_def)
  have c: "Component ''mongo-module'' \<in> set demo_entries" by (simp add: demo_entries_def)
  have reach: "service_reach True demo_entries s" by (rule service_reach.built [OF s(1)])
  obtain s' where s': "service_step\<^sup>*\<^sup>* s s'" "w_pc (snd (sv_workers s' ! 0)) = At_work"
    using service_works [OF reach _ c _ way] s(2,3) by auto
  have names: "map fst (sv_workers s') = map fst (sv_workers s)" by (rule steps_names [OF s'(1)])
  then have len: "0 < length (sv_workers s')" using s(2) by (metis length_map zero_less_numeral)
  have name: "fst (sv_workers s' ! 0) = ''outbox-fetcher''"
    using names len s(2,4) by (metis fst_conv nth_map zero_less_numeral)
  let ?w = "worker_goto [Ran None] Finished (snd (sv_workers s' ! 0))"
  have "goroutine_works None (snd (sv_workers s' ! 0)) = Some ?w" using s'(2) by (simp add: goroutine_works_def)
  from service_reach.step [OF reach_steps [OF s'(1) reach] service_step.worker_works [OF len this]] len name show ?thesis
    by (intro exI [where x = "(set_worker 0 ?w s')\<lparr>sv_shutdown := sv_shutdown s' \<or> Shutdown_app 1 \<in> set (w_trace ?w)\<rparr>"] exI [where x = ?w])
      (simp add: set_worker_def goto_facts in_set_conv_nth, use len in fastforce)
qed

lemma workers_wait_for_components_witness:
  "\<exists>s w. service_reach True demo_entries s \<and> (''outbox-fetcher'', w) \<in> set (sv_workers s) \<and> Ran None \<in> set (w_trace w)
     \<and> (\<exists>j < sv_started s. demo_entries ! j = Component ''outbox-schema'') \<and> k8s_closed (sv_readiness s)"
proof -
  obtain s w where run: "service_reach True demo_entries s" "(''outbox-fetcher'', w) \<in> set (sv_workers s)" "Ran None \<in> set (w_trace w)"
    using demo_runs by blast
  have "set demo_entries \<subseteq> set (outbox_entries @ tenant_entries @ concat (map consumer_entries [])) \<union> range Component"
    by (auto simp: demo_entries_def)
  from workers_wait_for_components [OF this run] have
    "(\<exists>j < sv_started s. demo_entries ! j = Component ''outbox-schema'') \<and> k8s_closed (sv_readiness s)"
    by (simp add: demo_entries_def outbox_entries_def)
  with run show ?thesis by blast
qed

subsection \<open>Stopping\<close>

lemma not_stopped_live: "worker_reach opts w \<Longrightarrow> w_stop w = Not_stopping \<Longrightarrow> w_cancel w \<noteq> Some True"
proof (induction rule: worker_reach.induct)
  case (step w w')
  from step(2) step(3,4) show ?case
    by (cases rule: worker_step.cases) (auto simp: worker_goto_def Let_def worker_start_def split: if_splits)
qed (simp add: new_worker_def)

text \<open>
  C18. A service is stopped in the reverse order of its start: while the hook before the \<open>k\<close>-th is being stopped every worker started
  later has finished, or its stop has timed out, and no worker started before it has been told to stop. So at the end every worker that was
  started has finished or timed out, after a failed start too.
\<close>

theorem service_stops_in_reverse:
  assumes reach: "service_reach kube es s" and ph: "sv_phase s = Stopping_hooks k"
    and j: "j < sv_started s" "sv_hooks s ! j = Worker_hook i"
  shows "(k \<le> j \<longrightarrow> w_stop (snd (sv_workers s ! i)) = Stopped_gracefully \<and> w_pc (snd (sv_workers s ! i)) = Finished
        \<or> w_stop (snd (sv_workers s ! i)) = Stop_timed_out)
    \<and> (j + 1 < k \<longrightarrow> w_stop (snd (sv_workers s ! i)) = Not_stopping \<and> w_cancel (snd (sv_workers s ! i)) \<noteq> Some True)"
proof -
  note inv = service_reach_inv [OF reach]
  let ?w = "snd (sv_workers s ! i)"
  have len: "j < length (sv_hooks s)" using j(1) service_invD(6) [OF inv] by simp
  have "worker_fine (sv_readiness s) ?w" by (rule service_invD(4) [OF inv hook_worker_index [OF service_invD(1) [OF inv] len j(2)]])
  then have r: "worker_reach (w_options ?w) ?w" by (simp add: worker_fine_def)
  then have graceful: "w_stop ?w = Stopped_gracefully \<Longrightarrow> w_pc ?w \<in> {Not_started, Finished}"
    using worker_reach_inv [OF r] by (simp add: worker_inv_def)
  from service_invD(3) [OF inv len j(2)] ph j(1) graceful not_stopped_live [OF r] show ?thesis
    by (auto simp: hook_worker_fine_def split: if_splits)
qed

text \<open>A service with the tenants' cleanup only, which waits for readiness until it is stopped.\<close>

definition cleanup_service :: "worker \<Rightarrow> nat \<Rightarrow> app_phase \<Rightarrow> service" where
  "cleanup_service w k p = (new_service False)\<lparr>sv_hooks := [Worker_hook 0], sv_workers := [(''tenant-cleanup'', w)],
     sv_started := k, sv_phase := p\<rparr>"

definition stopped_cleanup :: worker where
  "stopped_cleanup = worker_goto [Waited_ready (Some (Sentinel ContextCanceled))] Finished
     (stop_begins (worker_start (new_worker (run_worker_options [with_ready]))))"

lemma cleanup_service_stops:
  "service_reach False tenant_entries (cleanup_service (stopped_cleanup\<lparr>w_stop := Stopped_gracefully\<rparr>) 1 (Stopping_hooks 0))"
proof -
  let ?w0 = "new_worker (run_worker_options [with_ready])"
  let ?w1 = "worker_start ?w0"
  let ?reach = "service_reach False tenant_entries"
  have "build_service 0 tenant_entries (new_service False) = Inr (cleanup_service ?w0 0 Starting)"
    by (simp add: tenant_entries_def run_worker_def cleanup_service_def new_service_def)
  then have "?reach (cleanup_service ?w0 0 Starting)" by (rule service_reach.built)
  then have "?reach (cleanup_service ?w1 1 Starting)"
    by (rule service_reach.step) (use service_step.worker_starts [of "cleanup_service ?w0 0 Starting" 0] in
      \<open>simp add: cleanup_service_def set_worker_def hook_done_def new_service_def\<close>)
  then have "?reach (cleanup_service ?w1 1 Started)"
    by (rule service_reach.step) (use service_step.start_ends [of "cleanup_service ?w1 1 Starting"] in
      \<open>simp add: cleanup_service_def new_service_def\<close>)
  then have "?reach (cleanup_service ?w1 1 (Stopping_hooks 1))"
    by (rule service_reach.step) (use service_step.app_stops [of "cleanup_service ?w1 1 Started"] in
      \<open>simp add: cleanup_service_def new_service_def\<close>)
  then have "?reach (cleanup_service (stop_begins ?w1) 1 (Stopping_hooks 1))"
    by (rule service_reach.step) (use service_step.worker_stop_begins [of "cleanup_service ?w1 1 (Stopping_hooks 1)" 0 0] in
      \<open>simp add: cleanup_service_def new_service_def set_worker_def worker_start_def new_worker_def\<close>)
  moreover have "goroutine_waits 0 0 (new_readiness False) (stop_begins ?w1) = Some stopped_cleanup"
    by (simp add: goroutine_waits_def stop_begins_def worker_start_def new_worker_def next_pc_ready_def run_worker_options_def
        with_ready_def wait_ready_def go_select_def worker_ctx_def new_readiness_def ctx_background_def stopped_cleanup_def)
  ultimately have "?reach (cleanup_service stopped_cleanup 1 (Stopping_hooks 1))"
    using service_step.worker_waits [of 0 "cleanup_service (stop_begins ?w1) 1 (Stopping_hooks 1)" 0 0 stopped_cleanup]
      service_reach.step [of False tenant_entries "cleanup_service (stop_begins ?w1) 1 (Stopping_hooks 1)"]
    by (simp add: cleanup_service_def new_service_def set_worker_def)
  then show ?thesis
    by (rule service_reach.step) (use service_step.worker_stop_ends [of "cleanup_service stopped_cleanup 1 (Stopping_hooks 1)" 0 0
        stopped_cleanup Stopped_gracefully] in
      \<open>simp add: cleanup_service_def new_service_def set_worker_def stopped_cleanup_def stop_begins_def worker_start_def new_worker_def
        worker_goto_def\<close>)
qed

lemma service_stops_in_reverse_witness: "w_pc stopped_cleanup = Finished"
  using service_stops_in_reverse [OF cleanup_service_stops, of 0 0 0]
  by (simp add: cleanup_service_def new_service_def)

end
