(* ===== verification/Service_Loading.thy ===== *)
theory Service_Loading
  imports Kafka_Config Mongo_Config Rpc_Security Http_Client Readiness
begin

section \<open>Loading the configuration of a whole service\<close>

text \<open>
  Every module's \<^verbatim>\<open>fxconfig\<close> loads its section of one koanf by its key. A koanf is a parameter: which keys
  exist, and how the value of a key is decoded into each type of configuration.
\<close>

record koanf =
  kf_exists :: "string \<Rightarrow> bool"
  kf_app :: "string \<Rightarrow> app_config \<Rightarrow> (go_error, app_config) result"
  kf_logger :: "string \<Rightarrow> logger_config \<Rightarrow> (go_error, logger_config) result"
  kf_server :: "string \<Rightarrow> server_config \<Rightarrow> (go_error, server_config) result"
  kf_mongo :: "string \<Rightarrow> mongo_config \<Rightarrow> (go_error, mongo_config) result"
  kf_kafka :: "string \<Rightarrow> kafka_config \<Rightarrow> (go_error, kafka_config) result"
  kf_outbox :: "string \<Rightarrow> duration \<Rightarrow> (go_error, duration) result"
  kf_tenant :: "string \<Rightarrow> bool \<Rightarrow> (go_error, bool) result"
  kf_observability :: "string \<Rightarrow> observability_config \<Rightarrow> (go_error, observability_config) result"
  kf_token :: "string \<Rightarrow> token_config \<Rightarrow> (go_error, token_config) result"
  kf_jwks :: "string \<Rightarrow> jwks_config \<Rightarrow> (go_error, jwks_config) result"

definition kf_source :: "koanf \<Rightarrow> (string \<Rightarrow> 'c \<Rightarrow> (go_error, 'c) result) \<Rightarrow> 'c source" where
  "kf_source k decode = \<lparr>exists_key = kf_exists k, unmarshal = decode\<rparr>"

text \<open>The zero values that the components' theories do not have.\<close>

definition logger_zero :: logger_config where
  "logger_zero = \<lparr>lg_level = [], lg_development = False, lg_parsed = 0\<rparr>"

definition http_client_zero :: http_client_config where
  "http_client_zero = \<lparr>hc_base_url = [], hc_timeout = None, hc_max_idle_per_host = None, hc_idle_timeout = None, hc_max_conn_lifetime = None\<rparr>"

definition token_zero :: token_config where
  "token_zero = \<lparr>tc_enabled = None, tc_client_id = [], tc_client_secret = [], tc_token_url = [], tc_resource = [], tc_scopes = []\<rparr>"

definition jwks_zero :: jwks_config where
  "jwks_zero = \<lparr>jc_enabled = None, jc_jwks_url = [], jc_issuer = [], jc_audience = []\<rparr>"

definition observability_zero :: observability_config where
  "observability_zero = \<lparr>ob_endpoint = [], ob_tracing_enabled = False, ob_sample_ratio = Dyadic 0 0, ob_metrics_enabled = False,
     ob_metrics_interval = 0, ob_profiling = \<lparr>prof_enabled = False, prof_endpoint = [], prof_cpu = None, prof_heap = None,
       prof_goroutines = None, prof_mutex = None, prof_block = None, prof_mutex_fraction = 0, prof_block_rate = 0\<rparr>\<rparr>"

subsection \<open>The sections\<close>

definition load_app_config :: "koanf \<Rightarrow> (go_error, app_config) result" where
  "load_app_config k = load_config app_apply_defaults (validating app_validate) app_config_zero (kf_source k (kf_app k)) [] None"

definition provide_logger_config :: "(string \<Rightarrow> (go_error, int) result) \<Rightarrow> koanf \<Rightarrow> (go_error, logger_config) result" where
  "provide_logger_config parse k =
     load_config logger_apply_defaults (logger_validate parse) logger_zero (kf_source k (kf_logger k)) ''logger'' None"

definition provide_server_config :: "koanf \<Rightarrow> (go_error, server_config) result" where
  "provide_server_config k =
     load_config server_apply_defaults (validating server_validate) server_zero (kf_source k (kf_server k)) ''server'' None"

definition provide_mongo_config :: "koanf \<Rightarrow> (go_error, mongo_config) result" where
  "provide_mongo_config k =
     load_config mongo_apply_defaults (validating mongo_validate) mongo_zero (kf_source k (kf_mongo k)) ''mongo'' None"

definition provide_kafka_config :: "koanf \<Rightarrow> (go_error, kafka_config) result" where
  "provide_kafka_config k =
     load_config kafka_apply_defaults (validating kafka_validate) kafka_zero (kf_source k (kf_kafka k)) ''kafka'' None"

definition provide_outbox_config :: "koanf \<Rightarrow> (go_error, duration) result" where
  "provide_outbox_config k =
     load_config outbox_apply_defaults (validating outbox_validate) 0 (kf_source k (kf_outbox k)) ''outbox'' None"

definition provide_tenant_config :: "koanf \<Rightarrow> (go_error, bool) result" where
  "provide_tenant_config k =
     load_config tenant_apply_defaults (validating tenant_validate) False (kf_source k (kf_tenant k)) ''multi-tenancy'' None"

definition provide_observability_config :: "koanf \<Rightarrow> (go_error, observability_config) result" where
  "provide_observability_config k =
     load_config observability_apply_defaults (validating observability_validate) observability_zero
       (kf_source k (kf_observability k)) ''observability'' None"

definition provide_token_config :: "koanf \<Rightarrow> (go_error, token_config) result" where
  "provide_token_config k =
     load_config token_apply_defaults (validating token_validate) token_zero (kf_source k (kf_token k)) ''security.client-credentials'' None"

definition provide_jwks_config :: "koanf \<Rightarrow> (go_error, jwks_config) result" where
  "provide_jwks_config k =
     load_config jwks_apply_defaults (validating jwks_validate) jwks_zero (kf_source k (kf_jwks k)) ''security.jwks'' None"

lemmas section_defs = load_app_config_def provide_logger_config_def provide_server_config_def provide_mongo_config_def
  provide_kafka_config_def provide_outbox_config_def provide_tenant_config_def provide_observability_config_def
  provide_token_config_def provide_jwks_config_def

subsection \<open>What loading a section gives\<close>

text \<open>A section that fails is named by its error; one that loads is complete and valid.\<close>

definition names_section :: "string \<Rightarrow> go_error \<Rightarrow> bool" where
  "names_section key e \<longleftrightarrow>
     (\<exists>err. e = Wrapf (''failed to load '' @ key @ '' config: '') err [] \<or> e = Wrapf (''invalid '' @ key @ '' config: '') err [])"

lemma load_config_names_section:
  "load_config d v z k key None = Inl e \<Longrightarrow> names_section key e"
  by (cases "key = [] \<or> exists_key k key"; cases "unmarshal k key z"; cases "v (d z)"; cases "v (d (projr (unmarshal k key z)))")
    (auto simp: load_config_def names_section_def)

definition section_checked :: "('c \<Rightarrow> 'c) \<Rightarrow> ('c \<Rightarrow> (go_error, 'c) result) \<Rightarrow> string \<Rightarrow> (go_error, 'c) result \<Rightarrow> bool" where
  "section_checked defaults validate key r \<longleftrightarrow>
     (case r of Inl e \<Rightarrow> names_section key e | Inr c \<Rightarrow> defaults c = c \<and> validate c = Inr c)"

lemma section_checkedI:
  assumes "configurable d v"
  shows "section_checked d v key (load_config d v z k key None)"
proof (cases "load_config d v z k key None")
  case (Inl e)
  then show ?thesis by (simp add: section_checked_def load_config_names_section)
next
  case (Inr c)
  with configurable.loaded_complete [OF assms Inr] show ?thesis by (simp add: section_checked_def)
qed

text \<open>
  Every section of a service's configuration is checked when it is loaded: either its loading fails with an error that
  names the section, or the configuration is complete, that is its defaults change nothing in it, and valid. The source may decode anything.
\<close>

theorem sections_are_checked:
  "section_checked app_apply_defaults (validating app_validate) [] (load_app_config k)
   \<and> section_checked logger_apply_defaults (logger_validate parse) ''logger'' (provide_logger_config parse k)
   \<and> section_checked server_apply_defaults (validating server_validate) ''server'' (provide_server_config k)
   \<and> section_checked mongo_apply_defaults (validating mongo_validate) ''mongo'' (provide_mongo_config k)
   \<and> section_checked kafka_apply_defaults (validating kafka_validate) ''kafka'' (provide_kafka_config k)
   \<and> section_checked outbox_apply_defaults (validating outbox_validate) ''outbox'' (provide_outbox_config k)
   \<and> section_checked tenant_apply_defaults (validating tenant_validate) ''multi-tenancy'' (provide_tenant_config k)
   \<and> section_checked observability_apply_defaults (validating observability_validate) ''observability'' (provide_observability_config k)
   \<and> section_checked token_apply_defaults (validating token_validate) ''security.client-credentials'' (provide_token_config k)
   \<and> section_checked jwks_apply_defaults (validating jwks_validate) ''security.jwks'' (provide_jwks_config k)"
  unfolding section_defs
  by (intro conjI section_checkedI app_cfg.configurable_axioms logger_cfg.configurable_axioms server_cfg.configurable_axioms
      mongo_cfg.configurable_axioms kafka_cfg.configurable_axioms outbox_cfg.configurable_axioms tenant_cfg.configurable_axioms
      observability_cfg.configurable_axioms token_cfg.configurable_axioms jwks_cfg.configurable_axioms)

lemma load_absent:
  "key \<noteq> [] \<Longrightarrow> \<not> kf_exists k key \<Longrightarrow> load_config d v z (kf_source k f) key None =
     (case v (d z) of Inl e \<Rightarrow> Inl (Wrapf (''invalid '' @ key @ '' config: '') e []) | Inr c \<Rightarrow> Inr c)"
  by (simp add: load_config_def kf_source_def)

lemma load_absent_checked:
  "key \<noteq> [] \<Longrightarrow> \<not> kf_exists k key \<Longrightarrow> load_config d (validating check) z (kf_source k f) key None =
     (case check (d z) of Some e \<Rightarrow> Inl (Wrapf (''invalid '' @ key @ '' config: '') e []) | None \<Rightarrow> Inr (d z))"
  by (simp add: load_absent validating_def split: option.splits)

text \<open>
  C38. What a service gets from an empty configuration. The application's own section is refused, for all three of its missing names, and so are
  Kafka's, MongoDB's and the one of any gRPC or HTTP client. The logger, the server, the outbox, multi-tenancy,
  observability and the two security sections load, with multi-tenancy,
  metrics, tracing and profiling off, and the registry of HTTP clients is empty. Authentication is off too: without the section of the
  key set every request passes without a token,
  no validator is built, and outgoing calls carry none.
\<close>

theorem empty_configuration:
  assumes "\<And>key. \<not> kf_exists k key" and "kf_app k [] app_config_zero = Inr app_config_zero" and "parse ''info'' = Inr 0"
  shows "(\<exists>e. errors_join [New_error ''app-service-name is required'', New_error ''app-service-version is required'',
          New_error ''app-env is required''] = Some e \<and> load_app_config k = Inl (Wrapf ''invalid  config: '' e []))
    \<and> provide_kafka_config k = Inl (Wrapf ''invalid kafka config: '' (New_error ''kafka brokers cannot be empty'') [])
    \<and> provide_mongo_config k = Inl (Wrapf ''invalid mongo config: ''
         (New_error ''invalid Mongo configuration: host, port, and database are required'') [])
    \<and> (\<forall>key decode. key \<noteq> [] \<longrightarrow> (\<exists>e. grpc_load_config (kf_source k decode) key = Inl (Wrapf (''load '' @ key @ '' config: '') e [])))
    \<and> (\<forall>name decode. load_config http_client_apply_defaults (validating http_client_validate) http_client_zero (kf_source k decode)
           (''clients.'' @ name) None = Inl (Wrapf (''invalid clients.'' @ name @ '' config: '') (New_error ''base-url is required'') []))
    \<and> new_registry load [] = Inr (Inr [])
    \<and> provide_logger_config parse k = Inr (logger_zero\<lparr>lg_level := ''info''\<rparr>)
    \<and> (\<exists>c. provide_server_config k = Inr c \<and> sv_port c = 8080 \<and> request_timeout c = 0 \<and> \<not> rl_enabled (sv_rate_limit c)
         \<and> \<not> bh_enabled (sv_bulkhead c))
    \<and> provide_outbox_config k = Inr (10 * hour) \<and> provide_tenant_config k = Inr False
    \<and> (\<exists>c. provide_observability_config k = Inr c \<and> \<not> ob_metrics_enabled c \<and> \<not> ob_tracing_enabled c \<and> \<not> prof_enabled (ob_profiling c))
    \<and> (\<exists>c. provide_token_config k = Inr c \<and> provide_token_source c = Inr None)
    \<and> (\<exists>c. provide_jwks_config k = Inr c \<and> provide_token_validator new_keyfunc c = Inr None
         \<and> provide_auth_interceptor c validate perms = no_entry)"
proof (intro conjI)
  show "\<exists>e. errors_join [New_error ''app-service-name is required'', New_error ''app-service-version is required'',
      New_error ''app-env is required''] = Some e \<and> load_app_config k = Inl (Wrapf ''invalid  config: '' e [])"
  proof -
    let ?missing = "Join_errors [New_error ''app-service-name is required'', New_error ''app-service-version is required'',
      New_error ''app-env is required'']"
    have "app_validate (app_apply_defaults app_config_zero) = Some ?missing"
      by (simp add: app_config_zero_def app_apply_defaults_def app_validate_def errors_join_def)
    then have "load_app_config k = Inl (Wrapf ''invalid  config: '' ?missing [])"
      by (simp add: load_app_config_def load_config_def kf_source_def assms(2) validating_def)
    then show ?thesis by (simp add: errors_join_def)
  qed
  show "\<forall>key decode. key \<noteq> [] \<longrightarrow> (\<exists>e. grpc_load_config (kf_source k decode) key = Inl (Wrapf (''load '' @ key @ '' config: '') e []))"
    by (auto simp: grpc_load_config_def load_absent_checked assms(1) grpc_zero_def grpc_validate_def grpc_apply_defaults_def failing_def)
  show "\<forall>name decode. load_config http_client_apply_defaults (validating http_client_validate) http_client_zero (kf_source k decode)
      (''clients.'' @ name) None = Inl (Wrapf (''invalid clients.'' @ name @ '' config: '') (New_error ''base-url is required'') [])"
    by (simp add: load_absent_checked assms(1) http_client_zero_def http_client_validate_def http_client_apply_defaults_def failing_def)
  show "new_registry load [] = Inr (Inr [])" by (simp add: new_registry_def)
  show "provide_kafka_config k = Inl (Wrapf ''invalid kafka config: '' (New_error ''kafka brokers cannot be empty'') [])"
    by (simp add: provide_kafka_config_def load_absent_checked assms(1) kafka_zero_def kafka_validate_def validate_brokers_def
        kafka_apply_defaults_def Let_def failing_def)
  show "provide_mongo_config k = Inl (Wrapf ''invalid mongo config: ''
      (New_error ''invalid Mongo configuration: host, port, and database are required'') [])"
    by (simp add: provide_mongo_config_def load_absent_checked assms(1) mongo_zero_def mongo_validate_def mongo_apply_defaults_def failing_def if_zero_def)
  show "provide_logger_config parse k = Inr (logger_zero\<lparr>lg_level := ''info''\<rparr>)"
    by (simp add: provide_logger_config_def load_absent assms(1,3) logger_zero_def logger_validate_def logger_apply_defaults_def if_empty_def)
  show "\<exists>c. provide_server_config k = Inr c \<and> sv_port c = 8080 \<and> request_timeout c = 0 \<and> \<not> rl_enabled (sv_rate_limit c)
      \<and> \<not> bh_enabled (sv_bulkhead c)"
  proof -
    have "server_validate (server_apply_defaults server_zero) = None"
      by (simp add: server_zero_def cfg_defs Let_def if_not_positive_def if_zero_def)
    then show ?thesis
      by (simp add: provide_server_config_def load_absent_checked assms(1))
        (simp add: server_zero_def server_apply_defaults_def rate_limit_defaults_def bulkhead_defaults_def if_zero_def)
  qed
  show "provide_outbox_config k = Inr (10 * hour)" "provide_tenant_config k = Inr False"
    by (simp_all add: provide_outbox_config_def provide_tenant_config_def load_absent_checked assms(1) outbox_apply_defaults_def
        outbox_validate_def tenant_apply_defaults_def tenant_validate_def if_not_positive_def)
  show "\<exists>c. provide_observability_config k = Inr c \<and> \<not> ob_metrics_enabled c \<and> \<not> ob_tracing_enabled c \<and> \<not> prof_enabled (ob_profiling c)"
  proof -
    have "observability_validate (observability_apply_defaults observability_zero) = None"
      by (simp add: observability_zero_def observability_apply_defaults_def observability_validate_def)
    then show ?thesis
      by (simp add: provide_observability_config_def load_absent_checked assms(1))
        (simp add: observability_zero_def observability_apply_defaults_def)
  qed
  show "\<exists>c. provide_token_config k = Inr c \<and> provide_token_source c = Inr None"
    by (simp add: provide_token_config_def load_absent_checked assms(1) token_zero_def token_apply_defaults_def token_validate_def
        provide_token_source_def)
  show "\<exists>c. provide_jwks_config k = Inr c \<and> provide_token_validator new_keyfunc c = Inr None
      \<and> provide_auth_interceptor c validate perms = no_entry"
    by (simp add: provide_jwks_config_def load_absent_checked assms(1) jwks_zero_def jwks_apply_defaults_def jwks_validate_def
        provide_token_validator_def provide_auth_interceptor_def)
qed

definition no_keys :: koanf where
  "no_keys = \<lparr>kf_exists = (\<lambda>key. False), kf_app = (\<lambda>key c. Inr c), kf_logger = (\<lambda>key c. Inr c), kf_server = (\<lambda>key c. Inr c),
     kf_mongo = (\<lambda>key c. Inr c), kf_kafka = (\<lambda>key c. Inr c), kf_outbox = (\<lambda>key c. Inr c), kf_tenant = (\<lambda>key c. Inr c),
     kf_observability = (\<lambda>key c. Inr c), kf_token = (\<lambda>key c. Inr c), kf_jwks = (\<lambda>key c. Inr c)\<rparr>"

lemma empty_configuration_witness:
  "(\<exists>e. load_app_config no_keys = Inl e) \<and> provide_tenant_config no_keys = Inr False \<and> provide_logger_config (\<lambda>level. Inr 0) no_keys = Inr (logger_zero\<lparr>lg_level := ''info''\<rparr>)"
proof -
  have none: "\<not> kf_exists no_keys key" for key by (simp add: no_keys_def)
  have decoded: "kf_app no_keys [] app_config_zero = Inr app_config_zero" by (simp add: no_keys_def)
  note empty = empty_configuration [where k = no_keys and parse = "\<lambda>level. Inr 0" and new_keyfunc = "\<lambda>urls. Inr ()"
      and validate = "\<lambda>t. Inl (New_error [])" and perms = "[]" and load = "\<lambda>name. Inl (New_error [])", OF none decoded refl]
  from empty have "\<exists>e. load_app_config no_keys = Inl e" by (elim conjE exE) (rule exI)
  moreover from empty have "provide_tenant_config no_keys = Inr False" by (elim conjE)
  moreover from empty have "provide_logger_config (\<lambda>level. Inr 0) no_keys = Inr (logger_zero\<lparr>lg_level := ''info''\<rparr>)" by (elim conjE)
  ultimately show ?thesis by blast
qed

subsection \<open>Kubernetes\<close>

definition provide_readiness :: "app_config \<Rightarrow> readiness" where
  "provide_readiness appConfig = new_readiness (is_kubernetes appConfig)"

text \<open>
  C37. The mode of the readiness comes from \<^verbatim>\<open>IsKubernetes\<close>, which nothing derives from the environment: a decoder, which cannot
  set the unexported field, leaves it empty. So unless the decoder sets \<^verbatim>\<open>IsKubernetes\<close> itself, a service in Kubernetes runs in
  local mode, and as soon as it is ready a worker that waits for traffic goes on without any probe.
\<close>

theorem kubernetes_not_detected:
  assumes "load_app_config k = Inr c" and "decodes_exported_only (kf_source k (kf_app k))"
    and "\<And>c'. kf_app k [] app_config_zero = Inr c' \<Longrightarrow> \<not> is_kubernetes c'"
  shows "provide_readiness c = new_readiness False
    \<and> (\<forall>r. ready_closed r \<and> in_kubernetes r = in_kubernetes (provide_readiness c) \<longrightarrow>
         wait_for_traffic_ready p\<^sub>1 ctx_background r p\<^sub>2 ctx\<^sub>2 r\<^sub>2 = Some None)"
proof -
  obtain c0 where c0: "kf_app k [] app_config_zero = Inr c0" "c = app_apply_defaults c0"
    using assms(1) by (auto simp: load_app_config_def load_config_def kf_source_def and_then_Inr split: sum.splits)
  with assms(2) have "kubernetes_service_host c0 = []"
    by (simp add: decodes_exported_only_def kf_source_def app_config_zero_def)
  with c0 assms(3) have "\<not> is_kubernetes c" by (auto simp: app_apply_defaults_def)
  then have "provide_readiness c = new_readiness False" by (simp add: provide_readiness_def)
  then show ?thesis
    by (simp add: wait_for_traffic_ready_def wait_ready_def go_select_def new_readiness_def ctx_background_def)
qed

definition shop_app :: app_config where
  "shop_app = app_config_zero\<lparr>service_name := ''shop'', service_version := ''1'', environment := ''prod''\<rparr>"

lemma kubernetes_not_detected_witness:
  "load_app_config (no_keys\<lparr>kf_app := \<lambda>key c. Inr (c\<lparr>service_name := ''shop'', service_version := ''1'', environment := ''prod''\<rparr>)\<rparr>) = Inr shop_app
   \<and> provide_readiness shop_app = new_readiness False"
proof -
  let ?k = "no_keys\<lparr>kf_app := \<lambda>key c. Inr (c\<lparr>service_name := ''shop'', service_version := ''1'', environment := ''prod''\<rparr>)\<rparr>"
  have load: "load_app_config ?k = Inr shop_app"
    by (simp add: load_app_config_def load_config_def kf_source_def shop_app_def app_config_zero_def app_apply_defaults_def
        app_validate_def errors_join_def validating_def)
  have only: "decodes_exported_only (kf_source ?k (kf_app ?k))" by (simp add: decodes_exported_only_def kf_source_def)
  have "\<And>c'. kf_app ?k [] app_config_zero = Inr c' \<Longrightarrow> \<not> is_kubernetes c'" by (auto simp: app_config_zero_def)
  from kubernetes_not_detected [OF load only this] load show ?thesis by blast
qed

end
