(* ===== verification/Grpc_Client.thy ===== *)
theory Grpc_Client
  imports Http_Client
begin

section \<open>gRPC calls (pkg/http/grpc/client)\<close>

text \<open>
  The interceptors of a connection composed in the order \<^verbatim>\<open>NewGrpcConn\<close> gives them, the tenant outside and the
  timeout inside, and the per-call credentials. The invoker is the rest of the library: it receives the
  context, its deadline and the credentials' metadata.
\<close>

text \<open>
  \<^verbatim>\<open>context.WithTimeout\<close> at \<open>now\<close>: the earlier of the parent's deadline and the timeout's.
\<close>

definition with_timeout :: "time \<Rightarrow> duration \<Rightarrow> time option \<Rightarrow> time option" where
  "with_timeout now timeout deadline =
     (let d = now + timeout in case deadline of None \<Rightarrow> Some d | Some parent \<Rightarrow> Some (min parent d))"

definition grpc_timeout_interceptor where
  "grpc_timeout_interceptor timeout now deadline invoker ctx s = invoker ctx (with_timeout now timeout deadline) s"

definition grpc_call where
  "grpc_call cfg md_set dflt now deadline rpc invoker ctx s =
     grpc_tenant_interceptor md_set dflt ctx rpc
       (\<lambda>ctx s. grpc_timeout_interceptor (grpc_timeout cfg) now deadline invoker ctx s) s"

text \<open>A connection with a token source: an error of the source fails the call before it is sent.\<close>

definition grpc_call_with_token where
  "grpc_call_with_token cfg md_set dflt token now deadline rpc invoker ctx s =
     grpc_call cfg md_set dflt now deadline rpc
       (\<lambda>ctx d s. case grpc_request_metadata token s of
            (Inl e, s') \<Rightarrow> (Some e, s')
          | (Inr creds, s') \<Rightarrow> invoker ctx d creds s') ctx s"

text \<open>\<^verbatim>\<open>NewClient\<close>'s error.\<close>

definition grpc_new_conn :: "go_error option \<Rightarrow> go_error option" where
  "grpc_new_conn err = map_option (\<lambda>e. Wrapf ''grpc new client: '' e []) err"

lemma grpc_tenant_context:
  assumes set: "\<forall>md v. map_of (md_set md http_tenant_header v) (to_lower http_tenant_header) = Some [v]"
  shows "\<exists>ctx'. (\<forall>inv s. grpc_tenant_interceptor md_set dflt ctx rpc inv s = inv ctx' s)
    \<and> ctx_err ctx' = ctx_err ctx
    \<and> (\<forall>slug. slug_from_context ctx = Some slug \<longrightarrow>
         (\<exists>md. ctx_metadata ctx' = Some md \<and> map_of md (to_lower http_tenant_header) = Some [slug]))"
  by (cases "slug_from_context ctx"; cases "logger_get dflt (Some ctx)")
    (auto simp: grpc_tenant_interceptor_def logger_with_def set Let_def split: option.splits)

text \<open>
  With a configuration that loads, every call reaches the network at most once, with the slug of its
  context in the metadata, a token of the source, and a deadline after now, within the configured timeout
  and not later than the caller's; without a token it is not sent and the source's error is returned.
\<close>

theorem grpc_call_carries:
  fixes s :: 's and invoker :: "go_ctx \<Rightarrow> time option \<Rightarrow> (string, string) go_map \<Rightarrow> 's \<Rightarrow> go_error option \<times> 's"
  assumes load: "grpc_load_config k key = Inr cfg"
    and set: "\<forall>md v. map_of (md_set md http_tenant_header v) (to_lower http_tenant_header) = Some [v]"
    and tok: "token s = (r, s1)" and dl: "\<forall>d. deadline = Some d \<longrightarrow> now < d"
  shows "(\<forall>e. r = Inl e \<longrightarrow>
        grpc_call_with_token cfg md_set dflt token now deadline rpc invoker ctx s = (Some e, s1))
    \<and> (\<forall>t. r = Inr t \<longrightarrow> (\<exists>ctx' d.
        grpc_call_with_token cfg md_set dflt token now deadline rpc invoker ctx s
          = invoker ctx' (Some d) [(''authorization'', ''Bearer '' @ t)] s1
      \<and> now < d \<and> d \<le> now + grpc_timeout cfg \<and> (\<forall>p. deadline = Some p \<longrightarrow> d \<le> p)
      \<and> ctx_err ctx' = ctx_err ctx
      \<and> (\<forall>slug. slug_from_context ctx = Some slug \<longrightarrow>
           (\<exists>md. ctx_metadata ctx' = Some md \<and> map_of md (to_lower http_tenant_header) = Some [slug]))))"
proof -
  have "load_config grpc_apply_defaults (validating grpc_validate) grpc_zero k key None = Inr cfg"
    using load by (auto simp: grpc_load_config_def split: sum.splits)
  from grpc_cfg.loaded_complete(1) [OF this] have "if_not_positive (10 * second) (grpc_timeout cfg) = grpc_timeout cfg"
    unfolding grpc_apply_defaults_def by (metis grpc_client_config.select_convs(2) grpc_client_config.surjective
        grpc_client_config.update_convs(2))
  then have pos: "0 < grpc_timeout cfg" by (simp add: if_not_positive_def split: if_splits)
  obtain d where d: "with_timeout now (grpc_timeout cfg) deadline = Some d" "now < d" "d \<le> now + grpc_timeout cfg"
    "\<forall>p. deadline = Some p \<longrightarrow> d \<le> p"
    using pos dl by (cases deadline) (auto simp: with_timeout_def Let_def)
  from grpc_tenant_context [of md_set dflt ctx rpc, OF set] obtain ctx' where
    ctx': "\<And>inv (s :: 's). grpc_tenant_interceptor md_set dflt ctx rpc inv s = (inv ctx' s :: go_error option \<times> 's)"
      "ctx_err ctx' = ctx_err ctx"
      "\<forall>slug. slug_from_context ctx = Some slug \<longrightarrow>
         (\<exists>md. ctx_metadata ctx' = Some md \<and> map_of md (to_lower http_tenant_header) = Some [slug])" by blast
  have "grpc_call_with_token cfg md_set dflt token now deadline rpc invoker ctx s =
      (case r of Inl e \<Rightarrow> (Some e, s1) | Inr t \<Rightarrow> invoker ctx' (Some d) [(''authorization'', ''Bearer '' @ t)] s1)"
    by (simp add: grpc_call_with_token_def grpc_call_def grpc_timeout_interceptor_def ctx'(1) d(1)
        grpc_request_metadata_def tok split: sum.split)
  then show ?thesis using d(2-4) ctx'(2,3) by (cases r) auto
qed

end
