(* ===== verification/Client_Options.thy ===== *)
theory Client_Options
  imports Startup Consumer Mongo_Config Service_Configs
begin

section \<open>What the libraries' clients are built from\<close>

text \<open>
  \<^verbatim>\<open>kafka/consumer/fxconfig\<close>, \<^verbatim>\<open>kafka/producer/fxconfig\<close>, \<^verbatim>\<open>mongo/fxconfig/client.go\<close> and
  \<^verbatim>\<open>core/logger/logger.go\<close>: the options handed to the libraries' constructors, which are parameters, the
  channels between the workers of a consumer, and the effects of building them.
\<close>

subsection \<open>The Kafka consumer\<close>

datatype reset_offset = Offset_at_start | Offset_at_end

text \<open>The options of a consumer's client; the callbacks on partitions only log.\<close>

record consumer_options =
  co_brokers :: "string list"
  co_group :: string
  co_topics :: "string list"
  co_reset :: reset_offset
  co_commit_interval :: duration
  co_commit_marks :: bool

definition consumer_client_options :: "kafka_config \<Rightarrow> consumer_config \<Rightarrow> consumer_options" where
  "consumer_client_options conf consumerConf =
     (let brokers = split_char (CHR '','') (kc_brokers conf);
          resetOffset = (if cc_auto_offset_reset consumerConf = ''earliest'' then Offset_at_start else Offset_at_end)
      in \<lparr>co_brokers = brokers, co_group = cc_group_id consumerConf, co_topics = [cc_topic consumerConf],
          co_reset = resetOffset, co_commit_interval = 3 * second, co_commit_marks = True\<rparr>)"

text \<open>\<open>new_client\<close> is \<^verbatim>\<open>kgo.NewClient\<close>. The component is registered only once there is a client.\<close>

definition provide_consumer_client ::
  "(consumer_options \<Rightarrow> (go_error, 'c) result) \<Rightarrow> kafka_config \<Rightarrow> consumer_config \<Rightarrow> time \<Rightarrow> readiness
    \<Rightarrow> ((go_error, 'c \<times> marker) result \<times> readiness) may_panic" where
  "provide_consumer_client new_client conf consumerConf now r =
     (case new_client (consumer_client_options conf consumerConf) of
        Inl err \<Rightarrow> Inr (Inl (Wrapf (''failed to create kafka consumer, name: '' @ cc_name consumerConf @ '': '') err []), r)
      | Inr client \<Rightarrow>
          and_then (add_component now (consumer_component consumerConf) r) (\<lambda>(markReady, r').
            Inr (Inr (client, markReady), r')))"

text \<open>\<^verbatim>\<open>make(chan T, size)\<close>, which panics on a negative size and on one above the runtime's limit.\<close>

definition make_chan :: "int \<Rightarrow> int \<Rightarrow> nat may_panic" where
  "make_chan limit n = (if n < 0 \<or> limit < n then Inl ''makechan: size out of range'' else Inr (nat n))"

definition provide_message_channel :: "int \<Rightarrow> consumer_config \<Rightarrow> nat may_panic" where
  "provide_message_channel limit consumerConf = make_chan limit (cc_channel_buffer consumerConf)"

definition provide_envelope_channel :: "int \<Rightarrow> consumer_config \<Rightarrow> nat may_panic" where
  "provide_envelope_channel limit consumerConf = make_chan limit (cc_channel_buffer consumerConf)"

text \<open>The fields every log line of a consumer has.\<close>

definition consumer_log_fields :: "logger \<Rightarrow> consumer_config \<Rightarrow> logger" where
  "consumer_log_fields log consumerConf = log @
     [(''component'', ''consumer''), (''consumer_name'', cc_name consumerConf),
      (''topic'', cc_topic consumerConf), (''group_id'', cc_group_id consumerConf)]"

subsection \<open>The Kafka producer\<close>

record producer_options =
  po_brokers :: "string list"
  po_auto_topics :: bool
  po_linger :: duration
  po_compression :: compression
  po_delivery_timeout :: duration
  po_max_buffered :: int

definition provide_kgo_client :: "(producer_options \<Rightarrow> (go_error, 'c) result) \<Rightarrow> kafka_config \<Rightarrow> (go_error, 'c) result" where
  "provide_kgo_client new_client conf =
     (let brokers = split_char (CHR '','') (kc_brokers conf);
          compression = compression_codec (pc_compression (kc_producer conf))
      in new_client \<lparr>po_brokers = brokers, po_auto_topics = True, po_linger = pc_linger (kc_producer conf),
           po_compression = compression, po_delivery_timeout = pc_delivery_timeout (kc_producer conf),
           po_max_buffered = pc_max_buffered (kc_producer conf)\<rparr>)"

definition producer_component :: string where "producer_component = ''kafka-producer''"

subsection \<open>The MongoDB client\<close>

text \<open>Of the options a client is created with, those the code sets.\<close>

record 'rp mongo_options =
  mo_app_name :: string
  mo_max_pool :: nat
  mo_min_pool :: nat
  mo_max_conn_idle :: duration
  mo_server_select_timeout :: duration
  mo_timeout :: duration
  mo_write_concern :: "(w_value option \<times> bool option) option"
  mo_read_concern :: "string option"
  mo_read_preference :: "'rp option"

text \<open>
  \<open>apply_uri\<close> is what \<^verbatim>\<open>ApplyURI\<close> leaves in the options, \<open>build_uri\<close> the configuration's \<^verbatim>\<open>BuildURI\<close> and
  \<open>new_pref\<close> the driver's \<^verbatim>\<open>readpref.New\<close>. A concern that is nil is not set.
\<close>

definition mongo_client_options ::
  "(string \<Rightarrow> 'rp mongo_options) \<Rightarrow> (mongo_config \<Rightarrow> string) \<Rightarrow> (read_mode \<Rightarrow> duration option \<Rightarrow> ('e, 'rp) result)
    \<Rightarrow> mongo_config \<Rightarrow> app_config \<Rightarrow> 'rp mongo_options" where
  "mongo_client_options apply_uri build_uri new_pref conf appConf =
     (let opts = (apply_uri (build_uri conf))\<lparr>
            mo_app_name := service_name appConf,
            mo_max_pool := mc_max_pool conf,
            mo_min_pool := mc_min_pool conf,
            mo_max_conn_idle := mc_max_conn_idle conf,
            mo_server_select_timeout := mc_server_select_timeout conf,
            mo_timeout := mc_query_timeout conf\<rparr>;
          opts = (case build_write_concern (mc_write_concern conf) of
                    None \<Rightarrow> opts | Some wc \<Rightarrow> opts\<lparr>mo_write_concern := Some wc\<rparr>);
          opts = (case build_read_concern (mc_read_concern conf) of
                    None \<Rightarrow> opts | Some rc \<Rightarrow> opts\<lparr>mo_read_concern := Some rc\<rparr>)
      in case build_read_preference new_pref (mc_read_preference conf) of
           None \<Rightarrow> opts | Some rp \<Rightarrow> opts\<lparr>mo_read_preference := Some rp\<rparr>)"

definition provide_mongo_client where
  "provide_mongo_client connect apply_uri build_uri new_pref conf appConf =
     (case connect (mongo_client_options apply_uri build_uri new_pref conf appConf) of
        Inl err \<Rightarrow> Inl (Wrapf ''failed to create mongo client: '' err [])
      | Inr client \<Rightarrow> Inr client)"

subsection \<open>The logger\<close>

datatype zap_preset = Zap_development | Zap_production

record zap_config =
  zc_preset :: zap_preset
  zc_level :: int
  zc_disable_stacktrace :: bool
  zc_iso8601 :: bool
  zc_add_caller :: bool

text \<open>\<open>build\<close> is the library's \<^verbatim>\<open>Build\<close>, \<open>dflt\<close> the package's default logger before; the result has the one after.\<close>

definition new_logger ::
  "(zap_config \<Rightarrow> (go_error, logger) result) \<Rightarrow> logger_config \<Rightarrow> logger option
    \<Rightarrow> (go_error, logger \<times> int) result \<times> logger option" where
  "new_logger build conf dflt =
     (let cfg = \<lparr>zc_preset = (if lg_development conf then Zap_development else Zap_production),
            zc_level = lg_parsed conf, zc_disable_stacktrace = True, zc_iso8601 = True, zc_add_caller = True\<rparr>
      in case build cfg of
           Inl err \<Rightarrow> (Inl err, dflt)
         | Inr log \<Rightarrow> (Inr (log, lg_parsed conf), Some log))"

subsection \<open>Properties\<close>

lemma get_consumer_config_Inr:
  "get_consumer_config conf name = Inr c \<Longrightarrow> c \<in> set (cs_consumers (kc_consumers conf)) \<and> cc_name c = name"
  by (auto simp: get_consumer_config_def find_Some_iff split: option.splits)

lemma find_append: "List.find P xs = Some x \<Longrightarrow> List.find P (xs @ ys) = Some x"
  by (induction xs) auto

text \<open>Only the first of two consumers with the same name is ever found.\<close>

lemma duplicate_consumer_shadowed:
  assumes "cs_consumers (kc_consumers conf) = cs @ c # cs'" and "cc_name c \<in> cc_name ` set cs"
    and "\<forall>d \<in> set (cs @ cs'). d \<noteq> c"
  shows "get_consumer_config conf (cc_name c) \<noteq> Inr c"
proof
  assume "get_consumer_config conf (cc_name c) = Inr c"
  then have "List.find (\<lambda>d. cc_name d = cc_name c) (cs @ c # cs') = Some c"
    by (simp add: get_consumer_config_def assms(1) split: option.splits)
  moreover obtain d where "List.find (\<lambda>d. cc_name d = cc_name c) cs = Some d" "d \<in> set cs"
    using assms(2) by (cases "List.find (\<lambda>d. cc_name d = cc_name c) cs") (auto simp: find_None_iff find_Some_iff)
  then have "List.find (\<lambda>d. cc_name d = cc_name c) (cs @ c # cs') = Some d" by (simp add: find_append)
  ultimately show False using \<open>d \<in> set cs\<close> assms(3) by auto
qed

lemma dlq_topics:
  assumes "r \<in> set (snd (provide_dlq_handler c (\<lambda>ctx r w. (answer ctx r, w @ [r])) tr now ctx rec e w))"
  shows "r \<in> set w \<or> cc_enable_dlq c \<and> rec_topic r = cc_dlq_topic c"
  using assms
  by (auto simp: provide_dlq_handler_def send_to_dlq_def noop_dlq_def inject_context_def dlq_record_def Let_def
      split: if_splits option.splits)

text \<open>
  C34. What a consumer is built from, with a Kafka configuration that loads: its client subscribes to its one
  topic, reads from the start exactly if that is configured, commits only records marked for commit, and gets
  the configured brokers, of which there is at least one; its processor is built; its channels have the
  configured capacity, at least one, unless that is negative, which loads and panics; and the records its
  dead letter handler produces never come back to it.
\<close>

theorem consumer_built_soundly:
  assumes load: "load_config kafka_apply_defaults (validating kafka_validate) kafka_zero k key ov = Inr conf"
    and found: "get_consumer_config conf name = Inr c" and limit: "10000 \<le> limit"
    and opts: "opts = consumer_client_options conf c"
  shows "cc_name c = name \<and> co_topics opts = [cc_topic c] \<and> cc_topic c \<noteq> []
    \<and> co_commit_marks opts \<and> (co_reset opts = Offset_at_start \<longleftrightarrow> cc_auto_offset_reset c = ''earliest'')
    \<and> join_with '','' (co_brokers opts) = kc_brokers conf \<and> co_brokers opts \<noteq> []
    \<and> (\<exists>p. new_processor c = Inr p \<and> pr_max_retries p \<le> 99)
    \<and> (if 0 \<le> cc_channel_buffer c
       then \<exists>n > 0. provide_message_channel limit c = Inr n \<and> provide_envelope_channel limit c = Inr n
       else \<exists>p. provide_message_channel limit c = Inl p \<and> provide_envelope_channel limit c = Inl p)
    \<and> (\<forall>answer tr now ctx rec e w. \<forall>r \<in> set (snd (provide_dlq_handler c
         (\<lambda>ctx r w. (answer ctx r, w @ [r])) tr now ctx rec e w)). r \<in> set w \<or> rec_topic r \<notin> set (co_topics opts))"
proof -
  from get_consumer_config_Inr [OF found] have c: "c \<in> set (cs_consumers (kc_consumers conf))" "cc_name c = name" by auto
  with loaded_consumers_sound [OF load] have s: "sound_consumer c" by (simp add: list_all_iff)
  then obtain n where n: "cc_max_retries c = Some n" "n \<le> 99" by (auto simp: sound_consumer_def)
  have topic: "cc_topic c \<noteq> []" using s by (auto simp: sound_consumer_def)
  have buffer: "cc_channel_buffer c \<noteq> 0" "cc_channel_buffer c \<le> limit" using s limit by (auto simp: sound_consumer_def)
  have channels: "if 0 \<le> cc_channel_buffer c
       then \<exists>n > 0. provide_message_channel limit c = Inr n \<and> provide_envelope_channel limit c = Inr n
       else \<exists>p. provide_message_channel limit c = Inl p \<and> provide_envelope_channel limit c = Inl p"
    using buffer
    by (simp add: provide_message_channel_def provide_envelope_channel_def make_chan_def)
  have dlq: "r \<in> set w \<or> rec_topic r \<notin> set (co_topics opts)"
    if "r \<in> set (snd (provide_dlq_handler c (\<lambda>ctx r w. (answer ctx r, w @ [r])) tr now ctx rec e w))"
    for answer tr now ctx rec e w r
    using dlq_topics [OF that] s by (auto simp: opts consumer_client_options_def sound_consumer_def)
  show ?thesis
    using c(2) topic n channels dlq
    by (simp add: opts consumer_client_options_def new_processor_def join_split_char)
qed

lemma consumer_built_soundly_witness:
  "cc_name (hd (cs_consumers (kc_consumers (kafka_apply_defaults demo_kafka)))) = ''orders''
    \<and> (\<exists>p. provide_message_channel 10000 (hd (cs_consumers (kc_consumers (kafka_apply_defaults demo_kafka)))) = Inl p)"
proof -
  let ?conf = "kafka_apply_defaults demo_kafka"
  have found: "get_consumer_config ?conf ''orders'' = Inr (hd (cs_consumers (kc_consumers ?conf)))"
    and negative: "cc_channel_buffer (hd (cs_consumers (kc_consumers ?conf))) < 0"
    by (simp_all add: get_consumer_config_def kafka_apply_defaults_def global_consumer_defaults_def
        apply_consumer_defaults_def demo_kafka_def demo_consumer_def kafka_zero_def Let_def if_zero_def)
  from consumer_built_soundly [OF demo_kafka_loads found order_refl refl] negative show ?thesis by auto
qed

text \<open>
  A configured concern replaces that of the URI, and one that is not configured leaves it; a registered consumer
  is a component that is not ready yet.
\<close>

lemma mongo_client_concerns:
  "mo_write_concern (mongo_client_options apply_uri build_uri new_pref conf app) =
     (case build_write_concern (mc_write_concern conf) of None \<Rightarrow> mo_write_concern (apply_uri (build_uri conf)) | Some wc \<Rightarrow> Some wc)"
  "mo_read_concern (mongo_client_options apply_uri build_uri new_pref conf app) =
     (case build_read_concern (mc_read_concern conf) of None \<Rightarrow> mo_read_concern (apply_uri (build_uri conf)) | Some rc \<Rightarrow> Some rc)"
  "mo_read_preference (mongo_client_options apply_uri build_uri new_pref conf app) =
     (case build_read_preference new_pref (mc_read_preference conf) of
        None \<Rightarrow> mo_read_preference (apply_uri (build_uri conf)) | Some rp \<Rightarrow> Some rp)"
  "mo_max_pool (mongo_client_options apply_uri build_uri new_pref conf app) = mc_max_pool conf"
  by (auto simp: mongo_client_options_def Let_def split: option.splits)

lemma consumer_client_registered:
  assumes "new_client (consumer_client_options conf c) = Inr client" and "registered r names {}"
    and "consumer_component c \<notin> names"
  shows "\<exists>r'. provide_consumer_client new_client conf c now r = Inr (Inr (client, Marker (consumer_component c)), r')
    \<and> registered r' (insert (consumer_component c) names) {}"
  using add_registered [OF assms(2) _ assms(3), of now] assms(1)
  by (auto simp: provide_consumer_client_def consumer_component_def)

text \<open>The logger a context without one gets is the last that was built.\<close>

lemma new_logger_default:
  "(case new_logger build conf dflt of
      (Inl err, dflt') \<Rightarrow> logger_get dflt' None = dflt
    | (Inr (log, level), dflt') \<Rightarrow> logger_get dflt' None = Some log \<and> level = lg_parsed conf)"
  by (simp add: new_logger_def logger_get_def Let_def split: sum.splits)

end
