(* ===== verification/Test_Containers.thy ===== *)
theory Test_Containers
  imports Go_Runtime
begin

section \<open>Containers for integration tests (pkg/testutil/container)\<close>

text \<open>
  \<^verbatim>\<open>mongodb.go\<close> and \<^verbatim>\<open>redpanda.go\<close>: starting a container and everything that is undone when a later step
  fails. \<open>'w\<close> is the world, \<open>'c\<close> the library's container, \<open>'m\<close> a MongoDB client. Starting panics with an error
  on failure; here a panic is \<open>Inl\<close> of that error. Contexts are left out, but for that of the polling loop.
\<close>

subsection \<open>MongoDB\<close>

record mongodb_options =
  mdo_image :: string
  mdo_replica_set :: string

definition with_image :: "string \<Rightarrow> mongodb_options \<Rightarrow> mongodb_options" where
  "with_image img o' = o'\<lparr>mdo_image := img\<rparr>"

definition with_replica_set :: "string \<Rightarrow> mongodb_options \<Rightarrow> mongodb_options" where
  "with_replica_set name o' = o'\<lparr>mdo_replica_set := name\<rparr>"

text \<open>The libraries; a failed \<^verbatim>\<open>Run\<close> may return a container beside its error.\<close>

record ('w, 'c, 'm) mongodb_lib =
  ml_run :: "string \<Rightarrow> string option \<Rightarrow> 'w \<Rightarrow> (go_error \<times> 'c option, 'c) result \<times> 'w"
  ml_connection_string :: "'c \<Rightarrow> 'w \<Rightarrow> (go_error, string) result \<times> 'w"
  ml_connect :: "string \<Rightarrow> 'w \<Rightarrow> (go_error, 'm) result \<times> 'w"
  ml_ping :: "'m \<Rightarrow> 'w \<Rightarrow> go_error option \<times> 'w"
  ml_disconnect :: "'m \<Rightarrow> 'w \<Rightarrow> go_error option \<times> 'w"
  ml_terminate :: "'c \<Rightarrow> 'w \<Rightarrow> go_error option \<times> 'w"

record ('c, 'm) mongodb_container =
  mdc_container :: "'c option"
  mdc_client :: "'m option"
  mdc_connection_string :: string

definition start_mongodb_container ::
  "('w, 'c, 'm) mongodb_lib \<Rightarrow> (mongodb_options \<Rightarrow> mongodb_options) list \<Rightarrow> 'w
    \<Rightarrow> (go_error, ('c, 'm) mongodb_container) result \<times> 'w" where
  "start_mongodb_container lib opts w =
     (let o' = fold (\<lambda>opt. opt) opts \<lparr>mdo_image = ''mongo:7'', mdo_replica_set = []\<rparr>;
          rs = (if mdo_replica_set o' \<noteq> [] then Some (mdo_replica_set o') else None)
      in case ml_run lib (mdo_image o') rs w of
           (Inl (err, _), w) \<Rightarrow> (Inl (Wrapf ''failed to start mongodb container: '' err []), w)
         | (Inr c, w) \<Rightarrow>
       (case ml_connection_string lib c w of
           (Inl err, w) \<Rightarrow> (Inl (Wrapf ''failed to get connection string: '' err []), snd (ml_terminate lib c w))
         | (Inr connectionString, w) \<Rightarrow>
       (case ml_connect lib connectionString w of
           (Inl err, w) \<Rightarrow> (Inl (Wrapf ''failed to connect to mongodb: '' err []), snd (ml_terminate lib c w))
         | (Inr client, w) \<Rightarrow>
       (case ml_ping lib client w of
           (Some err, w) \<Rightarrow>
             (Inl (Wrapf ''failed to ping mongodb: '' err []), snd (ml_terminate lib c (snd (ml_disconnect lib client w))))
         | (None, w) \<Rightarrow>
             (Inr \<lparr>mdc_container = Some c, mdc_client = Some client, mdc_connection_string = connectionString\<rparr>, w)))))"

definition start_default_mongodb_container where
  "start_default_mongodb_container lib = start_mongodb_container lib [with_replica_set ''rs0'']"

text \<open>\<^verbatim>\<open>%v\<close> of a slice of errors.\<close>

definition errors_text :: "go_error list \<Rightarrow> string" where
  "errors_text errs = CHR ''['' # join_with '' '' (map error_text errs) @ '']''"

definition terminate_mongodb ::
  "('w, 'c, 'm) mongodb_lib \<Rightarrow> ('c, 'm) mongodb_container \<Rightarrow> 'w \<Rightarrow> go_error option \<times> 'w" where
  "terminate_mongodb lib m w =
     (let (errs, w) =
        (case mdc_client m of
           None \<Rightarrow> ([], w)
         | Some client \<Rightarrow>
             (case ml_disconnect lib client w of
                (Some err, w) \<Rightarrow> ([Wrapf ''failed to disconnect from mongodb: '' err []], w)
              | (None, w) \<Rightarrow> ([], w)));
          (errs, w) =
        (case mdc_container m of
           None \<Rightarrow> (errs, w)
         | Some c \<Rightarrow>
             (case ml_terminate lib c w of
                (Some err, w) \<Rightarrow> (errs @ [Wrapf ''failed to terminate mongodb container: '' err []], w)
              | (None, w) \<Rightarrow> (errs, w)))
      in (if length errs > 0 then Some (New_error (''errors during termination: '' @ errors_text errs)) else None, w))"

subsection \<open>Redpanda\<close>

record redpanda_request =
  rr_image :: string
  rr_ports :: "string list"
  rr_cmd :: "string list"
  rr_wait_ports :: "string list"
  rr_deadline :: duration

definition with_redpanda_image :: "string \<Rightarrow> string \<Rightarrow> string" where
  "with_redpanda_image img o' = img"

definition redpanda_request_for :: "string \<Rightarrow> redpanda_request" where
  "redpanda_request_for img =
     \<lparr>rr_image = img, rr_ports = [''8081/tcp'', ''9092/tcp''],
      rr_cmd = [''redpanda'', ''start'', ''--mode'', ''dev-container'', ''--smp'', ''1'', ''--memory'', ''512M'',
        ''--reserve-memory'', ''0M'', ''--overprovisioned'', ''--node-id'', ''0'',
        ''--kafka-addr'', ''PLAINTEXT://0.0.0.0:9092'', ''--advertise-kafka-addr'', ''PLAINTEXT://localhost:9092'',
        ''--schema-registry-addr'', ''0.0.0.0:8081''],
      rr_wait_ports = [''8081/tcp'', ''9092/tcp''], rr_deadline = 60 * second\<rparr>"

text \<open>
  The polling loop, with fuel: \<open>done_at k\<close> is whether the context is done and \<open>get_at url k\<close> the status of the
  answer in the \<open>k\<close>-th iteration, half a second or more after the one before.
\<close>

fun wait_for_redpanda :: "nat \<Rightarrow> (nat \<Rightarrow> bool) \<Rightarrow> (string \<Rightarrow> nat \<Rightarrow> (go_error, int) result) \<Rightarrow> string \<Rightarrow> nat
    \<Rightarrow> go_error option option" where
  "wait_for_redpanda 0 done_at get_at url k = None"
| "wait_for_redpanda (Suc fuel) done_at get_at url k =
     (if done_at k then Some (Some (New_error (''timeout waiting for schema registry at '' @ url)))
      else (case get_at (url @ ''/subjects'') k of
              Inr status \<Rightarrow> if status = 200 then Some None else wait_for_redpanda fuel done_at get_at url (k + 1)
            | Inl err \<Rightarrow> wait_for_redpanda fuel done_at get_at url (k + 1)))"

text \<open>\<open>rl_done limit\<close> is the context that \<^verbatim>\<open>WithTimeout\<close> makes, iteration by iteration.\<close>

record ('w, 'c) redpanda_lib =
  rl_start :: "redpanda_request \<Rightarrow> 'w \<Rightarrow> (go_error \<times> 'c option, 'c) result \<times> 'w"
  rl_host :: "'c \<Rightarrow> 'w \<Rightarrow> (go_error, string) result \<times> 'w"
  rl_port :: "'c \<Rightarrow> string \<Rightarrow> 'w \<Rightarrow> (go_error, string) result \<times> 'w"
  rl_terminate :: "'c \<Rightarrow> 'w \<Rightarrow> go_error option \<times> 'w"
  rl_done :: "duration \<Rightarrow> nat \<Rightarrow> bool"
  rl_get :: "string \<Rightarrow> nat \<Rightarrow> (go_error, int) result"

record 'c redpanda_container =
  rc_container :: "'c option"
  rc_schema_registry :: string
  rc_kafka_broker :: string

definition start_redpanda_container ::
  "nat \<Rightarrow> ('w, 'c) redpanda_lib \<Rightarrow> (string \<Rightarrow> string) list \<Rightarrow> 'w
    \<Rightarrow> ((go_error, 'c redpanda_container) result \<times> 'w) option" where
  "start_redpanda_container fuel lib opts w =
     (let img = fold (\<lambda>opt. opt) opts ''redpandadata/redpanda:v24.1.1'';
          give_up = (\<lambda>c what err w. Some (Inl (Wrapf what err []), snd (rl_terminate lib c w)))
      in case rl_start lib (redpanda_request_for img) w of
           (Inl (err, _), w) \<Rightarrow> Some (Inl (Wrapf ''failed to start redpanda container: '' err []), w)
         | (Inr c, w) \<Rightarrow>
       (case rl_host lib c w of
           (Inl err, w) \<Rightarrow> give_up c ''failed to get container host: '' err w
         | (Inr host, w) \<Rightarrow>
       (case rl_port lib c ''9092'' w of
           (Inl err, w) \<Rightarrow> give_up c ''failed to get kafka port: '' err w
         | (Inr kafkaPort, w) \<Rightarrow>
       (case rl_port lib c ''8081'' w of
           (Inl err, w) \<Rightarrow> give_up c ''failed to get schema registry port: '' err w
         | (Inr registryPort, w) \<Rightarrow>
       (let schemaRegistryURL = ''http://'' @ host @ '':'' @ registryPort;
            kafkaBroker = host @ '':'' @ kafkaPort
        in case wait_for_redpanda fuel (rl_done lib (30 * second)) (rl_get lib) schemaRegistryURL 0 of
             None \<Rightarrow> None
           | Some (Some err) \<Rightarrow> give_up c ''redpanda not ready: '' err w
           | Some None \<Rightarrow> Some (Inr \<lparr>rc_container = Some c, rc_schema_registry = schemaRegistryURL,
                 rc_kafka_broker = kafkaBroker\<rparr>, w))))))"

definition terminate_redpanda :: "('w, 'c) redpanda_lib \<Rightarrow> 'c redpanda_container \<Rightarrow> 'w \<Rightarrow> go_error option \<times> 'w" where
  "terminate_redpanda lib s w = (case rc_container s of Some c \<Rightarrow> rl_terminate lib c w | None \<Rightarrow> (None, w))"

subsection \<open>Nothing is left running\<close>

text \<open>
  \<open>live\<close> and \<open>conns\<close> are the running containers and the connected clients of a world. The libraries add what
  they start, also beside an error, and remove what they stop.
\<close>

definition mongodb_lib_tracks :: "('w, 'c, 'm) mongodb_lib \<Rightarrow> ('w \<Rightarrow> 'c set) \<Rightarrow> ('w \<Rightarrow> 'm set) \<Rightarrow> bool" where
  "mongodb_lib_tracks lib live conns \<longleftrightarrow>
     (\<forall>i rs w. conns (snd (ml_run lib i rs w)) = conns w \<and> live (snd (ml_run lib i rs w)) =
        (case fst (ml_run lib i rs w) of Inr c \<Rightarrow> insert c (live w) | Inl (e, c) \<Rightarrow> set_option c \<union> live w))
   \<and> (\<forall>c w. live (snd (ml_connection_string lib c w)) = live w \<and> conns (snd (ml_connection_string lib c w)) = conns w)
   \<and> (\<forall>s w. live (snd (ml_connect lib s w)) = live w \<and> conns (snd (ml_connect lib s w)) =
        (case fst (ml_connect lib s w) of Inr m \<Rightarrow> insert m (conns w) | Inl e \<Rightarrow> conns w))
   \<and> (\<forall>m w. live (snd (ml_ping lib m w)) = live w \<and> conns (snd (ml_ping lib m w)) = conns w)
   \<and> (\<forall>m w. live (snd (ml_disconnect lib m w)) = live w \<and> conns (snd (ml_disconnect lib m w)) = conns w - {m})
   \<and> (\<forall>c w. live (snd (ml_terminate lib c w)) = live w - {c} \<and> conns (snd (ml_terminate lib c w)) = conns w)"

definition redpanda_lib_tracks :: "('w, 'c) redpanda_lib \<Rightarrow> ('w \<Rightarrow> 'c set) \<Rightarrow> bool" where
  "redpanda_lib_tracks lib live \<longleftrightarrow>
     (\<forall>req w. live (snd (rl_start lib req w)) =
        (case fst (rl_start lib req w) of Inr c \<Rightarrow> insert c (live w) | Inl (e, c) \<Rightarrow> set_option c \<union> live w))
   \<and> (\<forall>c w. live (snd (rl_host lib c w)) = live w) \<and> (\<forall>c p w. live (snd (rl_port lib c p w)) = live w)
   \<and> (\<forall>c w. live (snd (rl_terminate lib c w)) = live w - {c})"

text \<open>What the calls of a start do to the containers and clients, by their results.\<close>

lemma mongodb_tracks:
  assumes "mongodb_lib_tracks lib live conns"
  shows "ml_run lib i rs w = (Inr c, w') \<Longrightarrow> live w' = insert c (live w) \<and> conns w' = conns w"
    and "ml_run lib i rs w = (Inl (e, rest), w') \<Longrightarrow> live w' = set_option rest \<union> live w \<and> conns w' = conns w"
    and "ml_connection_string lib c w = (cs, w') \<Longrightarrow> live w' = live w \<and> conns w' = conns w"
    and "ml_connect lib s w = (Inr m, w') \<Longrightarrow> live w' = live w \<and> conns w' = insert m (conns w)"
    and "ml_connect lib s w = (Inl e, w') \<Longrightarrow> live w' = live w \<and> conns w' = conns w"
    and "ml_ping lib m w = (p, w') \<Longrightarrow> live w' = live w \<and> conns w' = conns w"
    and "live (snd (ml_disconnect lib m w)) = live w" and "conns (snd (ml_disconnect lib m w)) = conns w - {m}"
    and "live (snd (ml_terminate lib c w)) = live w - {c}" and "conns (snd (ml_terminate lib c w)) = conns w"
  using assms unfolding mongodb_lib_tracks_def by (metis fst_conv snd_conv sum.case prod.case)+

text \<open>
  A start that panics leaves nothing running that was not running before, except a container the library
  returned beside the error of starting it; a start that succeeds leaves exactly its container and client.
\<close>

theorem start_mongodb_cleans_up:
  assumes tracks: "mongodb_lib_tracks lib live conns" and start: "start_mongodb_container lib opts w = (r, w')"
    and no_rest: "\<And>i rs w1 e rest. fst (ml_run lib i rs w1) = Inl (e, rest) \<Longrightarrow> rest = None"
  shows "case r of
      Inl e \<Rightarrow> live w' \<subseteq> live w \<and> conns w' \<subseteq> conns w
    | Inr m \<Rightarrow> \<exists>c cl. mdc_container m = Some c \<and> mdc_client m = Some cl \<and> live w' = insert c (live w)
        \<and> conns w' = insert cl (conns w)"
proof -
  note t = mongodb_tracks [OF tracks]
  have failed: "live w2 = live w1 \<and> conns w2 = conns w1" if "ml_run lib i rs w1 = (Inl (e, rest), w2)" for i rs e rest w1 w2
    using no_rest [of i rs w1 e rest] t(2) [OF that] that by simp
  from start show ?thesis
    by (auto simp: start_mongodb_container_def Let_def t(7-10) split: prod.splits sum.splits option.splits
        dest!: failed t(1,3-6))
qed

text \<open>
  A container that is returned beside the error of starting it is not terminated: a start that runs into the
  library's readiness deadline leaves it running.
\<close>

lemma failed_run_leaks:
  assumes "mongodb_lib_tracks lib live conns" and "ml_run lib ''mongo:7'' None w = (Inl (e, Some c), w')"
  shows "start_mongodb_container lib [] w = (Inl (Wrapf ''failed to start mongodb container: '' e []), w') \<and> c \<in> live w'"
  using assms(2) mongodb_tracks(2) [OF assms] by (simp add: start_mongodb_container_def)

lemma redpanda_tracks:
  assumes "redpanda_lib_tracks lib live"
  shows "rl_start lib req w = (Inr c, w') \<Longrightarrow> live w' = insert c (live w)"
    and "rl_start lib req w = (Inl (e, rest), w') \<Longrightarrow> live w' = set_option rest \<union> live w"
    and "rl_host lib c w = (h, w') \<Longrightarrow> live w' = live w" and "rl_port lib c p w = (h, w') \<Longrightarrow> live w' = live w"
    and "live (snd (rl_terminate lib c w)) = live w - {c}"
  using assms unfolding redpanda_lib_tracks_def by (metis fst_conv snd_conv sum.case prod.case)+

lemma wait_for_redpanda_returns:
  assumes "done_at n" and "k \<le> n"
  shows "wait_for_redpanda (Suc (n - k)) done_at get_at url k \<noteq> None"
  using assms(2)
proof (induction "n - k" arbitrary: k)
  case 0
  then have "k = n" by simp
  with assms(1) show ?case by simp
next
  case (Suc m)
  then have "wait_for_redpanda (Suc (n - (k + 1))) done_at get_at url (k + 1) \<noteq> None" by (intro Suc(1)) auto
  moreover have "n - k = Suc (n - (k + 1))" using Suc by simp
  ultimately show ?case by (auto split: sum.splits)
qed

text \<open>
  Starting Redpanda returns when the context of 30 seconds is done within 60 iterations, half a second each,
  and it leaves its container if it succeeds, and nothing if it panics, with the same exception.
\<close>

theorem start_redpanda_cleans_up:
  assumes tracks: "redpanda_lib_tracks lib live" and "rl_done lib (30 * second) 60"
    and no_rest: "\<And>req w1 e rest. fst (rl_start lib req w1) = Inl (e, rest) \<Longrightarrow> rest = None"
  shows "\<exists>r w'. start_redpanda_container 61 lib opts w = Some (r, w')
    \<and> (case r of Inl e \<Rightarrow> live w' \<subseteq> live w
       | Inr s \<Rightarrow> \<exists>c. rc_container s = Some c \<and> live w' = insert c (live w))"
proof -
  note t = redpanda_tracks [OF tracks]
  have failed: "live w2 = live w1" if "rl_start lib req w1 = (Inl (e, rest), w2)" for req e rest w1 w2
    using no_rest [of req w1 e rest] t(2) [OF that] that by simp
  have returns: "wait_for_redpanda 61 (rl_done lib (30 * second)) (rl_get lib) url 0 \<noteq> None" for url
    using wait_for_redpanda_returns [where done_at = "rl_done lib (30 * second)" and n = 60 and k = 0, of "rl_get lib" url]
      assms(2) by simp
  have "start_redpanda_container 61 lib opts w \<noteq> None"
    using returns by (auto simp: start_redpanda_container_def Let_def split: prod.splits sum.splits option.splits)
      (metis option.distinct(1))
  then obtain r w' where start: "start_redpanda_container 61 lib opts w = Some (r, w')" by auto
  moreover from start have "case r of Inl e \<Rightarrow> live w' \<subseteq> live w
      | Inr s \<Rightarrow> \<exists>c. rc_container s = Some c \<and> live w' = insert c (live w)"
    by (auto simp: start_redpanda_container_def Let_def t(5) split: prod.splits sum.splits option.splits
        dest!: failed t(1,3,4))
  ultimately show ?thesis by blast
qed

text \<open>\<^verbatim>\<open>Terminate\<close> stops both the client and the container, also when the first of them fails.\<close>

lemma terminate_mongodb_stops:
  assumes "mongodb_lib_tracks lib live conns" and "mdc_container m = Some c" and "mdc_client m = Some cl"
  shows "live (snd (terminate_mongodb lib m w)) = live w - {c} \<and> conns (snd (terminate_mongodb lib m w)) = conns w - {cl}"
proof -
  note t = mongodb_tracks [OF assms(1)]
  have "live w' = live w \<and> conns w' = conns w - {cl}" if "ml_disconnect lib cl w = (e, w')" for e w'
    using t(7) [of cl w] t(8) [of cl w] that by simp
  moreover have "live w2 = live w1 - {c} \<and> conns w2 = conns w1" if "ml_terminate lib c w1 = (e, w2)" for e w1 w2
    using t(9) [of c w1] t(10) [of c w1] that by simp
  ultimately show ?thesis
    by (auto simp: terminate_mongodb_def Let_def assms(2,3) split: prod.splits option.splits if_splits)
qed

text \<open>A library that tracks both: the world is the set of containers and the set of clients.\<close>

definition demo_mongodb :: "(nat set \<times> nat set, nat, nat) mongodb_lib" where
  "demo_mongodb = \<lparr>ml_run = \<lambda>i rs w. (Inr 1, insert 1 (fst w), snd w),
     ml_connection_string = \<lambda>c w. (Inr ''mongodb://localhost'', w),
     ml_connect = \<lambda>s w. (Inr 7, fst w, insert 7 (snd w)), ml_ping = \<lambda>m w. (Some (New_error ''no answer''), w),
     ml_disconnect = \<lambda>m w. (None, fst w, snd w - {m}), ml_terminate = \<lambda>c w. (None, fst w - {c}, snd w)\<rparr>"

lemma demo_start_cleans_up: "start_mongodb_container demo_mongodb [] ({}, {}) =
    (Inl (Wrapf ''failed to ping mongodb: '' (New_error ''no answer'') []), ({}, {}))"
    and demo_mongodb_tracks: "mongodb_lib_tracks demo_mongodb fst snd"
  by (simp_all add: start_mongodb_container_def mongodb_lib_tracks_def demo_mongodb_def)

end
