(* ===== verification/Spec2Isabelle.thy ===== *)
theory Spec2Isabelle
  imports Worker Startup Mongo_Config Generic_Repository Tenant_Operations Rpc_Security Http_Client
    Outbox_System Consumer_Pipeline Event_Round_Trip Mongo_Uri Mongo_Transactions
    Tenant_Module Service_Startup Service_Modules Service_Loading Grpc_Client Client_Options Test_Containers
begin

text \<open>
  A verification library for ecommerce-commons, the Go library the services of an e-commerce
  platform share: configuration, readiness and workers, Kafka producing (a transactional outbox) and
  consuming, RPC interceptors, authentication, tenants, a MongoDB repository and HTTP clients. All paths
  below are under \<^verbatim>\<open>src/pkg\<close>.

  \<^bold>\<open>How the program fits together.\<close> A service loads its configurations (\<^verbatim>\<open>core/config\<close>), builds its
  modules, each of which registers a component with the readiness manager (\<^verbatim>\<open>core/health\<close>), and starts
  their hooks; workers (\<^verbatim>\<open>core/worker\<close>) wait for readiness and, in Kubernetes, for the first successful
  probe (\<^verbatim>\<open>http/health\<close>). Requests pass the chain of interceptors (\<^verbatim>\<open>http/connect/interceptor\<close>,
  \<^verbatim>\<open>security/validation\<close>, \<^verbatim>\<open>tenant\<close>), which puts claims and the tenant into the context; the tenant
  selects the database (\<^verbatim>\<open>tenant/collection_provider.go\<close>) and travels on with HTTP, gRPC and Kafka
  messages. Events are stored in the outbox with the data they belong to (\<^verbatim>\<open>kafka/outbox\<close>), sent by workers
  and consumed by another service's pipeline (\<^verbatim>\<open>kafka/consumer\<close>).

  \<^bold>\<open>Modelling.\<close> A struct is a record, an enumeration a datatype, an error a value of \<open>go_error\<close> with
  \<^verbatim>\<open>errors.Is\<close> and \<^verbatim>\<open>errors.As\<close> over its tree, a fallible call a sum, a call that may panic a sum with the
  panic's text. Go's 64-bit integers and durations are integers, with \<open>wrap64\<close> where an operation can
  overflow. A map is an association list with distinct keys; results must not depend on its order. A
  \<^verbatim>\<open>select\<close> takes one of its ready arms by a \<open>pick\<close> over which every property is general. A context is a
  record of what the code stores in it and its \<^verbatim>\<open>Err()\<close>. Third-party code (the MongoDB driver, Kafka's
  client, the propagator, JWT parsing, \<^verbatim>\<open>backoff\<close>, limiters) is a parameter; what is relied on of it is a named
  predicate (\<open>driver_conforms\<close>, \<open>sessions_conform\<close>, \<open>registry_conforms\<close>, \<open>outbox_conforms\<close>,
  \<open>retry_documented\<close>, \<open>propagates_only\<close>, \<open>jwt_documented\<close>) that a concrete in-memory implementation is proved to satisfy. Logging is left out
  where it has no effect on control flow, but for the attempts and panics of a handler.

  \<^bold>\<open>Theories.\<close>
  \<^item> \<open>Prelude\<close>, \<open>Go_Runtime\<close>: results, integers, maps; errors, strings, \<^verbatim>\<open>select\<close>, checks.
  \<^item> \<open>Core_Config\<close>: \<^verbatim>\<open>core/config\<close>; the interface \<^verbatim>\<open>Configurable\<close> as the locale \<open>configurable\<close>, which every
    configuration interprets. \<open>Kafka_Config\<close>, \<open>Server_Config\<close>, \<open>Mongo_Config\<close>, \<open>Service_Configs\<close>: the
    configurations, with what a configuration that loads satisfies.
  \<^item> \<open>Request_Context\<close>: claims, tenant slug and logger in the context, Kafka headers, collections.
  \<^item> \<open>Readiness\<close>: \<^verbatim>\<open>core/health\<close> and the probes; the reachable states of any number of goroutines; no
    panics, the latch, the probe. \<open>Worker\<close>: \<^verbatim>\<open>core/worker\<close> as a step relation that refines its sequential run,
    over the locales \<open>readiness_wait\<close> and \<open>worker_waits\<close>. \<open>Startup\<close>: the start hooks, the Kafka clients' checks,
    with the time they take, and the readiness they lead to.
  \<^item> \<open>Service_Startup\<close>: configuration sources, the HTTP server's hooks, metrics, tracing and profiling, and that
    a configuration that loads leaves no nil pointer to dereference. \<open>Client_Options\<close>: what the Kafka and MongoDB
    clients and the logger are built from, and what a Kafka configuration that loads makes of a consumer.
  \<^item> \<open>Service_Modules\<close>: what the outbox, consumer and tenant modules append to the application, and the application as a
    step relation over the readiness, all hooks and all workers: which workers wait for what, progress to their functions, the order
    of stopping. Every worker in it is a reachable one of \<open>Worker\<close>.
  \<^item> \<open>Service_Loading\<close>: every module's section of the configuration loaded by its key: what fails and what is on with an
    empty configuration, and that Kubernetes is not detected.
  \<^item> \<open>Net_Url\<close>: the URLs of \<^verbatim>\<open>net/url\<close>, printed and parsed; \<open>Mongo_Uri\<close>: the connection strings built from a given one and
    from the fields of a configuration, a reader of URIs that gets the fields back, and the database in a URI. \<open>Mongo_Driver\<close>: the driver as a parameter and an in-memory instance;
    \<open>Generic_Repository\<close>: \<^verbatim>\<open>mongo/generic_repository.go\<close>, optimistic locking, upserts, pages;
    \<open>Mongo_Transactions\<close>: \<^verbatim>\<open>mongo/txmanager.go\<close> over the driver's sessions, and an update with its outbox
    message as one transaction.
  \<^item> \<open>Tenant_Registry\<close>, \<open>Tenant_Operations\<close>: \<^verbatim>\<open>tenant\<close>; the registry's contract is the locale
    \<open>tenant_repository\<close>, from which synchronisation, lifecycle, cleanup and migrations are proved.
    \<open>Tenant_Module\<close>: the module's providers, the migration runners under the URIs of \<open>Mongo_Uri\<close>, what happens without a source of slugs, and the loop of
    the cleanup worker between which others change the registry.
  \<^item> \<open>Interceptors\<close>, \<open>Rpc_Security\<close>: every interceptor, the composed chain, isolation of tenants, the tokens a configured
    validator accepts.
  \<^item> \<open>Http_Client\<close>: \<^verbatim>\<open>http/client\<close> and the gRPC credentials: retries, the chain of transports. \<open>Grpc_Client\<close>:
    a gRPC call through both interceptors: slug, token and deadline.
  \<^item> \<open>Outbox\<close>: \<^verbatim>\<open>kafka/outbox\<close>, with the repository's contract as the locale \<open>outbox_store\<close>;
    \<open>Outbox_Memory\<close>: an in-memory collection; \<open>Outbox_System\<close>: the workers, callers, Kafka and crashes as a
    step relation, its invariant (one lemma per kind of step), at-least-once delivery, the order and the locks of a fetch.
  \<^item> \<open>Consumer\<close>: \<^verbatim>\<open>kafka/consumer\<close>; \<open>Consumer_Results\<close>: attempts, verdicts, dead letters, the router;
    \<open>Consumer_Pipeline\<close>: reader, deserializer and processor as a pipeline: accounting, order, progress.
  \<^item> \<open>Event_Round_Trip\<close>: an event from the outbox of one service to the handler of another.
  \<^item> \<open>Test_Containers\<close>: \<^verbatim>\<open>testutil/container\<close>: what is terminated when a start fails.

  \<^bold>\<open>Bounds and fuel.\<close> The retry loop of the HTTP client is a partial function, whose value \<open>None\<close> is not
  returning; it is proved to return within the allowed retries plus the expired connections if these are finitely many, and not to
  return when every connection is expired. Polling for brokers has fuel, \<open>2 T + 1\<close> iterations for a timeout
  of \<open>T\<close> seconds and a sleep of half a second in each, and is proved to end at most one answer and one sleep after that timeout; so has polling for Redpanda, 61 iterations for 30 seconds. \<^verbatim>\<open>backoff.Retry\<close> calls its operation at most
  \<open>1 + maxRetries\<close> times by its contract. All other recursion is structural.

  \<^bold>\<open>Not modelled.\<close> The order in which fx calls constructors, and its wiring beyond providers and hooks;
  what libraries' constructors do with their options (zap, OpenTelemetry, Pyroscope, kgo, grpc, the MongoDB client);
  callbacks that only log; \<^verbatim>\<open>net/http\<close> serving and the Swagger pages; the test validator (JSON and base64); koanf's reading of files and the environment;
  the rules of \<^verbatim>\<open>url.Parse\<close> for hosts, which differ between releases of Go and are a parameter (\<open>host_parser\<close>).
\<close>

end
